(* ===== verification/Prelude.thy ===== *)
theory Prelude
  imports Main "HOL-Library.Word"
begin

text \<open>
  Shared vocabulary of the development: the machine integers of the Rust sources as words,
  the outcome of a Rust function (\<^verbatim>\<open>Ok\<close>, \<^verbatim>\<open>Err\<close> or a panic) as a datatype with the
  combinators that model \<^verbatim>\<open>?\<close>, \<^verbatim>\<open>ok_or\<close> and \<^verbatim>\<open>unwrap\<close>, the checked and saturating
  operations of \<^verbatim>\<open>usize\<close>, and the little-endian layout that \<^verbatim>\<open>ByteValued\<close> structures have in
  memory. The lemmas here are about these notions only; every component theory builds on them.
\<close>

unbundle bit_operations_syntax

type_synonym u8 = "8 word"
type_synonym u16 = "16 word"
type_synonym u32 = "32 word"
type_synonym u64 = "64 word"

text \<open>The collections the component theories extend: \<open>rust_simps\<close> unfolds the outcome
  combinators, \<open>codec_simps\<close> carries the byte-level facts.\<close>

named_theorems rust_simps
named_theorems codec_simps

section \<open>Outcomes of Rust functions\<close>

text \<open>A call returns \<^verbatim>\<open>Ok v\<close> or \<^verbatim>\<open>Err e\<close>, or it panics (\<^verbatim>\<open>unwrap\<close> on an error, a failed
  \<^verbatim>\<open>assert!\<close>, an index out of range, \<^verbatim>\<open>todo!()\<close>).\<close>

datatype ('a, 'e) rust = Ok 'a | Err 'e | Panic

definition and_then :: "('a, 'e) rust \<Rightarrow> ('a \<Rightarrow> ('b, 'e) rust) \<Rightarrow> ('b, 'e) rust" where
  "and_then r f = (case r of Ok a \<Rightarrow> f a | Err e \<Rightarrow> Err e | Panic \<Rightarrow> Panic)"

definition map_ok :: "('a \<Rightarrow> 'b) \<Rightarrow> ('a, 'e) rust \<Rightarrow> ('b, 'e) rust" where
  "map_ok f r = (case r of Ok a \<Rightarrow> Ok (f a) | Err e \<Rightarrow> Err e | Panic \<Rightarrow> Panic)"

definition map_err :: "('e \<Rightarrow> 'f) \<Rightarrow> ('a, 'e) rust \<Rightarrow> ('a, 'f) rust" where
  "map_err f r = (case r of Ok a \<Rightarrow> Ok a | Err e \<Rightarrow> Err (f e) | Panic \<Rightarrow> Panic)"

definition ok_or :: "'e \<Rightarrow> 'a option \<Rightarrow> ('a, 'e) rust" where
  "ok_or e x = (case x of None \<Rightarrow> Err e | Some a \<Rightarrow> Ok a)"

definition unwrap :: "('a, 'e) rust \<Rightarrow> ('a, 'f) rust" where
  "unwrap r = (case r of Ok a \<Rightarrow> Ok a | Err e \<Rightarrow> Panic | Panic \<Rightarrow> Panic)"

text \<open>A method on \<^verbatim>\<open>&mut self\<close> returns its outcome and the state it leaves behind; what it
  changed before an \<^verbatim>\<open>Err\<close> stays changed. \<open>bind\<close> is the \<^verbatim>\<open>?\<close> operator between two such calls.\<close>

type_synonym ('s, 'a, 'e) rust_method = "'s \<Rightarrow> ('a, 'e) rust \<times> 's"

definition bind_method :: "('s, 'a, 'e) rust_method \<Rightarrow> ('a \<Rightarrow> ('s, 'b, 'e) rust_method) \<Rightarrow> ('s, 'b, 'e) rust_method" where
  "bind_method m f s =
     (case m s of (Ok a, s') \<Rightarrow> f a s' | (Err e, s') \<Rightarrow> (Err e, s') | (Panic, s') \<Rightarrow> (Panic, s'))"

definition return_method :: "'a \<Rightarrow> ('s, 'a, 'e) rust_method" where
  "return_method a s = (Ok a, s)"

definition fail_method :: "'e \<Rightarrow> ('s, 'a, 'e) rust_method" where
  "fail_method e s = (Err e, s)"

definition is_ok :: "('a, 'e) rust \<Rightarrow> bool" where
  "is_ok r = (case r of Ok _ \<Rightarrow> True | _ \<Rightarrow> False)"

section \<open>Checked arithmetic of usize\<close>

text \<open>\<^verbatim>\<open>usize\<close> has 64 bits on the supported targets; a value of it is a \<^typ>\<open>nat\<close> below
  \<open>usize_max + 1\<close>.\<close>

definition usize_max :: nat where
  "usize_max = 2 ^ 64 - 1"

definition checked_add :: "nat \<Rightarrow> nat \<Rightarrow> nat option" where
  "checked_add a b = (if a + b \<le> usize_max then Some (a + b) else None)"

definition saturating_add :: "nat \<Rightarrow> nat \<Rightarrow> nat" where
  "saturating_add a b = min (a + b) usize_max"

definition checked_mul :: "nat \<Rightarrow> nat \<Rightarrow> nat option" where
  "checked_mul a b = (if a * b \<le> usize_max then Some (a * b) else None)"

section \<open>Little-endian layout\<close>

text \<open>\<open>le_bytes n w\<close> are the \<open>n\<close> bytes of \<open>w\<close>, lowest first; \<open>le_word\<close> reads them back.\<close>

definition le_bytes :: "nat \<Rightarrow> 'a::len word \<Rightarrow> u8 list" where
  "le_bytes n w = map (\<lambda>i. ucast (drop_bit (8 * i) w)) [0..<n]"

fun le_word :: "u8 list \<Rightarrow> 'a::len word" where
  "le_word [] = 0"
| "le_word (b # bs) = ucast b OR push_bit 8 (le_word bs)"

section \<open>Lemmas on outcomes\<close>

lemma and_then_simps [simp, rust_simps]:
  "and_then (Ok a) f = f a" "and_then (Err e) f = Err e" "and_then Panic f = Panic"
  by (simp_all add: and_then_def)

lemma and_then_eq_Ok [rust_simps]:
  "and_then r f = Ok b \<longleftrightarrow> (\<exists>a. r = Ok a \<and> f a = Ok b)"
  by (cases r) auto

lemma map_ok_simps [simp, rust_simps]:
  "map_ok g (Ok a) = Ok (g a)" "map_ok g (Err e) = Err e" "map_ok g Panic = Panic"
  by (simp_all add: map_ok_def)

lemma map_err_simps [simp, rust_simps]:
  "map_err g (Ok a) = Ok a" "map_err g (Err e) = Err (g e)" "map_err g Panic = Panic"
  by (simp_all add: map_err_def)

lemma map_ok_eq_Ok [rust_simps]: "map_ok g r = Ok b \<longleftrightarrow> (\<exists>a. r = Ok a \<and> b = g a)"
  by (cases r) auto

lemma map_err_eq_Ok [rust_simps]: "map_err g r = Ok a \<longleftrightarrow> r = Ok a"
  by (cases r) auto

lemma ok_or_simps [simp, rust_simps]: "ok_or e None = Err e" "ok_or e (Some a) = Ok a"
  by (simp_all add: ok_or_def)

lemma unwrap_simps [simp, rust_simps]:
  "unwrap (Ok a) = Ok a" "unwrap (Err e) = Panic" "unwrap Panic = Panic"
  by (simp_all add: unwrap_def)

lemma bind_method_simps [simp]:
  "bind_method (return_method a) f = f a" "bind_method (fail_method e) f = fail_method e"
  by (auto simp: bind_method_def return_method_def fail_method_def)

lemma and_then_no_panic: "r \<noteq> Panic \<Longrightarrow> (\<And>a. f a \<noteq> Panic) \<Longrightarrow> and_then r f \<noteq> Panic"
  by (cases r) simp_all

lemma map_err_no_panic: "r \<noteq> Panic \<Longrightarrow> map_err f r \<noteq> Panic"
  by (cases r) simp_all

lemma is_ok_simps [simp]: "is_ok (Ok a)" "\<not> is_ok (Err e)" "\<not> is_ok Panic"
  by (simp_all add: is_ok_def)

section \<open>Lemmas on checked arithmetic\<close>

lemma checked_add_eq_Some [simp]:
  "checked_add a b = Some c \<longleftrightarrow> c = a + b \<and> a + b \<le> usize_max"
  by (auto simp: checked_add_def)

lemma checked_mul_eq_Some [simp]:
  "checked_mul a b = Some c \<longleftrightarrow> c = a * b \<and> a * b \<le> usize_max"
  by (auto simp: checked_mul_def)

lemma unat_u32_lt [simp]: "unat (w :: u32) < 4294967296"
  using unsigned_less [where ?'a = nat, of w] by simp

lemma unat_u16_lt [simp]: "unat (w :: u16) < 65536"
  using unsigned_less [where ?'a = nat, of w] by simp

lemma unat_u64_lt [simp]: "unat (w :: u64) < 18446744073709551616"
  using unsigned_less [where ?'a = nat, of w] by simp

section \<open>Lemmas on the byte layout\<close>

lemma length_le_bytes [simp, codec_simps]: "length (le_bytes n w) = n"
  by (simp add: le_bytes_def)

lemma le_bytes_0 [simp]: "le_bytes 0 w = []"
  by (simp add: le_bytes_def)

lemma le_bytes_Suc: "le_bytes (Suc n) w = ucast w # le_bytes n (drop_bit 8 w)"
proof -
  have "le_bytes (Suc n) w = map (\<lambda>i. ucast (drop_bit (8 * i) w)) (0 # map Suc [0..<n])"
    by (simp add: le_bytes_def upt_conv_Cons map_Suc_upt del: upt_Suc)
  then show ?thesis
    by (simp add: le_bytes_def drop_bit_drop_bit o_def add.commute del: upt_Suc)
qed

text \<open>Reading back what was written: the round trip of every integer field.\<close>

lemma le_word_le_bytes_take: "le_word (le_bytes n w) = take_bit (8 * n) (w :: 'a::len word)"
proof (induction n arbitrary: w)
  case 0
  then show ?case by simp
next
  case (Suc n)
  have "le_word (le_bytes (Suc n) w)
      = ucast (ucast w :: u8) OR push_bit 8 (take_bit (8 * n) (drop_bit 8 w))"
    by (simp add: le_bytes_Suc Suc.IH)
  also have "\<dots> = take_bit (8 * Suc n) w"
    by (rule bit_word_eqI) (auto simp: bit_simps)
  finally show ?case .
qed

lemma le_word_le_bytes [simp, codec_simps]:
  fixes w :: "'a::len word"
  assumes "LENGTH('a) \<le> 8 * n"
  shows "le_word (le_bytes n w) = w"
  using assms by (simp add: le_word_le_bytes_take take_bit_word_eq_self)

lemma ucast_le_word_Cons: "8 \<le> LENGTH('a) \<Longrightarrow> ucast (le_word (b # bs) :: 'a::len word) = (b :: u8)"
  by (rule bit_word_eqI) (auto simp: bit_simps)

lemma drop_le_word_Cons:
  "8 * Suc (length bs) \<le> LENGTH('a)
    \<Longrightarrow> take_bit (8 * length bs) (drop_bit 8 (le_word (b # bs))) = take_bit (8 * length bs) (le_word bs :: 'a::len word)"
  by (rule bit_word_eqI) (auto simp: bit_simps dest: bit_imp_le_length)

lemma le_bytes_take_bit: "le_bytes n (take_bit (8 * n) w) = le_bytes n w"
proof -
  have "(ucast (drop_bit (8 * i) (take_bit (8 * n) w)) :: u8) = ucast (drop_bit (8 * i) w)" if "i < n" for i
    using that by (intro bit_word_eqI) (auto simp: bit_simps)
  then show ?thesis by (simp add: le_bytes_def)
qed

lemma le_bytes_le_word:
  "8 * length bs \<le> LENGTH('a) \<Longrightarrow> le_bytes (length bs) (le_word bs :: 'a::len word) = bs"
proof (induction bs)
  case Nil
  then show ?case by simp
next
  case (Cons b bs)
  let ?w = "le_word (b # bs) :: 'a word"
  have "le_bytes (length bs) (drop_bit 8 ?w) = le_bytes (length bs) (le_word bs :: 'a word)"
    using Cons.prems drop_le_word_Cons [of bs b, where 'a = 'a]
    by (metis le_bytes_take_bit length_Cons)
  moreover have "ucast ?w = b"
    using Cons.prems by (intro ucast_le_word_Cons) simp
  ultimately show ?case
    using Cons by (simp add: le_bytes_Suc del: le_word.simps)
qed

end
