(* ===== verification/Byte_Valued.thy ===== *)
theory Byte_Valued
  imports Prelude
begin

text \<open>
  Structures with a fixed memory layout. In the sources a \<^verbatim>\<open>#[repr(C)]\<close> structure with
  \<^verbatim>\<open>unsafe impl ByteValued\<close> is copied to and from guest memory as it stands; its \<^verbatim>\<open>Le32\<close> and
  \<^verbatim>\<open>Le64\<close> fields are little-endian. A \<open>codec\<close> is such a layout: its size, the bytes of a value and
  the value of the bytes. The combinators build the layout of a structure from its fields in order,
  and \<open>lawful\<close> is what the \<^verbatim>\<open>SAFETY\<close> comments claim: every byte string of the right length is a value, and
  the two directions are inverse. The interface of a layout towards a stream of bytes is the locale
  \<open>byte_valued\<close>.
\<close>

section \<open>Layouts\<close>

record 'a codec =
  csize :: nat
  put :: "'a \<Rightarrow> u8 list"
  get :: "u8 list \<Rightarrow> 'a"

definition le16 :: "u16 codec" where
  "le16 = \<lparr>csize = 2, put = le_bytes 2, get = le_word\<rparr>"

definition le32 :: "u32 codec" where
  "le32 = \<lparr>csize = 4, put = le_bytes 4, get = le_word\<rparr>"

definition le64 :: "u64 codec" where
  "le64 = \<lparr>csize = 8, put = le_bytes 8, get = le_word\<rparr>"

definition byte8 :: "u8 codec" where
  "byte8 = \<lparr>csize = 1, put = (\<lambda>b. [b]), get = hd\<rparr>"

definition no_bytes :: "unit codec" where
  "no_bytes = \<lparr>csize = 0, put = (\<lambda>_. []), get = (\<lambda>_. ())\<rparr>"

text \<open>Two fields in a row, a fixed array of \<open>n\<close> elements, and a structure over the tuple of its
  fields.\<close>

definition beside :: "'a codec \<Rightarrow> 'b codec \<Rightarrow> ('a \<times> 'b) codec" where
  "beside c d = \<lparr>csize = csize c + csize d, put = (\<lambda>(x, y). put c x @ put d y),
     get = (\<lambda>bs. (get c (take (csize c) bs), get d (drop (csize c) bs)))\<rparr>"

fun get_array :: "nat \<Rightarrow> 'a codec \<Rightarrow> u8 list \<Rightarrow> 'a list" where
  "get_array 0 c bs = []"
| "get_array (Suc n) c bs = get c (take (csize c) bs) # get_array n c (drop (csize c) bs)"

definition array :: "nat \<Rightarrow> 'a codec \<Rightarrow> 'a list codec" where
  "array n c = \<lparr>csize = n * csize c, put = (\<lambda>xs. concat (map (put c) xs)), get = get_array n c\<rparr>"

definition struct :: "('t \<Rightarrow> 'a) \<Rightarrow> ('a \<Rightarrow> 't) \<Rightarrow> 't codec \<Rightarrow> 'a codec" where
  "struct mk dest c = \<lparr>csize = csize c, put = put c \<circ> dest, get = mk \<circ> get c\<rparr>"

definition lawful :: "'a codec \<Rightarrow> ('a \<Rightarrow> bool) \<Rightarrow> bool" where
  "lawful c valid \<longleftrightarrow>
     (\<forall>x. valid x \<longrightarrow> length (put c x) = csize c \<and> get c (put c x) = x) \<and>
     (\<forall>bs. length bs = csize c \<longrightarrow> valid (get c bs) \<and> put c (get c bs) = bs)"

abbreviation anything :: "'a \<Rightarrow> bool" where
  "anything \<equiv> \<lambda>_. True"

section \<open>The interface of a layout\<close>

locale byte_valued =
  fixes c :: "'a codec" and valid :: "'a \<Rightarrow> bool"
  assumes is_lawful: "lawful c valid"
begin

lemma put_length: "valid x \<Longrightarrow> length (put c x) = csize c"
  using is_lawful by (simp add: lawful_def)

lemma get_put: "valid x \<Longrightarrow> get c (put c x) = x"
  using is_lawful by (simp add: lawful_def)

lemma get_valid: "length bs = csize c \<Longrightarrow> valid (get c bs)"
  using is_lawful by (simp add: lawful_def)

lemma put_get: "length bs = csize c \<Longrightarrow> put c (get c bs) = bs"
  using is_lawful by (simp add: lawful_def)

lemma get_take_append: "valid x \<Longrightarrow> get c (take (csize c) (put c x @ rest)) = x"
  using get_put [of x] by (simp add: put_length)

lemma drop_put_append: "valid x \<Longrightarrow> drop (csize c) (put c x @ rest) = rest"
  by (simp add: put_length)

lemma put_inject: "valid x \<Longrightarrow> valid y \<Longrightarrow> put c x = put c y \<longleftrightarrow> x = y"
  by (metis get_put)

end

section \<open>Lawfulness of the combinators\<close>

lemma lawfulI:
  assumes "\<And>x. valid x \<Longrightarrow> length (put c x) = csize c" "\<And>x. valid x \<Longrightarrow> get c (put c x) = x"
    and "\<And>bs. length bs = csize c \<Longrightarrow> valid (get c bs)"
    and "\<And>bs. length bs = csize c \<Longrightarrow> put c (get c bs) = bs"
  shows "lawful c valid"
  using assms by (simp add: lawful_def)

lemma le_bytes_le_word_exact:
  "length bs = n \<Longrightarrow> 8 * n = LENGTH('a) \<Longrightarrow> le_bytes n (le_word bs :: 'a::len word) = bs"
  using le_bytes_le_word [of bs, where 'a = 'a] by auto

lemma lawful_le16 [simp, intro]: "lawful le16 anything"
  by (rule lawfulI) (simp_all add: le16_def le_bytes_le_word_exact)

lemma lawful_le32 [simp, intro]: "lawful le32 anything"
  by (rule lawfulI) (simp_all add: le32_def le_bytes_le_word_exact)

lemma lawful_le64 [simp, intro]: "lawful le64 anything"
  by (rule lawfulI) (simp_all add: le64_def le_bytes_le_word_exact)

lemma lawful_byte8 [simp, intro]: "lawful byte8 anything"
  by (rule lawfulI) (auto simp: byte8_def length_Suc_conv)

lemma lawful_no_bytes [simp, intro]: "lawful no_bytes anything"
  by (rule lawfulI) (auto simp: no_bytes_def)

lemma lawful_beside:
  assumes c: "lawful c V" and d: "lawful d W"
  shows "lawful (beside c d) (\<lambda>(x, y). V x \<and> W y)"
proof (rule lawfulI)
  fix p assume "case p of (x, y) \<Rightarrow> V x \<and> W y"
  then show "length (put (beside c d) p) = csize (beside c d)" "get (beside c d) (put (beside c d) p) = p"
    using c d by (auto simp: beside_def lawful_def split: prod.splits)
next
  fix bs :: "u8 list" assume "length bs = csize (beside c d)"
  then have "length (take (csize c) bs) = csize c" "length (drop (csize c) bs) = csize d"
    by (simp_all add: beside_def)
  then show "case get (beside c d) bs of (x, y) \<Rightarrow> V x \<and> W y" "put (beside c d) (get (beside c d) bs) = bs"
    using c d unfolding lawful_def by (auto simp: beside_def)
qed

lemma lawful_scalar_beside [simp, intro]:
  "lawful c anything \<Longrightarrow> lawful d anything \<Longrightarrow> lawful (beside c d) anything"
  using lawful_beside [of c anything d anything] by (simp add: case_prod_unfold)

lemma get_array_put:
  assumes "lawful c V"
  shows "list_all V xs \<Longrightarrow> length (concat (map (put c) xs)) = length xs * csize c"
    and "list_all V xs \<Longrightarrow> get_array (length xs) c (concat (map (put c) xs)) = xs"
  using assms by (induction xs) (auto simp: lawful_def)

lemma put_get_array:
  assumes "lawful c V"
  shows "length bs = n * csize c \<Longrightarrow>
    concat (map (put c) (get_array n c bs)) = bs \<and> list_all V (get_array n c bs) \<and> length (get_array n c bs) = n"
proof (induction n arbitrary: bs)
  case (Suc n)
  have "length (take (csize c) bs) = csize c" "length (drop (csize c) bs) = n * csize c"
    using Suc.prems by simp_all
  with Suc.IH [of "drop (csize c) bs"] assms show ?case by (simp add: lawful_def)
qed simp

lemma lawful_array:
  assumes "lawful c V"
  shows "lawful (array n c) (\<lambda>xs. length xs = n \<and> list_all V xs)"
  by (rule lawfulI) (use get_array_put [OF assms] put_get_array [OF assms] in \<open>auto simp: array_def\<close>)

lemma lawful_scalar_array:
  "lawful c anything \<Longrightarrow> lawful (array n c) (\<lambda>xs. length xs = n)"
  using lawful_array [of c anything n] by (simp add: list.pred_True)

lemma lawful_struct:
  assumes "lawful c V" "\<And>x. W x \<Longrightarrow> V (dest x)" "\<And>x. W x \<Longrightarrow> mk (dest x) = x"
    and "\<And>t. V t \<Longrightarrow> W (mk t)" "\<And>t. V t \<Longrightarrow> dest (mk t) = t"
  shows "lawful (struct mk dest c) W"
  by (rule lawfulI) (use assms in \<open>auto simp: struct_def lawful_def\<close>)

lemma lawful_struct_scalar:
  assumes "lawful c anything" "\<And>x. mk (dest x) = x" "\<And>t. dest (mk t) = t"
  shows "lawful (struct mk dest c) anything"
  using assms by (intro lawful_struct) auto

lemma csize_simps [simp]:
  "csize le16 = 2" "csize le32 = 4" "csize le64 = 8" "csize byte8 = 1" "csize no_bytes = 0"
  "csize (beside c d) = csize c + csize d" "csize (array n c) = n * csize c"
  "csize (struct mk dest c) = csize c"
  by (simp_all add: le16_def le32_def le64_def byte8_def no_bytes_def beside_def array_def struct_def)

end
