(* ===== verification/Gpu_Layout.thy ===== *)
theory Gpu_Layout
  imports Byte_Valued
begin

text \<open>
  The structures of the virtio-gpu wire format, \<^verbatim>\<open>virtio-gpu/src/protocol.rs\<close>: each \<^verbatim>\<open>#[repr(C)]\<close>
  structure is a record with the fields in the order of the source (prefixed, since records share
  one name space), and its layout. \<open>_valid\<close> says that the fixed arrays of a value have their
  length; structures of scalars need no such condition. The lemmas \<open>_lawful\<close> discharge the
  \<^verbatim>\<open>SAFETY\<close> comment of each \<^verbatim>\<open>unsafe impl ByteValued\<close>.
\<close>

named_theorems layout_laws

section \<open>Structures\<close>

record virtio_gpu_config =
  cfg_events_read :: u32
  cfg_events_clear :: u32
  cfg_num_scanouts :: u32
  cfg_num_capsets :: u32

definition virtio_gpu_config_layout :: "virtio_gpu_config codec" where
  "virtio_gpu_config_layout = struct
     (\<lambda>(events_read, events_clear, num_scanouts, num_capsets).
       \<lparr>cfg_events_read = events_read, cfg_events_clear = events_clear,
        cfg_num_scanouts = num_scanouts, cfg_num_capsets = num_capsets\<rparr>)
     (\<lambda>s. (cfg_events_read s, cfg_events_clear s, cfg_num_scanouts s, cfg_num_capsets s))
     (beside le32 (beside le32 (beside le32 le32)))"

record virtio_gpu_ctrl_hdr =
  hdr_type :: u32
  hdr_flags :: u32
  hdr_fence_id :: u64
  hdr_ctx_id :: u32
  hdr_ring_idx :: u8
  hdr_padding :: "u8 list"

definition virtio_gpu_ctrl_hdr_layout :: "virtio_gpu_ctrl_hdr codec" where
  "virtio_gpu_ctrl_hdr_layout = struct
     (\<lambda>(ty, flags, fence_id, ctx_id, ring_idx, padding).
       \<lparr>hdr_type = ty, hdr_flags = flags, hdr_fence_id = fence_id, hdr_ctx_id =
        ctx_id, hdr_ring_idx = ring_idx, hdr_padding = padding\<rparr>)
     (\<lambda>s. (hdr_type s, hdr_flags s, hdr_fence_id s, hdr_ctx_id s, hdr_ring_idx s,
           hdr_padding s))
     (beside le32 (beside le32 (beside le64 (beside le32 (beside byte8 (array 3 byte8))))))"

definition virtio_gpu_ctrl_hdr_valid :: "virtio_gpu_ctrl_hdr \<Rightarrow> bool" where
  "virtio_gpu_ctrl_hdr_valid x \<longleftrightarrow> length (hdr_padding x) = 3"

record virtio_gpu_cursor_pos =
  cp_scanout_id :: u32
  cp_x :: u32
  cp_y :: u32
  cp_padding :: u32

definition virtio_gpu_cursor_pos_layout :: "virtio_gpu_cursor_pos codec" where
  "virtio_gpu_cursor_pos_layout = struct
     (\<lambda>(scanout_id, x, y, padding).
       \<lparr>cp_scanout_id = scanout_id, cp_x = x, cp_y = y, cp_padding = padding\<rparr>)
     (\<lambda>s. (cp_scanout_id s, cp_x s, cp_y s, cp_padding s))
     (beside le32 (beside le32 (beside le32 le32)))"

record virtio_gpu_update_cursor =
  uc_pos :: virtio_gpu_cursor_pos
  uc_resource_id :: u32
  uc_hot_x :: u32
  uc_hot_y :: u32
  uc_padding :: u32

definition virtio_gpu_update_cursor_layout :: "virtio_gpu_update_cursor codec" where
  "virtio_gpu_update_cursor_layout = struct
     (\<lambda>(pos, resource_id, hot_x, hot_y, padding).
       \<lparr>uc_pos = pos, uc_resource_id = resource_id, uc_hot_x = hot_x, uc_hot_y =
        hot_y, uc_padding = padding\<rparr>)
     (\<lambda>s. (uc_pos s, uc_resource_id s, uc_hot_x s, uc_hot_y s, uc_padding s))
     (beside virtio_gpu_cursor_pos_layout (beside le32 (beside le32 (beside le32 le32))))"

record virtio_gpu_rect =
  rect_x :: u32
  rect_y :: u32
  rect_width :: u32
  rect_height :: u32

definition virtio_gpu_rect_layout :: "virtio_gpu_rect codec" where
  "virtio_gpu_rect_layout = struct
     (\<lambda>(x, y, width, height).
       \<lparr>rect_x = x, rect_y = y, rect_width = width, rect_height = height\<rparr>)
     (\<lambda>s. (rect_x s, rect_y s, rect_width s, rect_height s))
     (beside le32 (beside le32 (beside le32 le32)))"

record virtio_gpu_get_edid =
  ge_scanout :: u32
  ge_padding :: u32

definition virtio_gpu_get_edid_layout :: "virtio_gpu_get_edid codec" where
  "virtio_gpu_get_edid_layout = struct
     (\<lambda>(scanout, padding).
       \<lparr>ge_scanout = scanout, ge_padding = padding\<rparr>)
     (\<lambda>s. (ge_scanout s, ge_padding s))
     (beside le32 le32)"

record virtio_gpu_resource_unref =
  ru_resource_id :: u32
  ru_padding :: u32

definition virtio_gpu_resource_unref_layout :: "virtio_gpu_resource_unref codec" where
  "virtio_gpu_resource_unref_layout = struct
     (\<lambda>(resource_id, padding).
       \<lparr>ru_resource_id = resource_id, ru_padding = padding\<rparr>)
     (\<lambda>s. (ru_resource_id s, ru_padding s))
     (beside le32 le32)"

record virtio_gpu_resource_create_2d =
  c2_resource_id :: u32
  c2_format :: u32
  c2_width :: u32
  c2_height :: u32

definition virtio_gpu_resource_create_2d_layout :: "virtio_gpu_resource_create_2d codec" where
  "virtio_gpu_resource_create_2d_layout = struct
     (\<lambda>(resource_id, fmt, width, height).
       \<lparr>c2_resource_id = resource_id, c2_format = fmt, c2_width = width, c2_height =
        height\<rparr>)
     (\<lambda>s. (c2_resource_id s, c2_format s, c2_width s, c2_height s))
     (beside le32 (beside le32 (beside le32 le32)))"

record virtio_gpu_set_scanout =
  ss_r :: virtio_gpu_rect
  ss_scanout_id :: u32
  ss_resource_id :: u32

definition virtio_gpu_set_scanout_layout :: "virtio_gpu_set_scanout codec" where
  "virtio_gpu_set_scanout_layout = struct
     (\<lambda>(rc, scanout_id, resource_id).
       \<lparr>ss_r = rc, ss_scanout_id = scanout_id, ss_resource_id = resource_id\<rparr>)
     (\<lambda>s. (ss_r s, ss_scanout_id s, ss_resource_id s))
     (beside virtio_gpu_rect_layout (beside le32 le32))"

record virtio_gpu_resource_flush =
  rf_r :: virtio_gpu_rect
  rf_resource_id :: u32
  rf_padding :: u32

definition virtio_gpu_resource_flush_layout :: "virtio_gpu_resource_flush codec" where
  "virtio_gpu_resource_flush_layout = struct
     (\<lambda>(rc, resource_id, padding).
       \<lparr>rf_r = rc, rf_resource_id = resource_id, rf_padding = padding\<rparr>)
     (\<lambda>s. (rf_r s, rf_resource_id s, rf_padding s))
     (beside virtio_gpu_rect_layout (beside le32 le32))"

record virtio_gpu_transfer_to_host_2d =
  t2_r :: virtio_gpu_rect
  t2_offset :: u64
  t2_resource_id :: u32
  t2_padding :: u32

definition virtio_gpu_transfer_to_host_2d_layout :: "virtio_gpu_transfer_to_host_2d codec" where
  "virtio_gpu_transfer_to_host_2d_layout = struct
     (\<lambda>(rc, offset, resource_id, padding).
       \<lparr>t2_r = rc, t2_offset = offset, t2_resource_id = resource_id, t2_padding =
        padding\<rparr>)
     (\<lambda>s. (t2_r s, t2_offset s, t2_resource_id s, t2_padding s))
     (beside virtio_gpu_rect_layout (beside le64 (beside le32 le32)))"

record virtio_gpu_mem_entry =
  me_addr :: u64
  me_length :: u32
  me_padding :: u32

definition virtio_gpu_mem_entry_layout :: "virtio_gpu_mem_entry codec" where
  "virtio_gpu_mem_entry_layout = struct
     (\<lambda>(addr, len, padding).
       \<lparr>me_addr = addr, me_length = len, me_padding = padding\<rparr>)
     (\<lambda>s. (me_addr s, me_length s, me_padding s))
     (beside le64 (beside le32 le32))"

record virtio_gpu_resource_attach_backing =
  ab_resource_id :: u32
  ab_nr_entries :: u32

definition virtio_gpu_resource_attach_backing_layout :: "virtio_gpu_resource_attach_backing codec" where
  "virtio_gpu_resource_attach_backing_layout = struct
     (\<lambda>(resource_id, nr_entries).
       \<lparr>ab_resource_id = resource_id, ab_nr_entries = nr_entries\<rparr>)
     (\<lambda>s. (ab_resource_id s, ab_nr_entries s))
     (beside le32 le32)"

record virtio_gpu_resource_detach_backing =
  db_resource_id :: u32
  db_padding :: u32

definition virtio_gpu_resource_detach_backing_layout :: "virtio_gpu_resource_detach_backing codec" where
  "virtio_gpu_resource_detach_backing_layout = struct
     (\<lambda>(resource_id, padding).
       \<lparr>db_resource_id = resource_id, db_padding = padding\<rparr>)
     (\<lambda>s. (db_resource_id s, db_padding s))
     (beside le32 le32)"

record virtio_gpu_display_one =
  d1_r :: virtio_gpu_rect
  d1_enabled :: u32
  d1_flags :: u32

definition virtio_gpu_display_one_layout :: "virtio_gpu_display_one codec" where
  "virtio_gpu_display_one_layout = struct
     (\<lambda>(rc, enabled, flags).
       \<lparr>d1_r = rc, d1_enabled = enabled, d1_flags = flags\<rparr>)
     (\<lambda>s. (d1_r s, d1_enabled s, d1_flags s))
     (beside virtio_gpu_rect_layout (beside le32 le32))"

record virtio_gpu_resp_display_info =
  rd_hdr :: virtio_gpu_ctrl_hdr
  rd_pmodes :: "virtio_gpu_display_one list"

definition virtio_gpu_resp_display_info_layout :: "virtio_gpu_resp_display_info codec" where
  "virtio_gpu_resp_display_info_layout = struct
     (\<lambda>(hdr, pmodes).
       \<lparr>rd_hdr = hdr, rd_pmodes = pmodes\<rparr>)
     (\<lambda>s. (rd_hdr s, rd_pmodes s))
     (beside virtio_gpu_ctrl_hdr_layout (array 16 virtio_gpu_display_one_layout))"

definition virtio_gpu_resp_display_info_valid :: "virtio_gpu_resp_display_info \<Rightarrow> bool" where
  "virtio_gpu_resp_display_info_valid x \<longleftrightarrow> virtio_gpu_ctrl_hdr_valid (rd_hdr x) \<and>
     length (rd_pmodes x) = 16"

record virtio_gpu_resp_edid =
  re_hdr :: virtio_gpu_ctrl_hdr
  re_size :: u32
  re_padding :: u32
  re_edid :: "u8 list"

definition virtio_gpu_resp_edid_layout :: "virtio_gpu_resp_edid codec" where
  "virtio_gpu_resp_edid_layout = struct
     (\<lambda>(hdr, sz, padding, edid).
       \<lparr>re_hdr = hdr, re_size = sz, re_padding = padding, re_edid = edid\<rparr>)
     (\<lambda>s. (re_hdr s, re_size s, re_padding s, re_edid s))
     (beside virtio_gpu_ctrl_hdr_layout (beside le32 (beside le32 (array 1024 byte8))))"

definition virtio_gpu_resp_edid_valid :: "virtio_gpu_resp_edid \<Rightarrow> bool" where
  "virtio_gpu_resp_edid_valid x \<longleftrightarrow> virtio_gpu_ctrl_hdr_valid (re_hdr x) \<and>
     length (re_edid x) = 1024"

record virtio_gpu_box =
  bx_x :: u32
  bx_y :: u32
  bx_z :: u32
  bx_w :: u32
  bx_h :: u32
  bx_d :: u32

definition virtio_gpu_box_layout :: "virtio_gpu_box codec" where
  "virtio_gpu_box_layout = struct
     (\<lambda>(x, y, z, w, h, d).
       \<lparr>bx_x = x, bx_y = y, bx_z = z, bx_w = w, bx_h = h, bx_d = d\<rparr>)
     (\<lambda>s. (bx_x s, bx_y s, bx_z s, bx_w s, bx_h s, bx_d s))
     (beside le32 (beside le32 (beside le32 (beside le32 (beside le32 le32)))))"

record virtio_gpu_transfer_host_3d =
  t3_box :: virtio_gpu_box
  t3_offset :: u64
  t3_resource_id :: u32
  t3_level :: u32
  t3_stride :: u32
  t3_layer_stride :: u32

definition virtio_gpu_transfer_host_3d_layout :: "virtio_gpu_transfer_host_3d codec" where
  "virtio_gpu_transfer_host_3d_layout = struct
     (\<lambda>(box, offset, resource_id, level, stride, layer_stride).
       \<lparr>t3_box = box, t3_offset = offset, t3_resource_id = resource_id, t3_level =
        level, t3_stride = stride, t3_layer_stride = layer_stride\<rparr>)
     (\<lambda>s. (t3_box s, t3_offset s, t3_resource_id s, t3_level s, t3_stride s, t3_layer_stride
           s))
     (beside virtio_gpu_box_layout (beside le64 (beside le32 (beside le32 (beside le32
      le32)))))"

record virtio_gpu_resource_create_3d =
  c3_resource_id :: u32
  c3_target :: u32
  c3_format :: u32
  c3_bind :: u32
  c3_width :: u32
  c3_height :: u32
  c3_depth :: u32
  c3_array_size :: u32
  c3_last_level :: u32
  c3_nr_samples :: u32
  c3_flags :: u32
  c3_padding :: u32

definition virtio_gpu_resource_create_3d_layout :: "virtio_gpu_resource_create_3d codec" where
  "virtio_gpu_resource_create_3d_layout = struct
     (\<lambda>(resource_id, target, fmt, bind, width, height, depth, array_size, last_level, nr_samples, flags, padding).
       \<lparr>c3_resource_id = resource_id, c3_target = target, c3_format = fmt, c3_bind =
        bind, c3_width = width, c3_height = height, c3_depth = depth, c3_array_size =
        array_size, c3_last_level = last_level, c3_nr_samples = nr_samples, c3_flags =
        flags, c3_padding = padding\<rparr>)
     (\<lambda>s. (c3_resource_id s, c3_target s, c3_format s, c3_bind s, c3_width s, c3_height s,
           c3_depth s, c3_array_size s, c3_last_level s, c3_nr_samples s, c3_flags s,
           c3_padding s))
     (beside le32 (beside le32 (beside le32 (beside le32 (beside le32 (beside le32 (beside
      le32 (beside le32 (beside le32 (beside le32 (beside le32 le32)))))))))))"

record virtio_gpu_ctx_create =
  cc_nlen :: u32
  cc_context_init :: u32
  cc_debug_name :: "u8 list"

definition virtio_gpu_ctx_create_layout :: "virtio_gpu_ctx_create codec" where
  "virtio_gpu_ctx_create_layout = struct
     (\<lambda>(nlen, context_init, debug_name).
       \<lparr>cc_nlen = nlen, cc_context_init = context_init, cc_debug_name =
        debug_name\<rparr>)
     (\<lambda>s. (cc_nlen s, cc_context_init s, cc_debug_name s))
     (beside le32 (beside le32 (array 64 byte8)))"

definition virtio_gpu_ctx_create_valid :: "virtio_gpu_ctx_create \<Rightarrow> bool" where
  "virtio_gpu_ctx_create_valid x \<longleftrightarrow> length (cc_debug_name x) = 64"

record virtio_gpu_ctx_resource =
  cr_resource_id :: u32
  cr_padding :: u32

definition virtio_gpu_ctx_resource_layout :: "virtio_gpu_ctx_resource codec" where
  "virtio_gpu_ctx_resource_layout = struct
     (\<lambda>(resource_id, padding).
       \<lparr>cr_resource_id = resource_id, cr_padding = padding\<rparr>)
     (\<lambda>s. (cr_resource_id s, cr_padding s))
     (beside le32 le32)"

record virtio_gpu_cmd_submit =
  cs_size :: u32
  cs_num_in_fences :: u32

definition virtio_gpu_cmd_submit_layout :: "virtio_gpu_cmd_submit codec" where
  "virtio_gpu_cmd_submit_layout = struct
     (\<lambda>(sz, num_in_fences).
       \<lparr>cs_size = sz, cs_num_in_fences = num_in_fences\<rparr>)
     (\<lambda>s. (cs_size s, cs_num_in_fences s))
     (beside le32 le32)"

record virtio_gpu_get_capset_info =
  gi_capset_index :: u32
  gi_padding :: u32

definition virtio_gpu_get_capset_info_layout :: "virtio_gpu_get_capset_info codec" where
  "virtio_gpu_get_capset_info_layout = struct
     (\<lambda>(capset_index, padding).
       \<lparr>gi_capset_index = capset_index, gi_padding = padding\<rparr>)
     (\<lambda>s. (gi_capset_index s, gi_padding s))
     (beside le32 le32)"

record virtio_gpu_resp_capset_info =
  ri_hdr :: virtio_gpu_ctrl_hdr
  ri_capset_id :: u32
  ri_capset_max_version :: u32
  ri_capset_max_size :: u32
  ri_padding :: u32

definition virtio_gpu_resp_capset_info_layout :: "virtio_gpu_resp_capset_info codec" where
  "virtio_gpu_resp_capset_info_layout = struct
     (\<lambda>(hdr, capset_id, capset_max_version, capset_max_size, padding).
       \<lparr>ri_hdr = hdr, ri_capset_id = capset_id, ri_capset_max_version =
        capset_max_version, ri_capset_max_size = capset_max_size, ri_padding =
        padding\<rparr>)
     (\<lambda>s. (ri_hdr s, ri_capset_id s, ri_capset_max_version s, ri_capset_max_size s,
           ri_padding s))
     (beside virtio_gpu_ctrl_hdr_layout (beside le32 (beside le32 (beside le32 le32))))"

definition virtio_gpu_resp_capset_info_valid :: "virtio_gpu_resp_capset_info \<Rightarrow> bool" where
  "virtio_gpu_resp_capset_info_valid x \<longleftrightarrow> virtio_gpu_ctrl_hdr_valid (ri_hdr x)"

record virtio_gpu_get_capset =
  gc_capset_id :: u32
  gc_capset_version :: u32

definition virtio_gpu_get_capset_layout :: "virtio_gpu_get_capset codec" where
  "virtio_gpu_get_capset_layout = struct
     (\<lambda>(capset_id, capset_version).
       \<lparr>gc_capset_id = capset_id, gc_capset_version = capset_version\<rparr>)
     (\<lambda>s. (gc_capset_id s, gc_capset_version s))
     (beside le32 le32)"

record virtio_gpu_resp_resource_plane_info =
  rp_hdr :: virtio_gpu_ctrl_hdr
  rp_count :: u32
  rp_padding :: u32
  rp_format_modifier :: u64
  rp_strides :: "u32 list"
  rp_offsets :: "u32 list"

definition virtio_gpu_resp_resource_plane_info_layout :: "virtio_gpu_resp_resource_plane_info codec" where
  "virtio_gpu_resp_resource_plane_info_layout = struct
     (\<lambda>(hdr, count, padding, format_modifier, strides, offsets).
       \<lparr>rp_hdr = hdr, rp_count = count, rp_padding = padding, rp_format_modifier =
        format_modifier, rp_strides = strides, rp_offsets = offsets\<rparr>)
     (\<lambda>s. (rp_hdr s, rp_count s, rp_padding s, rp_format_modifier s, rp_strides s,
           rp_offsets s))
     (beside virtio_gpu_ctrl_hdr_layout (beside le32 (beside le32 (beside le64 (beside
      (array 4 le32) (array 4 le32))))))"

definition virtio_gpu_resp_resource_plane_info_valid :: "virtio_gpu_resp_resource_plane_info \<Rightarrow> bool" where
  "virtio_gpu_resp_resource_plane_info_valid x \<longleftrightarrow> virtio_gpu_ctrl_hdr_valid (rp_hdr x) \<and>
     length (rp_strides x) = 4 \<and>
     length (rp_offsets x) = 4"

record virtio_gpu_resource_create_blob =
  cb_resource_id :: u32
  cb_blob_mem :: u32
  cb_blob_flags :: u32
  cb_nr_entries :: u32
  cb_blob_id :: u64
  cb_size :: u64

definition virtio_gpu_resource_create_blob_layout :: "virtio_gpu_resource_create_blob codec" where
  "virtio_gpu_resource_create_blob_layout = struct
     (\<lambda>(resource_id, blob_mem, blob_flags, nr_entries, blob_id, sz).
       \<lparr>cb_resource_id = resource_id, cb_blob_mem = blob_mem, cb_blob_flags =
        blob_flags, cb_nr_entries = nr_entries, cb_blob_id = blob_id, cb_size = sz\<rparr>)
     (\<lambda>s. (cb_resource_id s, cb_blob_mem s, cb_blob_flags s, cb_nr_entries s, cb_blob_id s,
           cb_size s))
     (beside le32 (beside le32 (beside le32 (beside le32 (beside le64 le64)))))"

record virtio_gpu_resource_map_blob =
  mb_resource_id :: u32
  mb_padding :: u32
  mb_offset :: u64

definition virtio_gpu_resource_map_blob_layout :: "virtio_gpu_resource_map_blob codec" where
  "virtio_gpu_resource_map_blob_layout = struct
     (\<lambda>(resource_id, padding, offset).
       \<lparr>mb_resource_id = resource_id, mb_padding = padding, mb_offset =
        offset\<rparr>)
     (\<lambda>s. (mb_resource_id s, mb_padding s, mb_offset s))
     (beside le32 (beside le32 le64))"

record virtio_gpu_resource_unmap_blob =
  ub_resource_id :: u32
  ub_padding :: u32

definition virtio_gpu_resource_unmap_blob_layout :: "virtio_gpu_resource_unmap_blob codec" where
  "virtio_gpu_resource_unmap_blob_layout = struct
     (\<lambda>(resource_id, padding).
       \<lparr>ub_resource_id = resource_id, ub_padding = padding\<rparr>)
     (\<lambda>s. (ub_resource_id s, ub_padding s))
     (beside le32 le32)"

record virtio_gpu_resp_map_info =
  rm_hdr :: virtio_gpu_ctrl_hdr
  rm_map_info :: u32
  rm_padding :: u32

definition virtio_gpu_resp_map_info_layout :: "virtio_gpu_resp_map_info codec" where
  "virtio_gpu_resp_map_info_layout = struct
     (\<lambda>(hdr, map_info, padding).
       \<lparr>rm_hdr = hdr, rm_map_info = map_info, rm_padding = padding\<rparr>)
     (\<lambda>s. (rm_hdr s, rm_map_info s, rm_padding s))
     (beside virtio_gpu_ctrl_hdr_layout (beside le32 le32))"

definition virtio_gpu_resp_map_info_valid :: "virtio_gpu_resp_map_info \<Rightarrow> bool" where
  "virtio_gpu_resp_map_info_valid x \<longleftrightarrow> virtio_gpu_ctrl_hdr_valid (rm_hdr x)"

record virtio_gpu_resource_assign_uuid =
  au_resource_id :: u32
  au_padding :: u32

definition virtio_gpu_resource_assign_uuid_layout :: "virtio_gpu_resource_assign_uuid codec" where
  "virtio_gpu_resource_assign_uuid_layout = struct
     (\<lambda>(resource_id, padding).
       \<lparr>au_resource_id = resource_id, au_padding = padding\<rparr>)
     (\<lambda>s. (au_resource_id s, au_padding s))
     (beside le32 le32)"

record virtio_gpu_resp_resource_uuid =
  rr_hdr :: virtio_gpu_ctrl_hdr
  rr_uuid :: "u8 list"

definition virtio_gpu_resp_resource_uuid_layout :: "virtio_gpu_resp_resource_uuid codec" where
  "virtio_gpu_resp_resource_uuid_layout = struct
     (\<lambda>(hdr, uuid).
       \<lparr>rr_hdr = hdr, rr_uuid = uuid\<rparr>)
     (\<lambda>s. (rr_hdr s, rr_uuid s))
     (beside virtio_gpu_ctrl_hdr_layout (array 16 byte8))"

definition virtio_gpu_resp_resource_uuid_valid :: "virtio_gpu_resp_resource_uuid \<Rightarrow> bool" where
  "virtio_gpu_resp_resource_uuid_valid x \<longleftrightarrow> virtio_gpu_ctrl_hdr_valid (rr_hdr x) \<and>
     length (rr_uuid x) = 16"

record virtio_gpu_set_scanout_blob =
  sb_r :: virtio_gpu_rect
  sb_scanout_id :: u32
  sb_resource_id :: u32
  sb_width :: u32
  sb_height :: u32
  sb_format :: u32
  sb_padding :: u32
  sb_strides :: "u32 list"
  sb_offsets :: "u32 list"

definition virtio_gpu_set_scanout_blob_layout :: "virtio_gpu_set_scanout_blob codec" where
  "virtio_gpu_set_scanout_blob_layout = struct
     (\<lambda>(rc, scanout_id, resource_id, width, height, fmt, padding, strides, offsets).
       \<lparr>sb_r = rc, sb_scanout_id = scanout_id, sb_resource_id = resource_id,
        sb_width = width, sb_height = height, sb_format = fmt, sb_padding = padding,
        sb_strides = strides, sb_offsets = offsets\<rparr>)
     (\<lambda>s. (sb_r s, sb_scanout_id s, sb_resource_id s, sb_width s, sb_height s, sb_format s,
           sb_padding s, sb_strides s, sb_offsets s))
     (beside virtio_gpu_rect_layout (beside le32 (beside le32 (beside le32 (beside le32
      (beside le32 (beside le32 (beside (array 4 le32) (array 4 le32)))))))))"

definition virtio_gpu_set_scanout_blob_valid :: "virtio_gpu_set_scanout_blob \<Rightarrow> bool" where
  "virtio_gpu_set_scanout_blob_valid x \<longleftrightarrow> length (sb_strides x) = 4 \<and>
     length (sb_offsets x) = 4"

section \<open>Every layout is lawful\<close>

lemmas lawful_scalars [layout_laws] = lawful_le32 lawful_le64 lawful_byte8

lemmas lawful_arrays [layout_laws] = lawful_scalar_array

lemma virtio_gpu_config_lawful [layout_laws, simp]: "lawful virtio_gpu_config_layout anything"
  unfolding virtio_gpu_config_layout_def by (rule lawful_struct_scalar, (rule layout_laws lawful_scalar_beside)+) auto

lemma virtio_gpu_ctrl_hdr_lawful [layout_laws, simp]: "lawful virtio_gpu_ctrl_hdr_layout virtio_gpu_ctrl_hdr_valid"
  unfolding virtio_gpu_ctrl_hdr_layout_def
  by (rule lawful_struct, (rule layout_laws lawful_beside)+) (auto simp: virtio_gpu_ctrl_hdr_valid_def)

lemma virtio_gpu_cursor_pos_lawful [layout_laws, simp]: "lawful virtio_gpu_cursor_pos_layout anything"
  unfolding virtio_gpu_cursor_pos_layout_def by (rule lawful_struct_scalar, (rule layout_laws lawful_scalar_beside)+) auto

lemma virtio_gpu_update_cursor_lawful [layout_laws, simp]: "lawful virtio_gpu_update_cursor_layout anything"
  unfolding virtio_gpu_update_cursor_layout_def by (rule lawful_struct_scalar, (rule layout_laws lawful_scalar_beside)+) auto

lemma virtio_gpu_rect_lawful [layout_laws, simp]: "lawful virtio_gpu_rect_layout anything"
  unfolding virtio_gpu_rect_layout_def by (rule lawful_struct_scalar, (rule layout_laws lawful_scalar_beside)+) auto

lemma virtio_gpu_get_edid_lawful [layout_laws, simp]: "lawful virtio_gpu_get_edid_layout anything"
  unfolding virtio_gpu_get_edid_layout_def by (rule lawful_struct_scalar, (rule layout_laws lawful_scalar_beside)+) auto

lemma virtio_gpu_resource_unref_lawful [layout_laws, simp]: "lawful virtio_gpu_resource_unref_layout anything"
  unfolding virtio_gpu_resource_unref_layout_def by (rule lawful_struct_scalar, (rule layout_laws lawful_scalar_beside)+) auto

lemma virtio_gpu_resource_create_2d_lawful [layout_laws, simp]: "lawful virtio_gpu_resource_create_2d_layout anything"
  unfolding virtio_gpu_resource_create_2d_layout_def by (rule lawful_struct_scalar, (rule layout_laws lawful_scalar_beside)+) auto

lemma virtio_gpu_set_scanout_lawful [layout_laws, simp]: "lawful virtio_gpu_set_scanout_layout anything"
  unfolding virtio_gpu_set_scanout_layout_def by (rule lawful_struct_scalar, (rule layout_laws lawful_scalar_beside)+) auto

lemma virtio_gpu_resource_flush_lawful [layout_laws, simp]: "lawful virtio_gpu_resource_flush_layout anything"
  unfolding virtio_gpu_resource_flush_layout_def by (rule lawful_struct_scalar, (rule layout_laws lawful_scalar_beside)+) auto

lemma virtio_gpu_transfer_to_host_2d_lawful [layout_laws, simp]: "lawful virtio_gpu_transfer_to_host_2d_layout anything"
  unfolding virtio_gpu_transfer_to_host_2d_layout_def by (rule lawful_struct_scalar, (rule layout_laws lawful_scalar_beside)+) auto

lemma virtio_gpu_mem_entry_lawful [layout_laws, simp]: "lawful virtio_gpu_mem_entry_layout anything"
  unfolding virtio_gpu_mem_entry_layout_def by (rule lawful_struct_scalar, (rule layout_laws lawful_scalar_beside)+) auto

lemma virtio_gpu_resource_attach_backing_lawful [layout_laws, simp]: "lawful virtio_gpu_resource_attach_backing_layout anything"
  unfolding virtio_gpu_resource_attach_backing_layout_def by (rule lawful_struct_scalar, (rule layout_laws lawful_scalar_beside)+) auto

lemma virtio_gpu_resource_detach_backing_lawful [layout_laws, simp]: "lawful virtio_gpu_resource_detach_backing_layout anything"
  unfolding virtio_gpu_resource_detach_backing_layout_def by (rule lawful_struct_scalar, (rule layout_laws lawful_scalar_beside)+) auto

lemma virtio_gpu_display_one_lawful [layout_laws, simp]: "lawful virtio_gpu_display_one_layout anything"
  unfolding virtio_gpu_display_one_layout_def by (rule lawful_struct_scalar, (rule layout_laws lawful_scalar_beside)+) auto

lemma virtio_gpu_resp_display_info_lawful [layout_laws, simp]: "lawful virtio_gpu_resp_display_info_layout virtio_gpu_resp_display_info_valid"
  unfolding virtio_gpu_resp_display_info_layout_def
  by (rule lawful_struct, (rule layout_laws lawful_beside)+) (auto simp: virtio_gpu_resp_display_info_valid_def)

lemma virtio_gpu_resp_edid_lawful [layout_laws, simp]: "lawful virtio_gpu_resp_edid_layout virtio_gpu_resp_edid_valid"
  unfolding virtio_gpu_resp_edid_layout_def
  by (rule lawful_struct, (rule layout_laws lawful_beside)+) (auto simp: virtio_gpu_resp_edid_valid_def)

lemma virtio_gpu_box_lawful [layout_laws, simp]: "lawful virtio_gpu_box_layout anything"
  unfolding virtio_gpu_box_layout_def by (rule lawful_struct_scalar, (rule layout_laws lawful_scalar_beside)+) auto

lemma virtio_gpu_transfer_host_3d_lawful [layout_laws, simp]: "lawful virtio_gpu_transfer_host_3d_layout anything"
  unfolding virtio_gpu_transfer_host_3d_layout_def by (rule lawful_struct_scalar, (rule layout_laws lawful_scalar_beside)+) auto

lemma virtio_gpu_resource_create_3d_lawful [layout_laws, simp]: "lawful virtio_gpu_resource_create_3d_layout anything"
  unfolding virtio_gpu_resource_create_3d_layout_def by (rule lawful_struct_scalar, (rule layout_laws lawful_scalar_beside)+) auto

lemma virtio_gpu_ctx_create_lawful [layout_laws, simp]: "lawful virtio_gpu_ctx_create_layout virtio_gpu_ctx_create_valid"
  unfolding virtio_gpu_ctx_create_layout_def
  by (rule lawful_struct, (rule layout_laws lawful_beside)+) (auto simp: virtio_gpu_ctx_create_valid_def)

lemma virtio_gpu_ctx_resource_lawful [layout_laws, simp]: "lawful virtio_gpu_ctx_resource_layout anything"
  unfolding virtio_gpu_ctx_resource_layout_def by (rule lawful_struct_scalar, (rule layout_laws lawful_scalar_beside)+) auto

lemma virtio_gpu_cmd_submit_lawful [layout_laws, simp]: "lawful virtio_gpu_cmd_submit_layout anything"
  unfolding virtio_gpu_cmd_submit_layout_def by (rule lawful_struct_scalar, (rule layout_laws lawful_scalar_beside)+) auto

lemma virtio_gpu_get_capset_info_lawful [layout_laws, simp]: "lawful virtio_gpu_get_capset_info_layout anything"
  unfolding virtio_gpu_get_capset_info_layout_def by (rule lawful_struct_scalar, (rule layout_laws lawful_scalar_beside)+) auto

lemma virtio_gpu_resp_capset_info_lawful [layout_laws, simp]: "lawful virtio_gpu_resp_capset_info_layout virtio_gpu_resp_capset_info_valid"
  unfolding virtio_gpu_resp_capset_info_layout_def
  by (rule lawful_struct, (rule layout_laws lawful_beside)+) (auto simp: virtio_gpu_resp_capset_info_valid_def)

lemma virtio_gpu_get_capset_lawful [layout_laws, simp]: "lawful virtio_gpu_get_capset_layout anything"
  unfolding virtio_gpu_get_capset_layout_def by (rule lawful_struct_scalar, (rule layout_laws lawful_scalar_beside)+) auto

lemma virtio_gpu_resp_resource_plane_info_lawful [layout_laws, simp]: "lawful virtio_gpu_resp_resource_plane_info_layout virtio_gpu_resp_resource_plane_info_valid"
  unfolding virtio_gpu_resp_resource_plane_info_layout_def
  by (rule lawful_struct, (rule layout_laws lawful_beside)+) (auto simp: virtio_gpu_resp_resource_plane_info_valid_def)

lemma virtio_gpu_resource_create_blob_lawful [layout_laws, simp]: "lawful virtio_gpu_resource_create_blob_layout anything"
  unfolding virtio_gpu_resource_create_blob_layout_def by (rule lawful_struct_scalar, (rule layout_laws lawful_scalar_beside)+) auto

lemma virtio_gpu_resource_map_blob_lawful [layout_laws, simp]: "lawful virtio_gpu_resource_map_blob_layout anything"
  unfolding virtio_gpu_resource_map_blob_layout_def by (rule lawful_struct_scalar, (rule layout_laws lawful_scalar_beside)+) auto

lemma virtio_gpu_resource_unmap_blob_lawful [layout_laws, simp]: "lawful virtio_gpu_resource_unmap_blob_layout anything"
  unfolding virtio_gpu_resource_unmap_blob_layout_def by (rule lawful_struct_scalar, (rule layout_laws lawful_scalar_beside)+) auto

lemma virtio_gpu_resp_map_info_lawful [layout_laws, simp]: "lawful virtio_gpu_resp_map_info_layout virtio_gpu_resp_map_info_valid"
  unfolding virtio_gpu_resp_map_info_layout_def
  by (rule lawful_struct, (rule layout_laws lawful_beside)+) (auto simp: virtio_gpu_resp_map_info_valid_def)

lemma virtio_gpu_resource_assign_uuid_lawful [layout_laws, simp]: "lawful virtio_gpu_resource_assign_uuid_layout anything"
  unfolding virtio_gpu_resource_assign_uuid_layout_def by (rule lawful_struct_scalar, (rule layout_laws lawful_scalar_beside)+) auto

lemma virtio_gpu_resp_resource_uuid_lawful [layout_laws, simp]: "lawful virtio_gpu_resp_resource_uuid_layout virtio_gpu_resp_resource_uuid_valid"
  unfolding virtio_gpu_resp_resource_uuid_layout_def
  by (rule lawful_struct, (rule layout_laws lawful_beside)+) (auto simp: virtio_gpu_resp_resource_uuid_valid_def)

lemma virtio_gpu_set_scanout_blob_lawful [layout_laws, simp]: "lawful virtio_gpu_set_scanout_blob_layout virtio_gpu_set_scanout_blob_valid"
  unfolding virtio_gpu_set_scanout_blob_layout_def
  by (rule lawful_struct, (rule layout_laws lawful_beside)+) (auto simp: virtio_gpu_set_scanout_blob_valid_def)

text \<open>The sizes, \<^verbatim>\<open>size_of::<T>()\<close>; no structure has implicit padding.\<close>

interpretation ctrl_hdr: byte_valued virtio_gpu_ctrl_hdr_layout virtio_gpu_ctrl_hdr_valid
  by unfold_locales simp

interpretation config_space: byte_valued virtio_gpu_config_layout anything
  by unfold_locales simp

lemma layout_sizes [simp]:
  "csize virtio_gpu_config_layout = 16"
  "csize virtio_gpu_ctrl_hdr_layout = 24"
  "csize virtio_gpu_cursor_pos_layout = 16"
  "csize virtio_gpu_update_cursor_layout = 32"
  "csize virtio_gpu_rect_layout = 16"
  "csize virtio_gpu_get_edid_layout = 8"
  "csize virtio_gpu_resource_unref_layout = 8"
  "csize virtio_gpu_resource_create_2d_layout = 16"
  "csize virtio_gpu_set_scanout_layout = 24"
  "csize virtio_gpu_resource_flush_layout = 24"
  "csize virtio_gpu_transfer_to_host_2d_layout = 32"
  "csize virtio_gpu_mem_entry_layout = 16"
  "csize virtio_gpu_resource_attach_backing_layout = 8"
  "csize virtio_gpu_resource_detach_backing_layout = 8"
  "csize virtio_gpu_display_one_layout = 24"
  "csize virtio_gpu_resp_display_info_layout = 408"
  "csize virtio_gpu_resp_edid_layout = 1056"
  "csize virtio_gpu_box_layout = 24"
  "csize virtio_gpu_transfer_host_3d_layout = 48"
  "csize virtio_gpu_resource_create_3d_layout = 48"
  "csize virtio_gpu_ctx_create_layout = 72"
  "csize virtio_gpu_ctx_resource_layout = 8"
  "csize virtio_gpu_cmd_submit_layout = 8"
  "csize virtio_gpu_get_capset_info_layout = 8"
  "csize virtio_gpu_resp_capset_info_layout = 40"
  "csize virtio_gpu_get_capset_layout = 8"
  "csize virtio_gpu_resp_resource_plane_info_layout = 72"
  "csize virtio_gpu_resource_create_blob_layout = 32"
  "csize virtio_gpu_resource_map_blob_layout = 16"
  "csize virtio_gpu_resource_unmap_blob_layout = 8"
  "csize virtio_gpu_resp_map_info_layout = 32"
  "csize virtio_gpu_resource_assign_uuid_layout = 8"
  "csize virtio_gpu_resp_resource_uuid_layout = 40"
  "csize virtio_gpu_set_scanout_blob_layout = 72"
  by (simp_all add: virtio_gpu_config_layout_def virtio_gpu_ctrl_hdr_layout_def
      virtio_gpu_cursor_pos_layout_def virtio_gpu_update_cursor_layout_def
      virtio_gpu_rect_layout_def virtio_gpu_get_edid_layout_def
      virtio_gpu_resource_unref_layout_def virtio_gpu_resource_create_2d_layout_def
      virtio_gpu_set_scanout_layout_def virtio_gpu_resource_flush_layout_def
      virtio_gpu_transfer_to_host_2d_layout_def virtio_gpu_mem_entry_layout_def
      virtio_gpu_resource_attach_backing_layout_def
      virtio_gpu_resource_detach_backing_layout_def virtio_gpu_display_one_layout_def
      virtio_gpu_resp_display_info_layout_def virtio_gpu_resp_edid_layout_def
      virtio_gpu_box_layout_def virtio_gpu_transfer_host_3d_layout_def
      virtio_gpu_resource_create_3d_layout_def virtio_gpu_ctx_create_layout_def
      virtio_gpu_ctx_resource_layout_def virtio_gpu_cmd_submit_layout_def
      virtio_gpu_get_capset_info_layout_def virtio_gpu_resp_capset_info_layout_def
      virtio_gpu_get_capset_layout_def virtio_gpu_resp_resource_plane_info_layout_def
      virtio_gpu_resource_create_blob_layout_def virtio_gpu_resource_map_blob_layout_def
      virtio_gpu_resource_unmap_blob_layout_def virtio_gpu_resp_map_info_layout_def
      virtio_gpu_resource_assign_uuid_layout_def virtio_gpu_resp_resource_uuid_layout_def
      virtio_gpu_set_scanout_blob_layout_def)

end
