(* ===== verification/Event_Token.thy ===== *)
theory Event_Token
  imports Prelude
begin

text \<open>
  The tokens that travel through an epoll instance as a raw \<^verbatim>\<open>u64\<close>: the trait \<^verbatim>\<open>EventToken\<close>
  of \<^verbatim>\<open>event_manager/src/lib.rs\<close> with its implementations for the integer types, for \<^verbatim>\<open>()\<close> and
  (\<^verbatim>\<open>arbitrary_int_support.rs\<close>) for \<^verbatim>\<open>UInt<T, N>\<close>, and the derive macro of
  \<^verbatim>\<open>event_token_derive/src/lib.rs\<close>, which packs the index of an enum variant into the low bits
  and the payload of the variant above them. A Rust type that implements the trait is a value of
  \<open>token_ty\<close>; the macro is the \<open>EnumTy\<close> case of \<open>used_bits\<close>, \<open>as_raw_token\<close> and
  \<open>from_raw_token\<close>.
\<close>

section \<open>Number of bits of the variant index\<close>

text \<open>\<^verbatim>\<open>usize::next_power_of_two\<close> and \<^verbatim>\<open>trailing_zeros\<close> of the standard library.\<close>

function next_power_of_two_from :: "nat \<Rightarrow> nat \<Rightarrow> nat" where
  "next_power_of_two_from p n = (if p = 0 \<or> n \<le> p then p else next_power_of_two_from (2 * p) n)"
  by pat_completeness auto
termination
  by (relation "measure (\<lambda>(p, n). n - p)") auto

declare next_power_of_two_from.simps [simp del]

definition next_power_of_two :: "nat \<Rightarrow> nat" where
  "next_power_of_two n = next_power_of_two_from 1 n"

function trailing_zeros :: "nat \<Rightarrow> nat" where
  "trailing_zeros n = (if n = 0 then 64 else if odd n then 0 else Suc (trailing_zeros (n div 2)))"
  by pat_completeness auto
termination
  by (relation "measure id") auto

declare trailing_zeros.simps [simp del]

definition variant_bits :: "nat \<Rightarrow> nat" where
  "variant_bits num_variants =
     (if num_variants = 0 then 0 else trailing_zeros (next_power_of_two num_variants))"

section \<open>Types and values of tokens\<close>

text \<open>
  \<open>IntTy n\<close> is \<^verbatim>\<open>u8\<close>, \<^verbatim>\<open>u16\<close>, \<^verbatim>\<open>u32\<close>, \<^verbatim>\<open>u64\<close> or \<^verbatim>\<open>usize\<close> (\<open>n\<close> bits), \<open>UIntTy n\<close> is
  \<^verbatim>\<open>UInt<_, n>\<close>, \<open>EnumTy vs\<close> an enum with the derived trait: a variant is \<^const>\<open>None\<close> for a unit
  variant or \<^const>\<open>Some\<close> the type of its only field.
\<close>

datatype token_ty = IntTy nat | UIntTy nat | UnitTy | EnumTy "token_ty option list"

datatype token_val = IntV u64 | UnitV | VariantV nat "token_val option"

text \<open>The \<^verbatim>\<open>const fn maximum\<close> inside the generated constant.\<close>

fun maximum_from :: "nat \<Rightarrow> nat list \<Rightarrow> nat" where
  "maximum_from m [] = m"
| "maximum_from m (x # xs) = maximum_from (if x > m then x else m) xs"

text \<open>The constant \<^verbatim>\<open>USED_BITS\<close>; \<^const>\<open>None\<close> is the panic in the constant's evaluation, which
  makes the compilation fail (\<^verbatim>\<open>generate_used_bits_const\<close>).\<close>

fun used_bits :: "token_ty \<Rightarrow> nat option" where
  "used_bits (IntTy n) = Some n"
| "used_bits (UIntTy n) = Some n"
| "used_bits UnitTy = Some 0"
| "used_bits (EnumTy vs) =
     (let vb = variant_bits (length vs);
          max_allowed_bits = 64 - vb;
          fields = concat (map (\<lambda>v. case v of None \<Rightarrow> [] | Some t \<Rightarrow> [used_bits t]) vs)
      in if list_all (\<lambda>b. case b of None \<Rightarrow> False | Some k \<Rightarrow> k \<le> max_allowed_bits) fields
         then Some (maximum_from 0 (map the fields) + vb) else None)"

text \<open>\<^verbatim>\<open>as_raw_token\<close>: the match over the variants that \<^verbatim>\<open>generate_as_raw_token\<close> emits. Ill-typed
  arguments cannot occur in Rust; they are given the value 0 here.\<close>

fun as_raw_token :: "token_ty \<Rightarrow> token_val \<Rightarrow> u64" where
  "as_raw_token (IntTy n) (IntV w) = w"
| "as_raw_token (UIntTy n) (IntV w) = w"
| "as_raw_token UnitTy UnitV = 0"
| "as_raw_token (EnumTy vs) (VariantV i None) = of_nat i"
| "as_raw_token (EnumTy vs) (VariantV i (Some d)) =
     (if i < length vs
      then (case vs ! i of
              Some t \<Rightarrow> of_nat i OR push_bit (variant_bits (length vs)) (as_raw_token t d)
            | None \<Rightarrow> 0)
      else 0)"
| "as_raw_token _ _ = 0"

lemma size_field_lt: "Some t \<in> set vs \<Longrightarrow> size t < size (EnumTy vs)"
  by (induction vs) auto

text \<open>\<^verbatim>\<open>from_raw_token\<close>: the match on the masked index that \<^verbatim>\<open>generate_from_raw_token\<close> emits, with
  \<^verbatim>\<open>unreachable!()\<close> for an index of no variant; \<^verbatim>\<open>data as Self\<close> truncates; \<^verbatim>\<open>UInt::try_from\<close> fails
  on a value that does not fit and is unwrapped.\<close>

function from_raw_token :: "token_ty \<Rightarrow> u64 \<Rightarrow> (token_val, unit) rust" where
  "from_raw_token (IntTy n) data = Ok (IntV (take_bit n data))"
| "from_raw_token (UIntTy n) data = (if unat data < 2 ^ n then Ok (IntV data) else Panic)"
| "from_raw_token UnitTy data = Ok UnitV"
| "from_raw_token (EnumTy vs) data =
     (let vb = variant_bits (length vs);
          i = unat (data AND mask vb)
      in if i < length vs
         then (case vs ! i of
                 None \<Rightarrow> Ok (VariantV i None)
               | Some t \<Rightarrow> map_ok (\<lambda>d. VariantV i (Some d)) (from_raw_token t (drop_bit vb data)))
         else Panic)"
  by pat_completeness auto

termination
proof (relation "measure (\<lambda>(t, d). size t)", goal_cases)
  case (2 vs data vb i t)
  then have "Some t \<in> set vs" by (metis nth_mem)
  then show ?case by (auto dest: size_field_lt)
qed simp

text \<open>The values of a type.\<close>

fun has_ty :: "token_ty \<Rightarrow> token_val \<Rightarrow> bool" where
  "has_ty (IntTy n) (IntV w) = (n \<le> 64 \<and> unat w < 2 ^ n)"
| "has_ty (UIntTy n) (IntV w) = (n \<le> 64 \<and> unat w < 2 ^ n)"
| "has_ty UnitTy UnitV = True"
| "has_ty (EnumTy vs) (VariantV i None) = (i < length vs \<and> vs ! i = None)"
| "has_ty (EnumTy vs) (VariantV i (Some d)) =
     (i < length vs \<and> (case vs ! i of None \<Rightarrow> False | Some t \<Rightarrow> has_ty t d))"
| "has_ty _ _ = False"

text \<open>What the compiler and the macro require of a type: integers of at most 64 bits, and an enum
  whose mask \<^verbatim>\<open>(1 << variant_bits) - 1\<close> is computed without overflow in \<^verbatim>\<open>i32\<close>.\<close>

fun ty_ok :: "token_ty \<Rightarrow> bool" where
  "ty_ok (IntTy n) = (n \<le> 64)"
| "ty_ok (UIntTy n) = (n \<le> 64)"
| "ty_ok UnitTy = True"
| "ty_ok (EnumTy vs) =
     (length vs \<le> 2 ^ 30 \<and> list_all (\<lambda>v. case v of None \<Rightarrow> True | Some t \<Rightarrow> ty_ok t) vs)"

section \<open>The contract of a token type\<close>

text \<open>What \<^verbatim>\<open>WaitContext\<close>, that is \<^verbatim>\<open>EventManager\<close>, relies on: a valid token fits into the bits
  its type declares and comes back from its raw form.\<close>

locale event_token =
  fixes bits :: nat
    and to_raw :: "'t \<Rightarrow> u64"
    and of_raw :: "u64 \<Rightarrow> ('t, unit) rust"
    and valid :: "'t \<Rightarrow> bool"
  assumes bits_le: "bits \<le> 64"
    and raw_bound: "valid t \<Longrightarrow> unat (to_raw t) < 2 ^ bits"
    and raw_roundtrip: "valid t \<Longrightarrow> of_raw (to_raw t) = Ok t"
begin

lemma raw_inj: "valid t \<Longrightarrow> valid u \<Longrightarrow> to_raw t = to_raw u \<Longrightarrow> t = u"
  by (metis raw_roundtrip rust.inject(1))

lemma raw_list_roundtrip: "list_all valid ts \<Longrightarrow> map (\<lambda>t. of_raw (to_raw t)) ts = map Ok ts"
  by (induction ts) (auto simp: raw_roundtrip)

end

section \<open>Lemmas\<close>

lemma next_power_of_two_from_spec:
  "p = 2 ^ k \<Longrightarrow> (\<And>j. j < k \<Longrightarrow> 2 ^ j < n) \<Longrightarrow>
    \<exists>m. next_power_of_two_from p n = 2 ^ m \<and> n \<le> 2 ^ m \<and> (\<forall>j < m. 2 ^ j < n)"
proof (induction p n arbitrary: k rule: next_power_of_two_from.induct)
  case (1 p n)
  show ?case
  proof (cases "n \<le> p")
    case True
    with 1 show ?thesis
      by (subst next_power_of_two_from.simps) auto
  next
    case False
    have "2 * p = 2 ^ Suc k" using 1(2) by simp
    moreover have "2 ^ j < n" if "j < Suc k" for j
      using that False 1(2,3) by (cases "j = k") auto
    ultimately show ?thesis
      using 1(1) [of "Suc k"] False 1(2)
      by (subst next_power_of_two_from.simps) auto
  qed
qed

lemma trailing_zeros_power: "trailing_zeros (2 ^ m) = m"
  by (induction m) (subst trailing_zeros.simps; simp)+

lemma variant_bits_bounds:
  "n \<le> 2 ^ variant_bits n" "j < variant_bits n \<Longrightarrow> 2 ^ j < n"
proof -
  obtain m where m: "next_power_of_two n = 2 ^ m" "n \<le> 2 ^ m" "\<forall>j < m. 2 ^ j < n"
    using next_power_of_two_from_spec [of 1 0 n] by (auto simp: next_power_of_two_def)
  show "n \<le> 2 ^ variant_bits n"
    using m by (simp add: variant_bits_def trailing_zeros_power)
  show "2 ^ j < n" if "j < variant_bits n"
    using m that by (simp add: variant_bits_def trailing_zeros_power split: if_splits)
qed

lemma variant_bits_le: "n \<le> 2 ^ k \<Longrightarrow> variant_bits n \<le> k"
  by (meson leI le_trans not_less variant_bits_bounds(2))

lemma maximum_from_upper: "maximum_from m xs \<ge> m \<and> (\<forall>x \<in> set xs. x \<le> maximum_from m xs)"
proof (induction xs arbitrary: m)
  case (Cons x xs)
  from Cons.IH [of "if x > m then x else m"] show ?case by (auto split: if_splits)
qed simp

lemma maximum_from_least: "m \<le> b \<Longrightarrow> (\<forall>x \<in> set xs. x \<le> b) \<Longrightarrow> maximum_from m xs \<le> b"
  by (induction xs arbitrary: m) auto

lemma take_bit_self: "unat (w :: u64) < 2 ^ k \<Longrightarrow> take_bit k w = w"
  by (rule unsigned_word_eqI [where ?'a = nat]) (simp add: unsigned_take_bit_eq take_bit_nat_eq_self)

lemma unat_less_bit: "unat (w :: u64) < 2 ^ k \<Longrightarrow> bit w j \<Longrightarrow> j < k"
  by (metis bit_take_bit_iff take_bit_self)

lemma list_all_the:
  "list_all (\<lambda>b. case b of None \<Rightarrow> False | Some k \<Rightarrow> k \<le> m) bs \<Longrightarrow> \<forall>x \<in> set (map the bs). x \<le> (m :: nat)"
  by (induction bs) (auto split: option.splits)

lemma unat_less_if_bits: "(\<And>j. bit (w :: u64) j \<Longrightarrow> j < k) \<Longrightarrow> unat w < 2 ^ k"
proof -
  assume "\<And>j. bit w j \<Longrightarrow> j < k"
  then have "take_bit k w = w" by (intro bit_word_eqI) (auto simp: bit_simps)
  then have "take_bit k (unat w) = unat w" by (metis unsigned_take_bit_eq)
  then show ?thesis by (metis take_bit_nat_less_exp)
qed

text \<open>The arithmetic of packing an index below a payload.\<close>

lemma pack_bits:
  fixes i r :: u64
  assumes "unat i < 2 ^ vb" "unat r < 2 ^ k" "k + vb \<le> 64"
  shows "(i OR push_bit vb r) AND mask vb = i"
    and "drop_bit vb (i OR push_bit vb r) = r"
    and "unat (i OR push_bit vb r) < 2 ^ (k + vb)"
proof -
  have i: "bit i j \<Longrightarrow> j < vb" and r: "bit r j \<Longrightarrow> j < k" for j
    using assms unat_less_bit by blast+
  show "(i OR push_bit vb r) AND mask vb = i"
    by (rule bit_word_eqI) (auto simp: bit_simps dest: i)
  show "drop_bit vb (i OR push_bit vb r) = r"
    using assms(3) by (intro bit_word_eqI) (auto simp: bit_simps dest: i r)
  show "unat (i OR push_bit vb r) < 2 ^ (k + vb)"
    by (rule unat_less_if_bits) (auto simp: bit_simps dest: i r)
qed

lemma used_bits_field:
  assumes "used_bits (EnumTy vs) = Some n" "Some t \<in> set vs"
  obtains k where "used_bits t = Some k" "k + variant_bits (length vs) \<le> n" "k \<le> 64 - variant_bits (length vs)"
proof -
  let ?f = "concat (map (\<lambda>v. case v of None \<Rightarrow> [] | Some t \<Rightarrow> [used_bits t]) vs)"
  have mem: "used_bits t \<in> set ?f" using assms(2) by force
  with assms(1) obtain k where k: "used_bits t = Some k" "k \<le> 64 - variant_bits (length vs)"
    by (fastforce simp: Let_def list_all_iff split: if_splits option.splits)
  have "k \<in> set (map the ?f)" using mem k(1) by (metis (no_types, lifting) image_eqI list.set_map option.sel)
  then have "k \<le> maximum_from 0 (map the ?f)" using maximum_from_upper by blast
  then have "k + variant_bits (length vs) \<le> n"
    using assms(1) by (auto simp: Let_def split: if_splits)
  with k that show ?thesis by blast
qed

lemma used_bits_index: "used_bits (EnumTy vs) = Some n \<Longrightarrow> variant_bits (length vs) \<le> n"
  by (auto simp: Let_def split: if_splits)

lemma used_bits_le_64: "ty_ok ty \<Longrightarrow> used_bits ty = Some n \<Longrightarrow> n \<le> 64"
proof (cases ty)
  case (EnumTy vs)
  assume ok: "ty_ok ty" and u: "used_bits ty = Some n"
  let ?f = "concat (map (\<lambda>v. case v of None \<Rightarrow> [] | Some t \<Rightarrow> [used_bits t]) vs)"
  have "variant_bits (length vs) \<le> 30"
    using ok EnumTy variant_bits_le by simp
  moreover have "maximum_from 0 (map the ?f) \<le> 64 - variant_bits (length vs)"
    using u EnumTy
    by (intro maximum_from_least list_all_the) (auto simp: Let_def split: if_splits)
  ultimately show ?thesis
    using u EnumTy by (auto simp: Let_def split: if_splits)
qed auto

lemma of_nat_index:
  assumes "i < n" "n \<le> 2 ^ 30"
  shows "unat (of_nat i :: u64) = i" "i < 2 ^ variant_bits n"
  using assms variant_bits_bounds(1) [of n]
  by (auto simp: unat_of_nat take_bit_nat_eq_self_iff)

lemma token_pack_unpack:
  "ty_ok ty \<Longrightarrow> used_bits ty = Some n \<Longrightarrow> has_ty ty v \<Longrightarrow>
    unat (as_raw_token ty v) < 2 ^ n \<and> from_raw_token ty (as_raw_token ty v) = Ok v"
proof (induction ty v arbitrary: n rule: as_raw_token.induct)
  case (1 m w)
  then show ?case by (auto intro: take_bit_self)
next
  case (4 vs i)
  have i: "unat (of_nat i :: u64) = i" "i < 2 ^ variant_bits (length vs)"
    using 4 of_nat_index [of i "length vs"] by auto
  then have "unat (of_nat i :: u64) < 2 ^ n"
    using used_bits_index [OF 4(2)]
    by (metis less_le_trans one_le_numeral power_increasing)
  moreover have "(of_nat i :: u64) AND mask (variant_bits (length vs)) = of_nat i"
    using pack_bits(1) [of "of_nat i" "variant_bits (length vs)" 0 0] i variant_bits_le [of "length vs" 30] 4(1)
    by simp
  ultimately show ?case using 4 i by (simp add: Let_def)
next
  case (5 vs i d)
  let ?vb = "variant_bits (length vs)"
  obtain t where t: "i < length vs" "vs ! i = Some t" "has_ty t d"
    using 5(4) by (auto split: option.splits)
  have mem: "Some t \<in> set vs" using t by (metis nth_mem)
  obtain k where k: "used_bits t = Some k" "k + ?vb \<le> n" "k \<le> 64 - ?vb"
    using used_bits_field [OF 5(3) mem] by blast
  have "ty_ok t" using 5(2) mem by (auto simp: list_all_iff)
  then have IH: "unat (as_raw_token t d) < 2 ^ k" "from_raw_token t (as_raw_token t d) = Ok d"
    using 5(1) [OF t(1,2)] k(1) t(3) by auto
  have vb: "?vb \<le> 30" using 5(2) variant_bits_le by simp
  have i: "unat (of_nat i :: u64) = i" "i < 2 ^ ?vb"
    using 5(2) t(1) of_nat_index [of i "length vs"] by auto
  have kv: "k + ?vb \<le> 64" using k(3) vb by simp
  note pack = pack_bits [of "of_nat i" ?vb "as_raw_token t d" k, OF _ IH(1) kv]
  have "unat (as_raw_token (EnumTy vs) (VariantV i (Some d))) < 2 ^ (k + ?vb)"
    using pack(3) i t by simp
  also have "\<dots> \<le> 2 ^ n" using k(2) by simp
  finally show ?case using pack(1,2) i t IH(2) by (simp add: Let_def)
qed auto

lemma from_raw_no_Err: "from_raw_token ty data \<noteq> Err e"
  by (induction ty data rule: from_raw_token.induct) (auto simp: Let_def map_ok_def split: option.split rust.split)

lemma from_raw_typed: "ty_ok ty \<Longrightarrow> from_raw_token ty data = Ok v \<Longrightarrow> has_ty ty v"
proof (induction ty data arbitrary: v rule: from_raw_token.induct)
  case (1 n data)
  then show ?case by (auto simp: unsigned_take_bit_eq)
next
  case (4 vs data)
  define i where "i = unat (data AND mask (variant_bits (length vs)))"
  from 4(3) have i: "i < length vs" by (auto simp: i_def Let_def split: if_splits)
  show ?case
  proof (cases "vs ! i")
    case None
    with 4(3) i show ?thesis by (auto simp: i_def Let_def)
  next
    case (Some t)
    with 4(3) i obtain d where d: "from_raw_token t (drop_bit (variant_bits (length vs)) data) = Ok d" "v = VariantV i (Some d)"
      by (auto simp: i_def Let_def map_ok_eq_Ok)
    have "ty_ok t" using 4(2) i Some by (auto simp: list_all_length)
    with 4(1) [OF refl i_def _ Some] d i Some show ?thesis by simp
  qed
qed (auto split: if_splits)

section \<open>Properties\<close>

text \<open>C23: a token of an accepted type uses at most the bits its type declares, and decoding its raw form
  gives the token back; this holds for nested enums and all integer widths.\<close>

theorem token_roundtrip:
  assumes "ty_ok ty" "used_bits ty = Some n" "has_ty ty v"
  shows "unat (as_raw_token ty v) < 2 ^ n \<and> from_raw_token ty (as_raw_token ty v) = Ok v"
  using assms by (rule token_pack_unpack)

lemma variant_bits_2: "variant_bits 2 = 1"
proof -
  have "next_power_of_two_from 1 2 = 2"
    by (subst next_power_of_two_from.simps, simp, subst next_power_of_two_from.simps, simp)
  then show ?thesis
    using trailing_zeros_power [of 1] by (simp add: variant_bits_def next_power_of_two_def)
qed

theorem token_roundtrip_witness:
  "unat (as_raw_token (EnumTy [None, Some (IntTy 32)]) (VariantV 1 (Some (IntV 7)))) < 2 ^ 33 \<and>
   from_raw_token (EnumTy [None, Some (IntTy 32)]) (as_raw_token (EnumTy [None, Some (IntTy 32)]) (VariantV 1 (Some (IntV 7))))
     = Ok (VariantV 1 (Some (IntV 7)))"
proof (rule token_roundtrip)
  have "variant_bits (Suc (Suc 0)) = 1" using variant_bits_2 by (simp add: eval_nat_numeral)
  then show "used_bits (EnumTy [None, Some (IntTy 32)]) = Some 33" by (simp add: Let_def)
qed simp_all



text \<open>The macro gives a variant index the least number of bits that can hold every index.\<close>

lemma variant_bits_least: "variant_bits n = (LEAST k. n \<le> 2 ^ k)"
  by (rule Least_equality [symmetric]) (simp_all add: variant_bits_bounds variant_bits_le)

end
