(* ===== verification/Event_Manager.thy ===== *)
theory Event_Manager
  imports Event_Token
begin

text \<open>
  The wrapper around an epoll instance, \<^verbatim>\<open>event_manager/src/lib.rs\<close>: registration of event
  sources under a token, and the two waiting loops that turn what the kernel reports into
  \<^verbatim>\<open>TriggeredEvent\<close>s. The kernel is a parameter: \<open>ctl\<close> is \<^verbatim>\<open>epoll_ctl\<close> on the state \<open>'ep\<close> of an
  instance, and the answers of \<^verbatim>\<open>epoll_wait\<close> are a list of results. \<open>epoll_contract\<close> states the
  documented behaviour of \<^verbatim>\<open>epoll_ctl\<close> that the clients rely on.
\<close>

section \<open>The kernel side\<close>

datatype io_error = WouldBlock | Interrupted | NotFound | AlreadyExists | InvalidData | Unsupported | OtherIo nat

datatype control_op = CtlAdd | CtlModify | CtlDelete

text \<open>An \<^verbatim>\<open>EpollEvent\<close>: the event mask and the user data.\<close>

type_synonym epoll_event = "u32 \<times> u64"

type_synonym 'ep epoll_ctl = "control_op \<Rightarrow> nat \<Rightarrow> epoll_event \<Rightarrow> 'ep \<Rightarrow> (unit, io_error) rust \<times> 'ep"

text \<open>The bits of \<^verbatim>\<open>EventSet\<close> (crate \<^verbatim>\<open>vmm_sys_util\<close>).\<close>

record event_bits =
  ev_in :: u32
  ev_out :: u32
  ev_hang_up :: u32
  ev_read_hang_up :: u32
  ev_all :: u32

definition from_bits_truncate :: "event_bits \<Rightarrow> u32 \<Rightarrow> u32" where
  "from_bits_truncate eb bits = bits AND ev_all eb"

definition contains :: "u32 \<Rightarrow> u32 \<Rightarrow> bool" where
  "contains s flag = (s AND flag = flag)"

text \<open>What \<^verbatim>\<open>epoll_ctl(2)\<close> documents, for descriptors that can be polled: an instance holds at most
  one registration per descriptor; adding a registered descriptor fails with \<^verbatim>\<open>EEXIST\<close>, deleting or
  modifying an unregistered one with \<^verbatim>\<open>ENOENT\<close>, and a failing call changes nothing. \<open>regs\<close> reads
  the registrations of an instance.\<close>

definition epoll_contract :: "'ep epoll_ctl \<Rightarrow> ('ep \<Rightarrow> nat \<Rightarrow> epoll_event option) \<Rightarrow> bool" where
  "epoll_contract ctl regs \<longleftrightarrow>
     (\<forall>fd ev ep. regs ep fd = None \<longrightarrow>
        fst (ctl CtlAdd fd ev ep) = Ok () \<and> regs (snd (ctl CtlAdd fd ev ep)) = (regs ep)(fd \<mapsto> ev)) \<and>
     (\<forall>fd ev ep. regs ep fd \<noteq> None \<longrightarrow>
        fst (ctl CtlAdd fd ev ep) = Err AlreadyExists \<and> regs (snd (ctl CtlAdd fd ev ep)) = regs ep) \<and>
     (\<forall>fd ev ep. regs ep fd \<noteq> None \<longrightarrow>
        fst (ctl CtlModify fd ev ep) = Ok () \<and> regs (snd (ctl CtlModify fd ev ep)) = (regs ep)(fd \<mapsto> ev)) \<and>
     (\<forall>fd ev ep. regs ep fd = None \<longrightarrow>
        fst (ctl CtlModify fd ev ep) = Err NotFound \<and> regs (snd (ctl CtlModify fd ev ep)) = regs ep) \<and>
     (\<forall>fd ev ep. regs ep fd \<noteq> None \<longrightarrow>
        fst (ctl CtlDelete fd ev ep) = Ok () \<and> regs (snd (ctl CtlDelete fd ev ep)) = (regs ep)(fd := None)) \<and>
     (\<forall>fd ev ep. regs ep fd = None \<longrightarrow>
        fst (ctl CtlDelete fd ev ep) = Err NotFound \<and> regs (snd (ctl CtlDelete fd ev ep)) = regs ep)"

text \<open>An instance that keeps its registrations in a map, for the concrete runs.\<close>

fun map_ctl :: "(nat \<Rightarrow> epoll_event option) epoll_ctl" where
  "map_ctl CtlAdd fd ev ep = (if ep fd = None then (Ok (), ep(fd \<mapsto> ev)) else (Err AlreadyExists, ep))"
| "map_ctl CtlModify fd ev ep = (if ep fd = None then (Err NotFound, ep) else (Ok (), ep(fd \<mapsto> ev)))"
| "map_ctl CtlDelete fd ev ep = (if ep fd = None then (Err NotFound, ep) else (Ok (), ep(fd := None)))"

section \<open>Event sources and the manager\<close>

text \<open>\<^verbatim>\<open>impl EventSource for EventFd\<close>.\<close>

definition eventfd_register_self ::
  "'ep epoll_ctl \<Rightarrow> event_bits \<Rightarrow> nat \<Rightarrow> u64 \<Rightarrow> ('ep, unit, io_error) rust_method" where
  "eventfd_register_self ctl eb fd token = ctl CtlAdd fd (ev_in eb, token)"

definition eventfd_unregister_self :: "'ep epoll_ctl \<Rightarrow> nat \<Rightarrow> ('ep, unit, io_error) rust_method" where
  "eventfd_unregister_self ctl fd = ctl CtlDelete fd (0, 0)"

text \<open>\<^verbatim>\<open>EventManager::add\<close> and \<^verbatim>\<open>remove\<close> delegate to the source with the raw token; \<^verbatim>\<open>add_fd\<close>,
  \<^verbatim>\<open>modify_fd\<close> and \<^verbatim>\<open>delete_fd\<close> talk to the instance themselves.\<close>

definition em_add ::
  "('t \<Rightarrow> u64) \<Rightarrow> (u64 \<Rightarrow> ('ep, unit, io_error) rust_method) \<Rightarrow> 't \<Rightarrow> ('ep, unit, io_error) rust_method" where
  "em_add to_raw register_self token = register_self (to_raw token)"

definition em_remove :: "('ep, unit, io_error) rust_method \<Rightarrow> ('ep, unit, io_error) rust_method" where
  "em_remove unregister_self = unregister_self"

definition add_fd ::
  "'ep epoll_ctl \<Rightarrow> ('t \<Rightarrow> u64) \<Rightarrow> nat \<Rightarrow> u32 \<Rightarrow> 't \<Rightarrow> ('ep, unit, io_error) rust_method" where
  "add_fd ctl to_raw fd event_set token = ctl CtlAdd fd (event_set, to_raw token)"

definition modify_fd ::
  "'ep epoll_ctl \<Rightarrow> ('t \<Rightarrow> u64) \<Rightarrow> nat \<Rightarrow> u32 \<Rightarrow> 't \<Rightarrow> ('ep, unit, io_error) rust_method" where
  "modify_fd ctl to_raw fd event_type token = ctl CtlModify fd (event_type, to_raw token)"

definition delete_fd :: "'ep epoll_ctl \<Rightarrow> nat \<Rightarrow> ('ep, unit, io_error) rust_method" where
  "delete_fd ctl fd = ctl CtlDelete fd (0, 0)"

section \<open>Waiting\<close>

record 't triggered_event =
  te_token :: 't
  te_readable :: bool
  te_writable :: bool
  te_hungup :: bool

definition to_triggered ::
  "event_bits \<Rightarrow> (u64 \<Rightarrow> ('t, unit) rust) \<Rightarrow> epoll_event \<Rightarrow> ('t triggered_event, io_error) rust" where
  "to_triggered eb of_raw e =
     (let event_set = from_bits_truncate eb (fst e)
      in and_then (unwrap (of_raw (snd e))) (\<lambda>t.
           Ok \<lparr>te_token = t,
               te_readable = contains event_set (ev_in eb),
               te_writable = contains event_set (ev_out eb),
               te_hungup = contains event_set (ev_hang_up eb) \<or> contains event_set (ev_read_hang_up eb)\<rparr>))"

text \<open>The \<^verbatim>\<open>map ... collect\<close> over the reported events.\<close>

fun collect_triggered ::
  "event_bits \<Rightarrow> (u64 \<Rightarrow> ('t, unit) rust) \<Rightarrow> epoll_event list \<Rightarrow> ('t triggered_event list, io_error) rust" where
  "collect_triggered eb of_raw [] = Ok []"
| "collect_triggered eb of_raw (e # es) =
     and_then (to_triggered eb of_raw e) (\<lambda>t.
       and_then (collect_triggered eb of_raw es) (\<lambda>ts. Ok (t # ts)))"

text \<open>The retry loop around \<^verbatim>\<open>epoll_wait\<close>: the argument lists the kernel's successive answers; the
  loop goes on while the call is interrupted, and \<^const>\<open>None\<close> is a call that has not returned yet.\<close>

fun wait_loop :: "(io_error + epoll_event list) list \<Rightarrow> (epoll_event list, io_error) rust option" where
  "wait_loop [] = None"
| "wait_loop (Inr evs # rs) = Some (Ok evs)"
| "wait_loop (Inl e # rs) = (if e = Interrupted then wait_loop rs else Some (Err e))"

text \<open>The timeout handed to the kernel: -1 without one, else the milliseconds, capped.\<close>

definition timeout_millis :: "nat option \<Rightarrow> int" where
  "timeout_millis t = (case t of None \<Rightarrow> -1 | Some ms \<Rightarrow> if ms \<le> 2147483647 then int ms else 2147483647)"

text \<open>\<^verbatim>\<open>wait_timeout\<close>: the slice \<^verbatim>\<open>epoll_events[0..event_count]\<close> of the array of 16.\<close>

definition wait_timeout ::
  "event_bits \<Rightarrow> (u64 \<Rightarrow> ('t, unit) rust) \<Rightarrow> (int \<Rightarrow> nat \<Rightarrow> (io_error + epoll_event list) list) \<Rightarrow> nat option
    \<Rightarrow> ('t triggered_event list, io_error) rust option" where
  "wait_timeout eb of_raw epoll_wait timeout =
     map_option (\<lambda>r. and_then r (\<lambda>evs.
        if length evs \<le> 16 then collect_triggered eb of_raw evs else Panic))
      (wait_loop (epoll_wait (timeout_millis timeout) 16))"

definition em_wait ::
  "event_bits \<Rightarrow> (u64 \<Rightarrow> ('t, unit) rust) \<Rightarrow> (int \<Rightarrow> nat \<Rightarrow> (io_error + epoll_event list) list)
    \<Rightarrow> ('t triggered_event list, io_error) rust option" where
  "em_wait eb of_raw epoll_wait = wait_timeout eb of_raw epoll_wait None"

text \<open>\<^verbatim>\<open>wait_one\<close> asserts that exactly one event was reported.\<close>

definition wait_one ::
  "event_bits \<Rightarrow> (u64 \<Rightarrow> ('t, unit) rust) \<Rightarrow> (int \<Rightarrow> nat \<Rightarrow> (io_error + epoll_event list) list)
    \<Rightarrow> ('t triggered_event, io_error) rust option" where
  "wait_one eb of_raw epoll_wait =
     map_option (\<lambda>r. and_then r (\<lambda>evs.
        if length evs = 1 then to_triggered eb of_raw (hd evs) else Panic))
      (wait_loop (epoll_wait (- 1) 1))"

section \<open>Lemmas\<close>

lemma epoll_contract_map_ctl: "epoll_contract map_ctl (\<lambda>ep. ep)"
  by (auto simp: epoll_contract_def)

lemma epoll_add_fresh:
  assumes "epoll_contract ctl regs" "regs ep fd = None"
  shows "fst (ctl CtlAdd fd ev ep) = Ok ()" "regs (snd (ctl CtlAdd fd ev ep)) = (regs ep)(fd \<mapsto> ev)"
  using assms by (simp_all add: epoll_contract_def del: split_paired_All split_paired_Ex)

lemma epoll_add_dup:
  assumes "epoll_contract ctl regs" "regs ep fd \<noteq> None"
  shows "fst (ctl CtlAdd fd ev ep) = Err AlreadyExists" "regs (snd (ctl CtlAdd fd ev ep)) = regs ep"
  using assms by (simp_all add: epoll_contract_def del: split_paired_All split_paired_Ex)

lemma epoll_delete_present:
  assumes "epoll_contract ctl regs" "regs ep fd \<noteq> None"
  shows "fst (ctl CtlDelete fd ev ep) = Ok ()" "regs (snd (ctl CtlDelete fd ev ep)) = (regs ep)(fd := None)"
  using assms by (simp_all add: epoll_contract_def del: split_paired_All split_paired_Ex)

lemma epoll_delete_absent:
  assumes "epoll_contract ctl regs" "regs ep fd = None"
  shows "fst (ctl CtlDelete fd ev ep) = Err NotFound" "regs (snd (ctl CtlDelete fd ev ep)) = regs ep"
  using assms by (simp_all add: epoll_contract_def del: split_paired_All split_paired_Ex)

lemmas epoll_laws = epoll_add_fresh epoll_add_dup epoll_delete_present epoll_delete_absent

lemma wait_loop_interrupted:
  "wait_loop (replicate k (Inl Interrupted) @ rs) = wait_loop rs"
  by (induction k) auto

lemma wait_loop_first_answer:
  "e \<noteq> Interrupted \<Longrightarrow> wait_loop (replicate k (Inl Interrupted) @ Inl e # rs) = Some (Err e)"
  "wait_loop (replicate k (Inl Interrupted) @ Inr evs # rs) = Some (Ok evs)"
  by (simp_all add: wait_loop_interrupted)

text \<open>Inside the contract of a token type, waiting cannot fail on registered tokens.\<close>

context event_token
begin

lemma to_triggered_token:
  "valid t \<Longrightarrow> \<exists>r w h. to_triggered eb of_raw (m, to_raw t) = Ok \<lparr>te_token = t, te_readable = r, te_writable = w, te_hungup = h\<rparr>"
  by (simp add: to_triggered_def Let_def raw_roundtrip)

lemma collect_triggered_tokens:
  "list_all (valid \<circ> snd) es \<Longrightarrow>
    \<exists>evs. collect_triggered eb of_raw (map (\<lambda>e. (fst e, to_raw (snd e))) es) = Ok evs \<and> map te_token evs = map snd es"
proof (induction es)
  case (Cons e es)
  then obtain evs where "collect_triggered eb of_raw (map (\<lambda>e. (fst e, to_raw (snd e))) es) = Ok evs"
    "map te_token evs = map snd es" by auto
  with Cons.prems to_triggered_token [of "snd e" eb "fst e"] show ?case
    by auto
qed simp

lemma wait_returns_registered:
  assumes "list_all (valid \<circ> snd) es" "length es \<le> 16"
    and "epoll_wait (timeout_millis timeout) 16 =
         replicate k (Inl Interrupted) @ Inr (map (\<lambda>e. (fst e, to_raw (snd e))) es) # rest"
  shows "\<exists>evs. wait_timeout eb of_raw epoll_wait timeout = Some (Ok evs) \<and> map te_token evs = map snd es"
  using collect_triggered_tokens [OF assms(1), of eb] assms(2,3)
  by (auto simp: wait_timeout_def wait_loop_first_answer)

end

lemma derived_event_token:
  assumes "ty_ok ty" "used_bits ty = Some n"
  shows "event_token n (as_raw_token ty) (from_raw_token ty) (has_ty ty)"
  using assms used_bits_le_64 token_pack_unpack by unfold_locales blast+

section \<open>Properties\<close>

text \<open>However often the wait is interrupted, it returns the tokens the kernel then reports, in order;
  raw tokens of an accepted token type never fail to decode.\<close>

lemma wait_delivers_tokens:
  assumes "ty_ok ty" "used_bits ty = Some n" "list_all (\<lambda>e. has_ty ty (snd e)) es" "length es \<le> 16"
    and "epoll_wait (timeout_millis timeout) 16 =
         replicate k (Inl Interrupted) @ Inr (map (\<lambda>e. (fst e, as_raw_token ty (snd e))) es) # rest"
  shows "\<exists>evs. wait_timeout eb (from_raw_token ty) epoll_wait timeout = Some (Ok evs) \<and> map te_token evs = map snd es"
  using event_token.wait_returns_registered [OF derived_event_token [OF assms(1,2)], of es epoll_wait timeout k rest eb]
    assms(3-5) by (simp add: o_def)

lemma wait_delivers_tokens_witness:
  "\<exists>evs. wait_timeout \<lparr>ev_in = 1, ev_out = 4, ev_hang_up = 16, ev_read_hang_up = 0x2000, ev_all = 0x2015\<rparr>
      (from_raw_token (IntTy 32))
      (\<lambda>_ _. [Inl Interrupted, Inr [(1, as_raw_token (IntTy 32) (IntV 5))]]) (Some 10) = Some (Ok evs) \<and>
    map te_token evs = [IntV 5]"
  using wait_delivers_tokens [of "IntTy 32" 32 "[(1, IntV 5)]"
      "\<lambda>_ _. [Inl Interrupted, Inr [(1, as_raw_token (IntTy 32) (IntV 5))]]" "Some 10" 1 "[]"]
  by simp

end
