(* ===== verification/Device_Queue.thy ===== *)
theory Device_Queue
  imports Byte_Valued Event_Manager
begin

text \<open>
  What the workers of both devices see of a virtio queue, the crate \<^verbatim>\<open>virtio_queue\<close>: the guard of
  \<^verbatim>\<open>DeviceQueue::try_lock_queue\<close>, from which descriptor chains are popped and to which used elements are
  added, and the \<^verbatim>\<open>Reader\<close> and \<^verbatim>\<open>Writer\<close> over a chain. They are records of operations, each with the
  documented behaviour as a contract and an instance over lists for concrete runs.
\<close>

section \<open>Readers\<close>

text \<open>\<^verbatim>\<open>read_exact\<close> of the given number of bytes.\<close>

type_synonym 'r reader = "nat \<Rightarrow> ('r, u8 list, io_error) rust_method"

definition reader_contract :: "'r reader \<Rightarrow> ('r \<Rightarrow> u8 list) \<Rightarrow> bool" where
  "reader_contract rd left \<longleftrightarrow>
     (\<forall>n r. n \<le> length (left r) \<longrightarrow>
        fst (rd n r) = Ok (take n (left r)) \<and> left (snd (rd n r)) = drop n (left r)) \<and>
     (\<forall>n r. length (left r) < n \<longrightarrow> (\<exists>e. fst (rd n r) = Err e))"

definition list_reader :: "u8 list reader" where
  "list_reader n bs = (if n \<le> length bs then (Ok (take n bs), drop n bs) else (Err (OtherIo 0), bs))"

lemma reader_contract_list_reader: "reader_contract list_reader (\<lambda>bs. bs)"
  by (auto simp: reader_contract_def list_reader_def)

section \<open>Writers\<close>

text \<open>\<^verbatim>\<open>write_obj\<close> writes all bytes or fails, \<^verbatim>\<open>write\<close> may write fewer and tells how many.\<close>

record 'w writer_ops =
  w_write_obj :: "u8 list \<Rightarrow> ('w, unit, io_error) rust_method"
  w_write :: "u8 list \<Rightarrow> ('w, nat, io_error) rust_method"
  w_available :: "'w \<Rightarrow> nat"

definition writer_contract :: "'w writer_ops \<Rightarrow> ('w \<Rightarrow> u8 list) \<Rightarrow> bool" where
  "writer_contract wo written \<longleftrightarrow>
     (\<forall>bs w. length bs \<le> w_available wo w \<longrightarrow>
        fst (w_write_obj wo bs w) = Ok () \<and> written (snd (w_write_obj wo bs w)) = written w @ bs \<and>
        w_available wo (snd (w_write_obj wo bs w)) = w_available wo w - length bs) \<and>
     (\<forall>bs w. w_available wo w < length bs \<longrightarrow> (\<exists>e. fst (w_write_obj wo bs w) = Err e)) \<and>
     (\<forall>bs w. fst (w_write wo bs w) = Ok (min (length bs) (w_available wo w)) \<and>
        written (snd (w_write wo bs w)) = written w @ take (w_available wo w) bs)"

text \<open>The instance the witnesses use: the bytes written so far and the room that is left.\<close>

definition list_writer :: "(u8 list \<times> nat) writer_ops" where
  "list_writer = \<lparr>
     w_write_obj = (\<lambda>bs (out, room). if length bs \<le> room then (Ok (), (out @ bs, room - length bs)) else (Err (OtherIo 0), (out, room))),
     w_write = (\<lambda>bs (out, room). (Ok (min (length bs) room), (out @ take room bs, room - length bs))),
     w_available = snd\<rparr>"

lemma writer_contract_list_writer: "writer_contract list_writer fst"
  by (auto simp: writer_contract_def list_writer_def)

section \<open>Queues\<close>

text \<open>A popped chain carries its head index and what making a reader and a writer for it gives.\<close>

record ('rd, 'w) desc_chain =
  ch_head_index :: u16
  ch_reader :: "('rd, nat) rust"
  ch_writer :: "('w, nat) rust"

record ('q, 'rd, 'w) worker_queue_ops =
  wq_pop :: "'q \<Rightarrow> ('rd, 'w) desc_chain option \<times> 'q"
  wq_add_used :: "u16 \<Rightarrow> u32 \<Rightarrow> ('q, unit, nat) rust_method"
  wq_event_idx_enabled :: "'q \<Rightarrow> bool"
  wq_disable_notification :: "('q, unit, nat) rust_method"
  wq_enable_notification :: "('q, bool, nat) rust_method"

text \<open>\<open>pending\<close> are the chains that wait in the available ring, \<open>used\<close> the elements of the used ring.\<close>

definition worker_queue_contract ::
  "('q, 'rd, 'w) worker_queue_ops \<Rightarrow> ('q \<Rightarrow> ('rd, 'w) desc_chain list) \<Rightarrow> ('q \<Rightarrow> (u16 \<times> u32) list) \<Rightarrow> bool" where
  "worker_queue_contract qo pending used \<longleftrightarrow>
     (\<forall>q. pending q = [] \<longrightarrow> fst (wq_pop qo q) = None \<and> used (snd (wq_pop qo q)) = used q) \<and>
     (\<forall>q c cs. pending q = c # cs \<longrightarrow>
        fst (wq_pop qo q) = Some c \<and> pending (snd (wq_pop qo q)) = cs \<and> used (snd (wq_pop qo q)) = used q) \<and>
     (\<forall>h n q. fst (wq_add_used qo h n q) = Ok () \<longrightarrow>
        used (snd (wq_add_used qo h n q)) = used q @ [(h, n)] \<and> pending (snd (wq_add_used qo h n q)) = pending q) \<and>
     (\<forall>h n q. fst (wq_add_used qo h n q) \<noteq> Panic)"

text \<open>A queue that is a list of chains and a list of used elements.\<close>

definition list_queue :: "(('rd, 'w) desc_chain list \<times> (u16 \<times> u32) list, 'rd, 'w) worker_queue_ops" where
  "list_queue = \<lparr>wq_pop = (\<lambda>(cs, us). case cs of [] \<Rightarrow> (None, ([], us)) | c # cs' \<Rightarrow> (Some c, (cs', us))),
     wq_add_used = (\<lambda>h n (cs, us). (Ok (), (cs, us @ [(h, n)]))), wq_event_idx_enabled = (\<lambda>_. False),
     wq_disable_notification = (\<lambda>q. (Ok (), q)), wq_enable_notification = (\<lambda>q. (Ok False, q))\<rparr>"

lemma list_queue_contract: "worker_queue_contract list_queue fst snd"
  by (auto simp: worker_queue_contract_def list_queue_def)

end
