(* ===== verification/Gpu_Protocol.thy ===== *)
theory Gpu_Protocol
  imports Gpu_Layout Device_Queue
begin

text \<open>
  Commands and responses of the virtio-gpu device, \<^verbatim>\<open>virtio-gpu/src/protocol.rs\<close>: the enums
  \<^verbatim>\<open>GpuCommand\<close> and \<^verbatim>\<open>GpuResponse\<close>, \<^verbatim>\<open>GpuCommand::decode\<close> and \<^verbatim>\<open>GpuResponse::encode\<close>. The numbers
  of the control types come from the crate \<^verbatim>\<open>virtio_bindings\<close> and are the parameter \<open>ct\<close>; the
  \<^verbatim>\<open>Reader\<close> and the \<^verbatim>\<open>Writer\<close> over a descriptor chain come from \<^verbatim>\<open>virtio_queue\<close> and are the
  parameters \<open>rd\<close> and \<open>wo\<close>, with \<open>reader_contract\<close> and \<open>writer_contract\<close> for their documented
  behaviour. \<open>command_bytes\<close> is the wire format that a driver produces; the source has no encoder for it.
\<close>

section \<open>Control types\<close>

datatype ctrl_type =
    CMD_GET_DISPLAY_INFO
  | CMD_GET_EDID
  | CMD_RESOURCE_CREATE_2D
  | CMD_RESOURCE_UNREF
  | CMD_SET_SCANOUT
  | CMD_SET_SCANOUT_BLOB
  | CMD_RESOURCE_FLUSH
  | CMD_TRANSFER_TO_HOST_2D
  | CMD_RESOURCE_ATTACH_BACKING
  | CMD_RESOURCE_DETACH_BACKING
  | CMD_GET_CAPSET_INFO
  | CMD_GET_CAPSET
  | CMD_CTX_CREATE
  | CMD_CTX_DESTROY
  | CMD_CTX_ATTACH_RESOURCE
  | CMD_CTX_DETACH_RESOURCE
  | CMD_RESOURCE_CREATE_3D
  | CMD_TRANSFER_TO_HOST_3D
  | CMD_TRANSFER_FROM_HOST_3D
  | CMD_SUBMIT_3D
  | CMD_RESOURCE_CREATE_BLOB
  | CMD_RESOURCE_MAP_BLOB
  | CMD_RESOURCE_UNMAP_BLOB
  | CMD_UPDATE_CURSOR
  | CMD_MOVE_CURSOR
  | CMD_RESOURCE_ASSIGN_UUID
  | RESP_OK_NODATA
  | RESP_OK_DISPLAY_INFO
  | RESP_OK_CAPSET_INFO
  | RESP_OK_CAPSET
  | RESP_OK_EDID
  | RESP_OK_RESOURCE_UUID
  | RESP_OK_MAP_INFO
  | RESP_ERR_UNSPEC
  | RESP_ERR_OUT_OF_MEMORY
  | RESP_ERR_INVALID_SCANOUT_ID
  | RESP_ERR_INVALID_RESOURCE_ID
  | RESP_ERR_INVALID_CONTEXT_ID
  | RESP_ERR_INVALID_PARAMETER

definition VIRTIO_GPU_RESP_OK_RESOURCE_PLANE_INFO :: u32 where
  "VIRTIO_GPU_RESP_OK_RESOURCE_PLANE_INFO = 0x11FF"

definition VIRTIO_GPU_MAX_SCANOUTS :: u32 where
  "VIRTIO_GPU_MAX_SCANOUTS = 16"

definition VIRTIO_GPU_FLAG_FENCE :: u32 where
  "VIRTIO_GPU_FLAG_FENCE = push_bit 0 1"

definition VIRTIO_GPU_FLAG_INFO_RING_IDX :: u32 where
  "VIRTIO_GPU_FLAG_INFO_RING_IDX = push_bit 1 1"

definition EDID_BLOB_MAX_SIZE :: nat where
  "EDID_BLOB_MAX_SIZE = 1024"

definition PLANE_INFO_MAX_COUNT :: nat where
  "PLANE_INFO_MAX_COUNT = 4"

text \<open>The values of the virtio specification, the instance the witnesses use.\<close>

fun spec_ctrl_type :: "ctrl_type \<Rightarrow> u32" where
  "spec_ctrl_type CMD_GET_DISPLAY_INFO = 0x0100"
| "spec_ctrl_type CMD_GET_EDID = 0x010A"
| "spec_ctrl_type CMD_RESOURCE_CREATE_2D = 0x0101"
| "spec_ctrl_type CMD_RESOURCE_UNREF = 0x0102"
| "spec_ctrl_type CMD_SET_SCANOUT = 0x0103"
| "spec_ctrl_type CMD_SET_SCANOUT_BLOB = 0x010D"
| "spec_ctrl_type CMD_RESOURCE_FLUSH = 0x0104"
| "spec_ctrl_type CMD_TRANSFER_TO_HOST_2D = 0x0105"
| "spec_ctrl_type CMD_RESOURCE_ATTACH_BACKING = 0x0106"
| "spec_ctrl_type CMD_RESOURCE_DETACH_BACKING = 0x0107"
| "spec_ctrl_type CMD_GET_CAPSET_INFO = 0x0108"
| "spec_ctrl_type CMD_GET_CAPSET = 0x0109"
| "spec_ctrl_type CMD_CTX_CREATE = 0x0200"
| "spec_ctrl_type CMD_CTX_DESTROY = 0x0201"
| "spec_ctrl_type CMD_CTX_ATTACH_RESOURCE = 0x0202"
| "spec_ctrl_type CMD_CTX_DETACH_RESOURCE = 0x0203"
| "spec_ctrl_type CMD_RESOURCE_CREATE_3D = 0x0204"
| "spec_ctrl_type CMD_TRANSFER_TO_HOST_3D = 0x0205"
| "spec_ctrl_type CMD_TRANSFER_FROM_HOST_3D = 0x0206"
| "spec_ctrl_type CMD_SUBMIT_3D = 0x0207"
| "spec_ctrl_type CMD_RESOURCE_CREATE_BLOB = 0x010C"
| "spec_ctrl_type CMD_RESOURCE_MAP_BLOB = 0x0208"
| "spec_ctrl_type CMD_RESOURCE_UNMAP_BLOB = 0x0209"
| "spec_ctrl_type CMD_UPDATE_CURSOR = 0x0300"
| "spec_ctrl_type CMD_MOVE_CURSOR = 0x0301"
| "spec_ctrl_type CMD_RESOURCE_ASSIGN_UUID = 0x010B"
| "spec_ctrl_type RESP_OK_NODATA = 0x1100"
| "spec_ctrl_type RESP_OK_DISPLAY_INFO = 0x1101"
| "spec_ctrl_type RESP_OK_CAPSET_INFO = 0x1102"
| "spec_ctrl_type RESP_OK_CAPSET = 0x1103"
| "spec_ctrl_type RESP_OK_EDID = 0x1104"
| "spec_ctrl_type RESP_OK_RESOURCE_UUID = 0x1105"
| "spec_ctrl_type RESP_OK_MAP_INFO = 0x1106"
| "spec_ctrl_type RESP_ERR_UNSPEC = 0x1200"
| "spec_ctrl_type RESP_ERR_OUT_OF_MEMORY = 0x1201"
| "spec_ctrl_type RESP_ERR_INVALID_SCANOUT_ID = 0x1202"
| "spec_ctrl_type RESP_ERR_INVALID_RESOURCE_ID = 0x1203"
| "spec_ctrl_type RESP_ERR_INVALID_CONTEXT_ID = 0x1204"
| "spec_ctrl_type RESP_ERR_INVALID_PARAMETER = 0x1205"

section \<open>Readers\<close>

text \<open>\<^verbatim>\<open>read_exact\<close> of the given number of bytes; \<^verbatim>\<open>read_obj::<T>()\<close> reads the size of \<^verbatim>\<open>T\<close> and
  reinterprets the bytes. Every error of the reader becomes \<^verbatim>\<open>DescriptorReadFailed\<close>.\<close>

datatype gpu_command_decode_error = InvalidType u32 | DecodeIO io_error | DescriptorReadFailed

definition read_bytes :: "'r reader \<Rightarrow> nat \<Rightarrow> ('r, u8 list, gpu_command_decode_error) rust_method" where
  "read_bytes rd n r = (let (x, r') = rd n r in (map_err (\<lambda>_. DescriptorReadFailed) x, r'))"

definition read_obj :: "'r reader \<Rightarrow> 'a codec \<Rightarrow> ('r, 'a, gpu_command_decode_error) rust_method" where
  "read_obj rd c = bind_method (read_bytes rd (csize c)) (\<lambda>bs. return_method (get c bs))"

text \<open>The \<^verbatim>\<open>for _ in 0..n\<close> loops of \<^verbatim>\<open>decode\<close>.\<close>

fun read_n :: "'r reader \<Rightarrow> 'a codec \<Rightarrow> nat \<Rightarrow> ('r, 'a list, gpu_command_decode_error) rust_method" where
  "read_n rd c 0 = return_method []"
| "read_n rd c (Suc n) =
     bind_method (read_obj rd c) (\<lambda>x. bind_method (read_n rd c n) (\<lambda>xs. return_method (x # xs)))"

section \<open>Commands\<close>

datatype gpu_command =
    GetDisplayInfo
  | GetEdid virtio_gpu_get_edid
  | ResourceCreate2d virtio_gpu_resource_create_2d
  | ResourceUnref virtio_gpu_resource_unref
  | SetScanout virtio_gpu_set_scanout
  | SetScanoutBlob virtio_gpu_set_scanout_blob
  | ResourceFlush virtio_gpu_resource_flush
  | TransferToHost2d virtio_gpu_transfer_to_host_2d
  | ResourceAttachBacking virtio_gpu_resource_attach_backing "(u64 \<times> nat) list"
  | ResourceDetachBacking virtio_gpu_resource_detach_backing
  | GetCapsetInfo virtio_gpu_get_capset_info
  | GetCapset virtio_gpu_get_capset
  | CtxCreate virtio_gpu_ctx_create
  | CtxDestroy unit
  | CtxAttachResource virtio_gpu_ctx_resource
  | CtxDetachResource virtio_gpu_ctx_resource
  | ResourceCreate3d virtio_gpu_resource_create_3d
  | TransferToHost3d virtio_gpu_transfer_host_3d
  | TransferFromHost3d virtio_gpu_transfer_host_3d
  | CmdSubmit3d (cmd_data: "u8 list") (fence_ids: "u64 list")
  | ResourceCreateBlob virtio_gpu_resource_create_blob
  | ResourceMapBlob virtio_gpu_resource_map_blob
  | ResourceUnmapBlob virtio_gpu_resource_unmap_blob
  | UpdateCursor virtio_gpu_update_cursor
  | MoveCursor virtio_gpu_update_cursor
  | ResourceAssignUuid virtio_gpu_resource_assign_uuid

fun command_name :: "gpu_command \<Rightarrow> string" where
  "command_name GetDisplayInfo = ''GetDisplayInfo''"
| "command_name (GetEdid _) = ''GetEdid''"
| "command_name (ResourceCreate2d _) = ''ResourceCreate2d''"
| "command_name (ResourceUnref _) = ''ResourceUnref''"
| "command_name (SetScanout _) = ''SetScanout''"
| "command_name (SetScanoutBlob _) = ''SetScanoutBlob''"
| "command_name (ResourceFlush _) = ''ResourceFlush''"
| "command_name (TransferToHost2d _) = ''TransferToHost2d''"
| "command_name (ResourceAttachBacking _ _) = ''ResourceAttachBacking''"
| "command_name (ResourceDetachBacking _) = ''ResourceDetachBacking''"
| "command_name (GetCapsetInfo _) = ''GetCapsetInfo''"
| "command_name (GetCapset _) = ''GetCapset''"
| "command_name (CtxCreate _) = ''CtxCreate''"
| "command_name (CtxDestroy _) = ''CtxDestroy''"
| "command_name (CtxAttachResource _) = ''CtxAttachResource''"
| "command_name (CtxDetachResource _) = ''CtxDetachResource''"
| "command_name (ResourceCreate3d _) = ''ResourceCreate3d''"
| "command_name (TransferToHost3d _) = ''TransferToHost3d''"
| "command_name (TransferFromHost3d _) = ''TransferFromHost3d''"
| "command_name (CmdSubmit3d _ _) = ''CmdSubmit3d''"
| "command_name (ResourceCreateBlob _) = ''ResourceCreateBlob''"
| "command_name (ResourceMapBlob _) = ''ResourceMapBlob''"
| "command_name (ResourceUnmapBlob _) = ''ResourceUnmapBlob''"
| "command_name (UpdateCursor _) = ''UpdateCursor''"
| "command_name (MoveCursor _) = ''MoveCursor''"
| "command_name (ResourceAssignUuid _) = ''ResourceAssignUuid''"

text \<open>\<^verbatim>\<open>virtio_gpu_ctx_create::get_debug_name\<close>: the name up to \<open>nlen\<close> must end in its only zero byte
  (\<^verbatim>\<open>CStr::from_bytes_with_nul\<close>).\<close>

datatype debug_name = CName "u8 list" | InteriorNul nat | NotNulTerminated

definition from_bytes_with_nul :: "u8 list \<Rightarrow> debug_name" where
  "from_bytes_with_nul bs =
     (let before = takeWhile (\<lambda>b. b \<noteq> 0) bs
      in if length before = length bs then NotNulTerminated
         else if Suc (length before) = length bs then CName before
         else InteriorNul (length before))"

definition get_debug_name :: "virtio_gpu_ctx_create \<Rightarrow> debug_name" where
  "get_debug_name c = from_bytes_with_nul (take (min 64 (unat (cc_nlen c))) (cc_debug_name c))"

definition decode_attach_backing :: "'r reader \<Rightarrow> ('r, gpu_command, gpu_command_decode_error) rust_method" where
  "decode_attach_backing rd =
     bind_method (read_obj rd virtio_gpu_resource_attach_backing_layout) (\<lambda>info.
     bind_method (read_n rd virtio_gpu_mem_entry_layout (unat (ab_nr_entries info))) (\<lambda>entries.
     return_method (ResourceAttachBacking info (map (\<lambda>e. (me_addr e, unat (me_length e))) entries))))"

definition decode_submit_3d :: "'r reader \<Rightarrow> ('r, gpu_command, gpu_command_decode_error) rust_method" where
  "decode_submit_3d rd =
     bind_method (read_obj rd virtio_gpu_cmd_submit_layout) (\<lambda>info.
     bind_method (read_n rd le64 (unat (cs_num_in_fences info))) (\<lambda>fence_ids.
     bind_method (read_bytes rd (unat (cs_size info))) (\<lambda>cmd_data.
     return_method (CmdSubmit3d cmd_data fence_ids))))"

definition payload :: "'r reader \<Rightarrow> 'a codec \<Rightarrow> ('a \<Rightarrow> gpu_command) \<Rightarrow> ('r, gpu_command, gpu_command_decode_error) rust_method" where
  "payload rd c cmd = bind_method (read_obj rd c) (\<lambda>x. return_method (cmd x))"

definition decode_payload ::
  "(ctrl_type \<Rightarrow> u32) \<Rightarrow> 'r reader \<Rightarrow> u32 \<Rightarrow> ('r, gpu_command, gpu_command_decode_error) rust_method" where
  "decode_payload ct rd t =
     (if t = ct CMD_GET_DISPLAY_INFO then return_method GetDisplayInfo
      else if t = ct CMD_GET_EDID then payload rd virtio_gpu_get_edid_layout GetEdid
      else if t = ct CMD_RESOURCE_CREATE_2D then payload rd virtio_gpu_resource_create_2d_layout ResourceCreate2d
      else if t = ct CMD_RESOURCE_UNREF then payload rd virtio_gpu_resource_unref_layout ResourceUnref
      else if t = ct CMD_SET_SCANOUT then payload rd virtio_gpu_set_scanout_layout SetScanout
      else if t = ct CMD_SET_SCANOUT_BLOB then payload rd virtio_gpu_set_scanout_blob_layout SetScanoutBlob
      else if t = ct CMD_RESOURCE_FLUSH then payload rd virtio_gpu_resource_flush_layout ResourceFlush
      else if t = ct CMD_TRANSFER_TO_HOST_2D then payload rd virtio_gpu_transfer_to_host_2d_layout TransferToHost2d
      else if t = ct CMD_RESOURCE_ATTACH_BACKING then decode_attach_backing rd
      else if t = ct CMD_RESOURCE_DETACH_BACKING then payload rd virtio_gpu_resource_detach_backing_layout ResourceDetachBacking
      else if t = ct CMD_GET_CAPSET_INFO then payload rd virtio_gpu_get_capset_info_layout GetCapsetInfo
      else if t = ct CMD_GET_CAPSET then payload rd virtio_gpu_get_capset_layout GetCapset
      else if t = ct CMD_CTX_CREATE then payload rd virtio_gpu_ctx_create_layout CtxCreate
      else if t = ct CMD_CTX_DESTROY then payload rd no_bytes CtxDestroy
      else if t = ct CMD_CTX_ATTACH_RESOURCE then payload rd virtio_gpu_ctx_resource_layout CtxAttachResource
      else if t = ct CMD_CTX_DETACH_RESOURCE then payload rd virtio_gpu_ctx_resource_layout CtxDetachResource
      else if t = ct CMD_RESOURCE_CREATE_3D then payload rd virtio_gpu_resource_create_3d_layout ResourceCreate3d
      else if t = ct CMD_TRANSFER_TO_HOST_3D then payload rd virtio_gpu_transfer_host_3d_layout TransferToHost3d
      else if t = ct CMD_TRANSFER_FROM_HOST_3D then payload rd virtio_gpu_transfer_host_3d_layout TransferFromHost3d
      else if t = ct CMD_SUBMIT_3D then decode_submit_3d rd
      else if t = ct CMD_RESOURCE_CREATE_BLOB then payload rd virtio_gpu_resource_create_blob_layout ResourceCreateBlob
      else if t = ct CMD_RESOURCE_MAP_BLOB then payload rd virtio_gpu_resource_map_blob_layout ResourceMapBlob
      else if t = ct CMD_RESOURCE_UNMAP_BLOB then payload rd virtio_gpu_resource_unmap_blob_layout ResourceUnmapBlob
      else if t = ct CMD_UPDATE_CURSOR then payload rd virtio_gpu_update_cursor_layout UpdateCursor
      else if t = ct CMD_MOVE_CURSOR then payload rd virtio_gpu_update_cursor_layout MoveCursor
      else if t = ct CMD_RESOURCE_ASSIGN_UUID then payload rd virtio_gpu_resource_assign_uuid_layout ResourceAssignUuid
      else fail_method (InvalidType t))"

definition decode ::
  "(ctrl_type \<Rightarrow> u32) \<Rightarrow> 'r reader \<Rightarrow> ('r, virtio_gpu_ctrl_hdr \<times> gpu_command, gpu_command_decode_error) rust_method" where
  "decode ct rd =
     bind_method (read_obj rd virtio_gpu_ctrl_hdr_layout) (\<lambda>hdr.
     bind_method (decode_payload ct rd (hdr_type hdr)) (\<lambda>cmd.
     return_method (hdr, cmd)))"

text \<open>The wire format of a command and when a command can be put on the wire.\<close>

fun command_type :: "gpu_command \<Rightarrow> ctrl_type" where
  "command_type GetDisplayInfo = CMD_GET_DISPLAY_INFO"
| "command_type (GetEdid _) = CMD_GET_EDID"
| "command_type (ResourceCreate2d _) = CMD_RESOURCE_CREATE_2D"
| "command_type (ResourceUnref _) = CMD_RESOURCE_UNREF"
| "command_type (SetScanout _) = CMD_SET_SCANOUT"
| "command_type (SetScanoutBlob _) = CMD_SET_SCANOUT_BLOB"
| "command_type (ResourceFlush _) = CMD_RESOURCE_FLUSH"
| "command_type (TransferToHost2d _) = CMD_TRANSFER_TO_HOST_2D"
| "command_type (ResourceAttachBacking _ _) = CMD_RESOURCE_ATTACH_BACKING"
| "command_type (ResourceDetachBacking _) = CMD_RESOURCE_DETACH_BACKING"
| "command_type (GetCapsetInfo _) = CMD_GET_CAPSET_INFO"
| "command_type (GetCapset _) = CMD_GET_CAPSET"
| "command_type (CtxCreate _) = CMD_CTX_CREATE"
| "command_type (CtxDestroy _) = CMD_CTX_DESTROY"
| "command_type (CtxAttachResource _) = CMD_CTX_ATTACH_RESOURCE"
| "command_type (CtxDetachResource _) = CMD_CTX_DETACH_RESOURCE"
| "command_type (ResourceCreate3d _) = CMD_RESOURCE_CREATE_3D"
| "command_type (TransferToHost3d _) = CMD_TRANSFER_TO_HOST_3D"
| "command_type (TransferFromHost3d _) = CMD_TRANSFER_FROM_HOST_3D"
| "command_type (CmdSubmit3d _ _) = CMD_SUBMIT_3D"
| "command_type (ResourceCreateBlob _) = CMD_RESOURCE_CREATE_BLOB"
| "command_type (ResourceMapBlob _) = CMD_RESOURCE_MAP_BLOB"
| "command_type (ResourceUnmapBlob _) = CMD_RESOURCE_UNMAP_BLOB"
| "command_type (UpdateCursor _) = CMD_UPDATE_CURSOR"
| "command_type (MoveCursor _) = CMD_MOVE_CURSOR"
| "command_type (ResourceAssignUuid _) = CMD_RESOURCE_ASSIGN_UUID"

definition command_types :: "ctrl_type list" where
  "command_types =
    [CMD_GET_DISPLAY_INFO, CMD_GET_EDID, CMD_RESOURCE_CREATE_2D,
     CMD_RESOURCE_UNREF, CMD_SET_SCANOUT, CMD_SET_SCANOUT_BLOB,
     CMD_RESOURCE_FLUSH, CMD_TRANSFER_TO_HOST_2D, CMD_RESOURCE_ATTACH_BACKING,
     CMD_RESOURCE_DETACH_BACKING, CMD_GET_CAPSET_INFO, CMD_GET_CAPSET,
     CMD_CTX_CREATE, CMD_CTX_DESTROY, CMD_CTX_ATTACH_RESOURCE,
     CMD_CTX_DETACH_RESOURCE, CMD_RESOURCE_CREATE_3D, CMD_TRANSFER_TO_HOST_3D,
     CMD_TRANSFER_FROM_HOST_3D, CMD_SUBMIT_3D, CMD_RESOURCE_CREATE_BLOB,
     CMD_RESOURCE_MAP_BLOB, CMD_RESOURCE_UNMAP_BLOB, CMD_UPDATE_CURSOR,
     CMD_MOVE_CURSOR, CMD_RESOURCE_ASSIGN_UUID]"

fun command_bytes :: "gpu_command \<Rightarrow> u8 list" where
  "command_bytes GetDisplayInfo = []"
| "command_bytes (GetEdid x) = put virtio_gpu_get_edid_layout x"
| "command_bytes (ResourceCreate2d x) = put virtio_gpu_resource_create_2d_layout x"
| "command_bytes (ResourceUnref x) = put virtio_gpu_resource_unref_layout x"
| "command_bytes (SetScanout x) = put virtio_gpu_set_scanout_layout x"
| "command_bytes (SetScanoutBlob x) = put virtio_gpu_set_scanout_blob_layout x"
| "command_bytes (ResourceFlush x) = put virtio_gpu_resource_flush_layout x"
| "command_bytes (TransferToHost2d x) = put virtio_gpu_transfer_to_host_2d_layout x"
| "command_bytes (ResourceAttachBacking info entries) =
     put virtio_gpu_resource_attach_backing_layout info @
     concat (map (\<lambda>(addr, len). put virtio_gpu_mem_entry_layout
       \<lparr>me_addr = addr, me_length = of_nat len, me_padding = 0\<rparr>) entries)"
| "command_bytes (ResourceDetachBacking x) = put virtio_gpu_resource_detach_backing_layout x"
| "command_bytes (GetCapsetInfo x) = put virtio_gpu_get_capset_info_layout x"
| "command_bytes (GetCapset x) = put virtio_gpu_get_capset_layout x"
| "command_bytes (CtxCreate x) = put virtio_gpu_ctx_create_layout x"
| "command_bytes (CtxDestroy _) = []"
| "command_bytes (CtxAttachResource x) = put virtio_gpu_ctx_resource_layout x"
| "command_bytes (CtxDetachResource x) = put virtio_gpu_ctx_resource_layout x"
| "command_bytes (ResourceCreate3d x) = put virtio_gpu_resource_create_3d_layout x"
| "command_bytes (TransferToHost3d x) = put virtio_gpu_transfer_host_3d_layout x"
| "command_bytes (TransferFromHost3d x) = put virtio_gpu_transfer_host_3d_layout x"
| "command_bytes (CmdSubmit3d data ids) =
     put virtio_gpu_cmd_submit_layout \<lparr>cs_size = of_nat (length data), cs_num_in_fences = of_nat (length ids)\<rparr> @
     concat (map (put le64) ids) @ data"
| "command_bytes (ResourceCreateBlob x) = put virtio_gpu_resource_create_blob_layout x"
| "command_bytes (ResourceMapBlob x) = put virtio_gpu_resource_map_blob_layout x"
| "command_bytes (ResourceUnmapBlob x) = put virtio_gpu_resource_unmap_blob_layout x"
| "command_bytes (UpdateCursor x) = put virtio_gpu_update_cursor_layout x"
| "command_bytes (MoveCursor x) = put virtio_gpu_update_cursor_layout x"
| "command_bytes (ResourceAssignUuid x) = put virtio_gpu_resource_assign_uuid_layout x"

fun command_valid :: "gpu_command \<Rightarrow> bool" where
  "command_valid (SetScanoutBlob x) \<longleftrightarrow> virtio_gpu_set_scanout_blob_valid x"
| "command_valid (ResourceAttachBacking info entries) \<longleftrightarrow>
     unat (ab_nr_entries info) = length entries \<and> list_all (\<lambda>(addr, len). len < 2 ^ 32) entries"
| "command_valid (CtxCreate x) \<longleftrightarrow> virtio_gpu_ctx_create_valid x"
| "command_valid (CmdSubmit3d data ids) \<longleftrightarrow> length data < 2 ^ 32 \<and> length ids < 2 ^ 32"
| "command_valid _ \<longleftrightarrow> True"

section \<open>Responses\<close>

record gpu_response_plane_info =
  pi_stride :: u32
  pi_offset :: u32

datatype gpu_response =
    OkNoData
  | OkDisplayInfo "(u32 \<times> u32 \<times> bool) list"
  | OkEdid (edid_blob: "u8 list")
  | OkCapsetInfo (resp_capset_id: u32) (resp_version: u32) (resp_size: u32)
  | OkCapset "u8 list"
  | OkResourcePlaneInfo (resp_format_modifier: u64) (resp_plane_info: "gpu_response_plane_info list")
  | OkResourceUuid (resp_uuid: "u8 list")
  | OkMapInfo (resp_map_info: u32)
  | ErrUnspec
  | ErrRutabaga nat
  | ErrScanout (resp_num_scanouts: u32)
  | ErrOutOfMemory
  | ErrInvalidScanoutId
  | ErrInvalidResourceId
  | ErrInvalidContextId
  | ErrInvalidParameter

type_synonym virtio_gpu_result = "(gpu_response, gpu_response) rust"

datatype gpu_response_encode_error =
  EncodeIO io_error | SizeOverflow | TooManyDisplays nat | TooManyPlanes nat | DescriptorWriteFailed

fun get_type :: "(ctrl_type \<Rightarrow> u32) \<Rightarrow> gpu_response \<Rightarrow> u32" where
  "get_type ct OkNoData = ct RESP_OK_NODATA"
| "get_type ct (OkDisplayInfo _) = ct RESP_OK_DISPLAY_INFO"
| "get_type ct (OkEdid _) = ct RESP_OK_EDID"
| "get_type ct (OkCapsetInfo _ _ _) = ct RESP_OK_CAPSET_INFO"
| "get_type ct (OkCapset _) = ct RESP_OK_CAPSET"
| "get_type ct (OkResourcePlaneInfo _ _) = VIRTIO_GPU_RESP_OK_RESOURCE_PLANE_INFO"
| "get_type ct (OkResourceUuid _) = ct RESP_OK_RESOURCE_UUID"
| "get_type ct (OkMapInfo _) = ct RESP_OK_MAP_INFO"
| "get_type ct ErrUnspec = ct RESP_ERR_UNSPEC"
| "get_type ct (ErrRutabaga _) = ct RESP_ERR_UNSPEC"
| "get_type ct (ErrScanout _) = ct RESP_ERR_UNSPEC"
| "get_type ct ErrOutOfMemory = ct RESP_ERR_OUT_OF_MEMORY"
| "get_type ct ErrInvalidScanoutId = ct RESP_ERR_INVALID_SCANOUT_ID"
| "get_type ct ErrInvalidResourceId = ct RESP_ERR_INVALID_RESOURCE_ID"
| "get_type ct ErrInvalidContextId = ct RESP_ERR_INVALID_CONTEXT_ID"
| "get_type ct ErrInvalidParameter = ct RESP_ERR_INVALID_PARAMETER"

section \<open>Writers\<close>

definition write_obj :: "'w writer_ops \<Rightarrow> 'a codec \<Rightarrow> 'a \<Rightarrow> ('w, unit, gpu_response_encode_error) rust_method" where
  "write_obj wo c x w = (let (r, w') = w_write_obj wo (put c x) w in (map_err (\<lambda>_. DescriptorWriteFailed) r, w'))"

definition write_some :: "'w writer_ops \<Rightarrow> u8 list \<Rightarrow> ('w, nat, gpu_response_encode_error) rust_method" where
  "write_some wo bs w = (let (r, w') = w_write wo bs w in (map_err (\<lambda>_. DescriptorWriteFailed) r, w'))"

definition response_hdr :: "u32 \<Rightarrow> u32 \<Rightarrow> u64 \<Rightarrow> u32 \<Rightarrow> u8 \<Rightarrow> virtio_gpu_ctrl_hdr" where
  "response_hdr ty flags fence_id ctx_id ring_idx =
     \<lparr>hdr_type = ty, hdr_flags = flags, hdr_fence_id = fence_id, hdr_ctx_id = ctx_id,
      hdr_ring_idx = ring_idx, hdr_padding = [0, 0, 0]\<rparr>"

definition display_default :: virtio_gpu_display_one where
  "display_default =
     \<lparr>d1_r = \<lparr>rect_x = 0, rect_y = 0, rect_width = 0, rect_height = 0\<rparr>, d1_enabled = 0, d1_flags = 0\<rparr>"

text \<open>The sixteen default modes, overwritten from the front by the given ones.\<close>

fun fill_pmodes :: "virtio_gpu_display_one list \<Rightarrow> (u32 \<times> u32 \<times> bool) list \<Rightarrow> virtio_gpu_display_one list" where
  "fill_pmodes (m # ms) ((width, height, en) # info) =
     m\<lparr>d1_r := (d1_r m)\<lparr>rect_width := width, rect_height := height\<rparr>, d1_enabled := (if en then 1 else 0)\<rparr>
       # fill_pmodes ms info"
| "fill_pmodes ms _ = ms"

definition encode_display_info ::
  "'w writer_ops \<Rightarrow> virtio_gpu_ctrl_hdr \<Rightarrow> (u32 \<times> u32 \<times> bool) list \<Rightarrow> ('w, nat, gpu_response_encode_error) rust_method" where
  "encode_display_info wo hdr info =
     (if length info > unat VIRTIO_GPU_MAX_SCANOUTS then fail_method (TooManyDisplays (length info))
      else bind_method
             (write_obj wo virtio_gpu_resp_display_info_layout
               \<lparr>rd_hdr = hdr, rd_pmodes = fill_pmodes (replicate 16 display_default) info\<rparr>)
             (\<lambda>_. return_method (csize virtio_gpu_resp_display_info_layout)))"

definition encode_edid ::
  "'w writer_ops \<Rightarrow> virtio_gpu_ctrl_hdr \<Rightarrow> u8 list \<Rightarrow> ('w, nat, gpu_response_encode_error) rust_method" where
  "encode_edid wo hdr blob =
     (if length blob \<ge> 2 ^ 32 then fail_method SizeOverflow
      else if length blob \<noteq> EDID_BLOB_MAX_SIZE then (\<lambda>w. (Panic, w))
      else bind_method
             (write_obj wo virtio_gpu_resp_edid_layout
               \<lparr>re_hdr = hdr, re_size = of_nat (length blob), re_padding = 0, re_edid = blob\<rparr>)
             (\<lambda>_. return_method (csize virtio_gpu_resp_edid_layout)))"

definition encode_plane_info ::
  "(ctrl_type \<Rightarrow> u32) \<Rightarrow> 'w writer_ops \<Rightarrow> virtio_gpu_ctrl_hdr \<Rightarrow> u64 \<Rightarrow> gpu_response_plane_info list
    \<Rightarrow> ('w, nat, gpu_response_encode_error) rust_method" where
  "encode_plane_info ct wo hdr format_modifier planes w =
     (if length planes > PLANE_INFO_MAX_COUNT then (Err (TooManyPlanes (length planes)), w)
      else if length planes \<ge> 2 ^ 32 then (Err SizeOverflow, w)
      else if w_available wo w \<ge> csize virtio_gpu_resp_resource_plane_info_layout
      then (Ok (csize virtio_gpu_resp_resource_plane_info_layout), w)
      else bind_method (write_obj wo virtio_gpu_ctrl_hdr_layout (hdr\<lparr>hdr_type := ct RESP_OK_NODATA\<rparr>))
             (\<lambda>_. return_method (csize virtio_gpu_ctrl_hdr_layout)) w)"

fun encode_body ::
  "(ctrl_type \<Rightarrow> u32) \<Rightarrow> 'w writer_ops \<Rightarrow> virtio_gpu_ctrl_hdr \<Rightarrow> gpu_response \<Rightarrow> ('w, nat, gpu_response_encode_error) rust_method" where
  "encode_body ct wo hdr (OkDisplayInfo info) = encode_display_info wo hdr info"
| "encode_body ct wo hdr (OkEdid blob) = encode_edid wo hdr blob"
| "encode_body ct wo hdr (OkCapsetInfo capset_id version sz) =
     bind_method
       (write_obj wo virtio_gpu_resp_capset_info_layout
         \<lparr>ri_hdr = hdr, ri_capset_id = capset_id, ri_capset_max_version = version,
          ri_capset_max_size = sz, ri_padding = 0\<rparr>)
       (\<lambda>_. return_method (csize virtio_gpu_resp_capset_info_layout))"
| "encode_body ct wo hdr (OkCapset data) =
     bind_method (write_obj wo virtio_gpu_ctrl_hdr_layout hdr) (\<lambda>_.
     bind_method (write_some wo data) (\<lambda>_.
     return_method (csize virtio_gpu_ctrl_hdr_layout + length data)))"
| "encode_body ct wo hdr (OkResourcePlaneInfo format_modifier planes) =
     encode_plane_info ct wo hdr format_modifier planes"
| "encode_body ct wo hdr (OkResourceUuid uuid) =
     bind_method (write_obj wo virtio_gpu_resp_resource_uuid_layout \<lparr>rr_hdr = hdr, rr_uuid = uuid\<rparr>)
       (\<lambda>_. return_method (csize virtio_gpu_resp_resource_uuid_layout))"
| "encode_body ct wo hdr (OkMapInfo map_info) =
     bind_method (write_obj wo virtio_gpu_resp_map_info_layout \<lparr>rm_hdr = hdr, rm_map_info = map_info, rm_padding = 0\<rparr>)
       (\<lambda>_. return_method (csize virtio_gpu_resp_map_info_layout))"
| "encode_body ct wo hdr _ =
     bind_method (write_obj wo virtio_gpu_ctrl_hdr_layout hdr)
       (\<lambda>_. return_method (csize virtio_gpu_ctrl_hdr_layout))"

definition encode ::
  "(ctrl_type \<Rightarrow> u32) \<Rightarrow> 'w writer_ops \<Rightarrow> gpu_response \<Rightarrow> u32 \<Rightarrow> u64 \<Rightarrow> u32 \<Rightarrow> u8
    \<Rightarrow> ('w, u32, gpu_response_encode_error) rust_method" where
  "encode ct wo resp flags fence_id ctx_id ring_idx =
     bind_method (encode_body ct wo (response_hdr (get_type ct resp) flags fence_id ctx_id ring_idx) resp)
       (\<lambda>len. if len < 2 ^ 32 then return_method (of_nat len) else fail_method SizeOverflow)"

text \<open>What the response is on the wire, header included.\<close>

fun response_body :: "gpu_response \<Rightarrow> u8 list" where
  "response_body (OkDisplayInfo info) =
     concat (map (put virtio_gpu_display_one_layout) (fill_pmodes (replicate 16 display_default) info))"
| "response_body (OkEdid blob) = le_bytes 4 (of_nat (length blob) :: u32) @ le_bytes 4 (0 :: u32) @ blob"
| "response_body (OkCapsetInfo capset_id version sz) =
     le_bytes 4 capset_id @ le_bytes 4 version @ le_bytes 4 sz @ le_bytes 4 (0 :: u32)"
| "response_body (OkCapset data) = data"
| "response_body (OkResourceUuid uuid) = uuid"
| "response_body (OkMapInfo map_info) = le_bytes 4 map_info @ le_bytes 4 (0 :: u32)"
| "response_body _ = []"

text \<open>The responses that fit the fixed structures; plane information is apart.\<close>

fun response_valid :: "gpu_response \<Rightarrow> bool" where
  "response_valid (OkDisplayInfo info) \<longleftrightarrow> length info \<le> 16"
| "response_valid (OkEdid blob) \<longleftrightarrow> length blob = EDID_BLOB_MAX_SIZE"
| "response_valid (OkCapset data) \<longleftrightarrow> length data < 2 ^ 32 - 24"
| "response_valid (OkResourcePlaneInfo _ _) \<longleftrightarrow> False"
| "response_valid (OkResourceUuid uuid) \<longleftrightarrow> length uuid = 16"
| "response_valid _ \<longleftrightarrow> True"

definition response_bytes :: "(ctrl_type \<Rightarrow> u32) \<Rightarrow> gpu_response \<Rightarrow> u32 \<Rightarrow> u64 \<Rightarrow> u32 \<Rightarrow> u8 \<Rightarrow> u8 list" where
  "response_bytes ct resp flags fence_id ctx_id ring_idx =
     put virtio_gpu_ctrl_hdr_layout (response_hdr (get_type ct resp) flags fence_id ctx_id ring_idx)
       @ response_body resp"

section \<open>Readers with the same bytes decode the same\<close>



text \<open>Two computations agree when their outcomes do and, after success, so do the bytes left.\<close>

definition agree ::
  "('r \<Rightarrow> u8 list) \<Rightarrow> ('r, 'a, 'e) rust_method \<Rightarrow> (u8 list, 'a, 'e) rust_method \<Rightarrow> bool" where
  "agree left m m' \<longleftrightarrow>
     (\<forall>r. fst (m r) = fst (m' (left r)) \<and>
          (is_ok (fst (m r)) \<longrightarrow> left (snd (m r)) = snd (m' (left r))))"

lemma agree_return [simp, intro]: "agree left (return_method a) (return_method a)"
  by (simp add: agree_def return_method_def)

lemma agree_fail [simp, intro]: "agree left (fail_method e) (fail_method e)"
  by (simp add: agree_def fail_method_def)

lemma agree_bind [intro]:
  assumes m: "agree left m m'" and f: "\<And>a. agree left (f a) (f' a)"
  shows "agree left (bind_method m f) (bind_method m' f')"
  unfolding agree_def
proof (intro allI)
  fix r
  have 1: "fst (m r) = fst (m' (left r))" "is_ok (fst (m r)) \<longrightarrow> left (snd (m r)) = snd (m' (left r))"
    using m by (simp_all add: agree_def)
  show "fst (bind_method m f r) = fst (bind_method m' f' (left r)) \<and>
        (is_ok (fst (bind_method m f r)) \<longrightarrow> left (snd (bind_method m f r)) = snd (bind_method m' f' (left r)))"
  proof (cases "fst (m r)")
    case (Ok a)
    from Ok 1 have 2: "fst (m' (left r)) = Ok a" "snd (m' (left r)) = left (snd (m r))" by simp_all
    from Ok 2 have "bind_method m f r = f a (snd (m r))" "bind_method m' f' (left r) = f' a (left (snd (m r)))"
      unfolding bind_method_def split_beta by simp_all
    with f [of a] show ?thesis by (simp add: agree_def)
  qed (use 1 in \<open>auto simp: bind_method_def split_beta\<close>)
qed

lemma agree_read_bytes:
  assumes "reader_contract rd left"
  shows "agree left (read_bytes rd n) (read_bytes list_reader n)"
  unfolding agree_def
proof
  fix r
  show "fst (read_bytes rd n r) = fst (read_bytes list_reader n (left r)) \<and>
    (is_ok (fst (read_bytes rd n r)) \<longrightarrow> left (snd (read_bytes rd n r)) = snd (read_bytes list_reader n (left r)))"
  proof (cases "n \<le> length (left r)")
    case True
    with assms show ?thesis
      by (simp add: reader_contract_def read_bytes_def list_reader_def split_beta)
  next
    case False
    with assms obtain e where "fst (rd n r) = Err e"
      unfolding reader_contract_def by (metis not_le)
    with False show ?thesis
      by (simp add: read_bytes_def list_reader_def split_beta)
  qed
qed

lemma agree_read_obj: "reader_contract rd left \<Longrightarrow> agree left (read_obj rd c) (read_obj list_reader c)"
  unfolding read_obj_def by (auto intro: agree_read_bytes)

lemma agree_read_n: "reader_contract rd left \<Longrightarrow> agree left (read_n rd c n) (read_n list_reader c n)"
  by (induction n) (auto intro: agree_read_obj)

lemmas agree_reads = agree_read_bytes agree_read_obj agree_read_n

lemma agree_payload: "reader_contract rd left \<Longrightarrow> agree left (payload rd c k) (payload list_reader c k)"
  unfolding payload_def by (auto intro: agree_reads)

lemma agree_if: "agree left m m' \<Longrightarrow> agree left n n' \<Longrightarrow> agree left (if b then m else n) (if b then m' else n')"
  by simp

lemma agree_decode_attach_backing:
  "reader_contract rd left \<Longrightarrow> agree left (decode_attach_backing rd) (decode_attach_backing list_reader)"
  unfolding decode_attach_backing_def by (auto intro: agree_reads)

lemma agree_decode_submit_3d:
  "reader_contract rd left \<Longrightarrow> agree left (decode_submit_3d rd) (decode_submit_3d list_reader)"
  unfolding decode_submit_3d_def by (auto intro: agree_reads)

lemma agree_decode_payload:
  "reader_contract rd left \<Longrightarrow> agree left (decode_payload ct rd t) (decode_payload ct list_reader t)"
  unfolding decode_payload_def
  by (intro agree_if agree_return agree_fail agree_payload agree_decode_attach_backing agree_decode_submit_3d)

lemma agree_decode: "reader_contract rd left \<Longrightarrow> agree left (decode ct rd) (decode ct list_reader)"
  unfolding decode_def by (auto intro: agree_reads agree_decode_payload)

section \<open>Decoding inverts the wire format\<close>

lemma list_reader_append:
  "n = length bs \<Longrightarrow> read_bytes list_reader n (bs @ rest) = (Ok bs, rest)"
  by (simp add: read_bytes_def list_reader_def)

lemma read_obj_put:
  assumes "lawful c V" "V x"
  shows "read_obj list_reader c (put c x @ rest) = (Ok x, rest)"
  using assms by (simp add: read_obj_def bind_method_def list_reader_append lawful_def return_method_def)

lemma read_obj_no_bytes: "read_obj list_reader no_bytes bs = (Ok (), bs)"
  using read_obj_put [OF lawful_no_bytes, of "()" bs] by (simp add: no_bytes_def)

lemma read_n_put:
  assumes "lawful c V"
  shows "list_all V xs \<Longrightarrow> read_n list_reader c (length xs) (concat (map (put c) xs) @ rest) = (Ok xs, rest)"
  using assms by (induction xs) (auto simp: bind_method_def read_obj_put return_method_def)

lemma payload_put:
  assumes "lawful c V" "V x"
  shows "payload list_reader c k (put c x @ rest) = (Ok (k x), rest)"
  using read_obj_put [OF assms] by (simp add: payload_def bind_method_def return_method_def)

lemma decode_attach_backing_put:
  assumes "command_valid (ResourceAttachBacking info entries)"
  shows "decode_attach_backing list_reader (command_bytes (ResourceAttachBacking info entries) @ rest)
    = (Ok (ResourceAttachBacking info entries), rest)"
proof -
  let ?e = "\<lambda>p. \<lparr>me_addr = fst p, me_length = of_nat (snd p), me_padding = 0\<rparr>"
  have n: "unat (ab_nr_entries info) = length (map ?e entries)" using assms by simp
  have inv: "map (\<lambda>e. (me_addr e, unat (me_length e))) (map ?e entries) = entries"
    using assms by (auto simp: list_all_iff unat_of_nat take_bit_nat_eq_self intro!: map_idI)
  have "concat (map (\<lambda>p. put virtio_gpu_mem_entry_layout (?e p)) entries)
      = concat (map (put virtio_gpu_mem_entry_layout) (map ?e entries))"
    by (simp add: o_def case_prod_unfold)
  with read_n_put [OF virtio_gpu_mem_entry_lawful, of "map ?e entries" rest] inv show ?thesis
    by (simp add: decode_attach_backing_def bind_method_def return_method_def n list.pred_True o_def
        read_obj_put [OF virtio_gpu_resource_attach_backing_lawful] case_prod_unfold del: map_map)
qed

lemma decode_submit_3d_put:
  assumes "command_valid (CmdSubmit3d data ids)"
  shows "decode_submit_3d list_reader (command_bytes (CmdSubmit3d data ids) @ rest) = (Ok (CmdSubmit3d data ids), rest)"
proof -
  have "unat (of_nat (length data) :: u32) = length data" "unat (of_nat (length ids) :: u32) = length ids"
    using assms by (simp_all add: unat_of_nat take_bit_nat_eq_self)
  with read_n_put [OF lawful_le64, of ids "data @ rest"] show ?thesis
    by (simp add: decode_submit_3d_def bind_method_def return_method_def list_reader_append list.pred_True
        read_obj_put [OF virtio_gpu_cmd_submit_lawful])
qed

lemmas payload_puts =
  payload_put [OF virtio_gpu_get_edid_lawful]
  payload_put [OF virtio_gpu_resource_create_2d_lawful]
  payload_put [OF virtio_gpu_resource_unref_lawful]
  payload_put [OF virtio_gpu_set_scanout_lawful]
  payload_put [OF virtio_gpu_set_scanout_blob_lawful]
  payload_put [OF virtio_gpu_resource_flush_lawful]
  payload_put [OF virtio_gpu_transfer_to_host_2d_lawful]
  payload_put [OF virtio_gpu_resource_detach_backing_lawful]
  payload_put [OF virtio_gpu_get_capset_info_lawful]
  payload_put [OF virtio_gpu_get_capset_lawful]
  payload_put [OF virtio_gpu_ctx_create_lawful]
  payload_put [OF virtio_gpu_ctx_resource_lawful]
  payload_put [OF virtio_gpu_resource_create_3d_lawful]
  payload_put [OF virtio_gpu_transfer_host_3d_lawful]
  payload_put [OF virtio_gpu_resource_create_blob_lawful]
  payload_put [OF virtio_gpu_resource_map_blob_lawful]
  payload_put [OF virtio_gpu_resource_unmap_blob_lawful]
  payload_put [OF virtio_gpu_update_cursor_lawful]
  payload_put [OF virtio_gpu_resource_assign_uuid_lawful]

lemma decode_payload_put:
  assumes "inj ct" "command_valid cmd"
  shows "decode_payload ct list_reader (ct (command_type cmd)) (command_bytes cmd @ rest) = (Ok cmd, rest)"
proof (cases cmd)
  case (ResourceAttachBacking info entries)
  with assms decode_attach_backing_put [of info entries rest] show ?thesis
    by (simp add: decode_payload_def inj_eq del: command_bytes.simps command_valid.simps)
next
  case (CmdSubmit3d data ids)
  with assms decode_submit_3d_put [of data ids rest] show ?thesis
    by (simp add: decode_payload_def inj_eq del: command_bytes.simps command_valid.simps)
next
  case (CtxDestroy u)
  with assms show ?thesis
    by (simp add: decode_payload_def inj_eq payload_def bind_method_def read_obj_no_bytes return_method_def)
qed (use assms in \<open>simp_all add: decode_payload_def inj_eq return_method_def payload_puts\<close>)

lemma decode_put:
  assumes "inj ct" "virtio_gpu_ctrl_hdr_valid hdr" "hdr_type hdr = ct (command_type cmd)" "command_valid cmd"
  shows "decode ct list_reader (put virtio_gpu_ctrl_hdr_layout hdr @ command_bytes cmd @ rest) = (Ok (hdr, cmd), rest)"
  using assms decode_payload_put [of ct cmd rest] read_obj_put [OF virtio_gpu_ctrl_hdr_lawful assms(2)]
  by (simp add: decode_def bind_method_def return_method_def)

text \<open>The converse: what a successful decoding has read.\<close>

lemma read_bytes_OkD:
  "read_bytes list_reader n bs = (Ok xs, rest) \<Longrightarrow> bs = xs @ rest \<and> length xs = n"
  by (auto simp: read_bytes_def list_reader_def split: if_splits)

lemma bind_method_OkD:
  assumes "bind_method m f s = (Ok b, s')"
  obtains a s1 where "m s = (Ok a, s1)" "f a s1 = (Ok b, s')"
  using assms by (auto simp: bind_method_def split: prod.splits rust.splits)

lemma return_method_OkD: "return_method a s = (Ok b, s') \<Longrightarrow> b = a \<and> s' = s"
  by (auto simp: return_method_def)

lemmas OkDs = return_method_OkD read_bytes_OkD

lemma read_obj_OkD:
  assumes "read_obj list_reader c bs = (Ok x, rest)" "lawful c V"
  shows "bs = put c x @ rest \<and> V x"
  using assms unfolding read_obj_def by (auto elim!: bind_method_OkD dest!: OkDs simp: lawful_def)

lemma payload_OkD:
  assumes "payload list_reader c k bs = (Ok cmd, rest)" "lawful c V"
  shows "\<exists>x. cmd = k x \<and> bs = put c x @ rest \<and> V x"
  using assms unfolding payload_def by (auto elim!: bind_method_OkD dest!: OkDs read_obj_OkD)

lemma read_n_OkD:
  assumes "lawful c V"
  shows "read_n list_reader c n bs = (Ok xs, rest) \<Longrightarrow> bs = concat (map (put c) xs) @ rest \<and> length xs = n \<and> list_all V xs"
proof (induction n arbitrary: bs xs)
  case 0
  then show ?case by (auto dest!: OkDs)
next
  case (Suc n)
  from Suc.prems assms Suc.IH show ?case
    by (fastforce elim!: bind_method_OkD dest!: OkDs read_obj_OkD)
qed

text \<open>\<open>reads cmd bs rest\<close>: the payload of \<open>cmd\<close> stands in front of \<open>rest\<close>. The padding of the memory
  entries of an attach command is not kept, so there only the length is known.\<close>

definition reads :: "gpu_command \<Rightarrow> u8 list \<Rightarrow> u8 list \<Rightarrow> bool" where
  "reads cmd bs rest \<longleftrightarrow>
     command_valid cmd \<and>
     (\<exists>p. bs = p @ rest \<and> length p = length (command_bytes cmd) \<and>
          ((\<nexists>info entries. cmd = ResourceAttachBacking info entries) \<longrightarrow> p = command_bytes cmd))"

lemma put_length_lawful: "lawful c V \<Longrightarrow> V x \<Longrightarrow> length (put c x) = csize c"
  by (simp add: lawful_def)

lemma decode_attach_backing_reads:
  assumes "decode_attach_backing list_reader bs = (Ok cmd, rest)"
  shows "reads cmd bs rest \<and> command_type cmd = CMD_RESOURCE_ATTACH_BACKING"
proof -
  from assms obtain info s1 es where 1: "read_obj list_reader virtio_gpu_resource_attach_backing_layout bs = (Ok info, s1)"
      "read_n list_reader virtio_gpu_mem_entry_layout (unat (ab_nr_entries info)) s1 = (Ok es, rest)"
      "cmd = ResourceAttachBacking info (map (\<lambda>e. (me_addr e, unat (me_length e))) es)"
    unfolding decode_attach_backing_def by (auto elim!: bind_method_OkD dest!: return_method_OkD)
  have len: "length (concat (map (put virtio_gpu_mem_entry_layout) xs)) = 16 * length xs" for xs
    by (induction xs) (simp_all add: put_length_lawful [OF virtio_gpu_mem_entry_lawful])
  have "length (concat (map (\<lambda>(addr, len). put virtio_gpu_mem_entry_layout
      \<lparr>me_addr = addr, me_length = of_nat len, me_padding = 0\<rparr>) ps)) = 16 * length ps" for ps
    by (induction ps) (auto simp: put_length_lawful [OF virtio_gpu_mem_entry_lawful])
  with len [of es] read_obj_OkD [OF 1(1) virtio_gpu_resource_attach_backing_lawful]
    read_n_OkD [OF virtio_gpu_mem_entry_lawful 1(2)] 1(3)
  show ?thesis
    by (auto simp: reads_def list_all_iff simp del: length_concat map_map)
qed

lemma decode_submit_3d_reads:
  assumes "decode_submit_3d list_reader bs = (Ok cmd, rest)"
  shows "reads cmd bs rest \<and> command_type cmd = CMD_SUBMIT_3D"
proof -
  from assms obtain info s1 ids s2 data where 1: "read_obj list_reader virtio_gpu_cmd_submit_layout bs = (Ok info, s1)"
      "read_n list_reader le64 (unat (cs_num_in_fences info)) s1 = (Ok ids, s2)"
      "read_bytes list_reader (unat (cs_size info)) s2 = (Ok data, rest)" "cmd = CmdSubmit3d data ids"
    unfolding decode_submit_3d_def by (auto elim!: bind_method_OkD dest!: return_method_OkD)
  have l: "length data = unat (cs_size info)" "length ids = unat (cs_num_in_fences info)"
    using read_bytes_OkD [OF 1(3)] read_n_OkD [OF lawful_le64 1(2)] by simp_all
  then have "command_valid cmd" unfolding 1(4) by simp
  have "info = \<lparr>cs_size = of_nat (length data), cs_num_in_fences = of_nat (length ids)\<rparr>"
    unfolding l by simp
  then have "bs = command_bytes cmd @ rest"
    using read_obj_OkD [OF 1(1) virtio_gpu_cmd_submit_lawful] read_n_OkD [OF lawful_le64 1(2)]
      read_bytes_OkD [OF 1(3)] unfolding 1(4) by (metis append.assoc command_bytes.simps(20))
  with \<open>command_valid cmd\<close> have "reads cmd bs rest" unfolding reads_def by blast
  with 1(4) show ?thesis by simp
qed

definition decodes :: "(ctrl_type \<Rightarrow> u32) \<Rightarrow> u32 \<Rightarrow> (u8 list, gpu_command, gpu_command_decode_error) rust_method \<Rightarrow> bool" where
  "decodes ct t m \<longleftrightarrow>
     (\<forall>bs cmd rest. m bs = (Ok cmd, rest) \<longrightarrow> reads cmd bs rest \<and> t = ct (command_type cmd))"

lemma decodes_if: "(t = u \<Longrightarrow> decodes ct u m) \<Longrightarrow> decodes ct t n \<Longrightarrow> decodes ct t (if t = u then m else n)"
  by simp

lemma decodes_fail: "decodes ct t (fail_method e)"
  by (simp add: decodes_def fail_method_def)

lemma decodes_payload:
  assumes "lawful c V" "\<And>x. V x \<Longrightarrow> command_valid (k x)" "\<And>x. command_bytes (k x) = put c x"
    and "\<And>x info es. k x \<noteq> ResourceAttachBacking info es" "\<And>x. command_type (k x) = t"
  shows "decodes ct (ct t) (payload list_reader c k)"
  using payload_OkD [OF _ assms(1)] assms(2-5) unfolding decodes_def reads_def by metis

lemma decodes_others:
  "decodes ct (ct CMD_GET_DISPLAY_INFO) (return_method GetDisplayInfo)"
  "decodes ct (ct CMD_RESOURCE_ATTACH_BACKING) (decode_attach_backing list_reader)"
  "decodes ct (ct CMD_SUBMIT_3D) (decode_submit_3d list_reader)"
  by (auto simp: decodes_def reads_def [of GetDisplayInfo] return_method_def
      dest: decode_attach_backing_reads decode_submit_3d_reads)

lemma decodes_decode_payload: "decodes ct t (decode_payload ct list_reader t)"
  unfolding decode_payload_def
  by (intro decodes_if decodes_fail decodes_others decodes_payload;
      (rule lawful_no_bytes layout_laws | simp add: no_bytes_def))

lemma decode_reads:
  assumes "decode ct list_reader bs = (Ok (hdr, cmd), rest)"
  shows "virtio_gpu_ctrl_hdr_valid hdr \<and> hdr_type hdr = ct (command_type cmd) \<and>
    (\<exists>p. bs = put virtio_gpu_ctrl_hdr_layout hdr @ p \<and> reads cmd p rest)"
  using assms decodes_decode_payload unfolding decode_def decodes_def
  by (auto elim!: bind_method_OkD dest!: return_method_OkD read_obj_OkD [OF _ virtio_gpu_ctrl_hdr_lawful])

section \<open>Decoding errors\<close>

definition no_panic :: "('s, 'a, 'e) rust_method \<Rightarrow> bool" where
  "no_panic m \<longleftrightarrow> (\<forall>s. fst (m s) \<noteq> Panic)"

lemma no_panic_prims: "no_panic (return_method a)" "no_panic (fail_method e)"
  by (simp_all add: no_panic_def return_method_def fail_method_def)

lemma no_panic_bind: "no_panic m \<Longrightarrow> (\<And>a. no_panic (f a)) \<Longrightarrow> no_panic (bind_method m f)"
  unfolding no_panic_def bind_method_def by (auto split: prod.splits rust.splits) (metis fst_conv)+

lemma no_panic_read_bytes: "no_panic (read_bytes list_reader n)"
  by (simp add: no_panic_def read_bytes_def list_reader_def)

lemma no_panic_read_obj: "no_panic (read_obj list_reader c)"
  unfolding read_obj_def by (intro no_panic_bind no_panic_prims no_panic_read_bytes)

lemma no_panic_read_n: "no_panic (read_n list_reader c n)"
  by (induction n) (auto intro!: no_panic_bind no_panic_prims no_panic_read_obj)

lemmas no_panics = no_panic_bind no_panic_prims no_panic_read_bytes no_panic_read_obj no_panic_read_n

lemma no_panic_if: "no_panic m \<Longrightarrow> no_panic n \<Longrightarrow> no_panic (if b then m else n)"
  by simp

lemma no_panic_decode: "no_panic (decode ct list_reader)"
  unfolding decode_def decode_payload_def payload_def decode_attach_backing_def decode_submit_3d_def
  by (intro no_panics no_panic_if)

lemma decode_unknown:
  assumes "virtio_gpu_ctrl_hdr_valid hdr" "hdr_type hdr \<notin> ct ` set command_types"
  shows "fst (decode ct list_reader (put virtio_gpu_ctrl_hdr_layout hdr @ rest)) = Err (InvalidType (hdr_type hdr))"
proof -
  have "decode_payload ct list_reader (hdr_type hdr) rest = (Err (InvalidType (hdr_type hdr)), rest)"
    using assms(2) unfolding decode_payload_def fail_method_def command_types_def by simp
  with read_obj_put [OF virtio_gpu_ctrl_hdr_lawful assms(1)] show ?thesis
    by (simp add: decode_def bind_method_def)
qed

lemma decode_short:
  "length bs < 24 \<Longrightarrow> fst (decode ct list_reader bs) = Err DescriptorReadFailed"
  by (simp add: decode_def read_obj_def bind_method_def read_bytes_def list_reader_def)

section \<open>Encoding writes the wire format\<close>

lemma length_fill_pmodes [simp]: "length (fill_pmodes ms info) = length ms"
  by (induction ms info rule: fill_pmodes.induct) auto

lemma response_hdr_valid [simp]: "virtio_gpu_ctrl_hdr_valid (response_hdr ty flags fence_id ctx_id ring_idx)"
  by (simp add: response_hdr_def virtio_gpu_ctrl_hdr_valid_def)

lemma length_put_hdr [simp]: "virtio_gpu_ctrl_hdr_valid h \<Longrightarrow> length (put virtio_gpu_ctrl_hdr_layout h) = 24"
  by (simp add: put_length_lawful [OF virtio_gpu_ctrl_hdr_lawful])

lemmas layout_puts = struct_def beside_def array_def le32_def byte8_def

lemma put_resp_display_info:
  "put virtio_gpu_resp_display_info_layout \<lparr>rd_hdr = h, rd_pmodes = ms\<rparr>
    = put virtio_gpu_ctrl_hdr_layout h @ concat (map (put virtio_gpu_display_one_layout) ms)"
  by (simp add: virtio_gpu_resp_display_info_layout_def layout_puts)

lemma put_resp_edid:
  "put virtio_gpu_resp_edid_layout \<lparr>re_hdr = h, re_size = n, re_padding = p, re_edid = blob\<rparr>
    = put virtio_gpu_ctrl_hdr_layout h @ le_bytes 4 n @ le_bytes 4 p @ blob"
  by (simp add: virtio_gpu_resp_edid_layout_def layout_puts)

lemma put_resp_capset_info:
  "put virtio_gpu_resp_capset_info_layout
      \<lparr>ri_hdr = h, ri_capset_id = a, ri_capset_max_version = b, ri_capset_max_size = c, ri_padding = d\<rparr>
    = put virtio_gpu_ctrl_hdr_layout h @ le_bytes 4 a @ le_bytes 4 b @ le_bytes 4 c @ le_bytes 4 d"
  by (simp add: virtio_gpu_resp_capset_info_layout_def layout_puts)

lemma put_resp_resource_uuid:
  "put virtio_gpu_resp_resource_uuid_layout \<lparr>rr_hdr = h, rr_uuid = u\<rparr> = put virtio_gpu_ctrl_hdr_layout h @ u"
  by (simp add: virtio_gpu_resp_resource_uuid_layout_def layout_puts)

lemma put_resp_map_info:
  "put virtio_gpu_resp_map_info_layout \<lparr>rm_hdr = h, rm_map_info = m, rm_padding = p\<rparr>
    = put virtio_gpu_ctrl_hdr_layout h @ le_bytes 4 m @ le_bytes 4 p"
  by (simp add: virtio_gpu_resp_map_info_layout_def layout_puts)

lemmas put_resps = put_resp_display_info put_resp_edid put_resp_capset_info put_resp_resource_uuid put_resp_map_info

lemma length_pmodes [simp]:
  "length (concat (map (put virtio_gpu_display_one_layout) ms)) = 24 * length ms"
  by (induction ms) (simp_all add: put_length_lawful [OF virtio_gpu_display_one_lawful])

lemma write_obj_room:
  assumes "writer_contract wo written" "length (put c x) \<le> w_available wo w"
  shows "fst (write_obj wo c x w) = Ok ()" "written (snd (write_obj wo c x w)) = written w @ put c x"
    "w_available wo (snd (write_obj wo c x w)) = w_available wo w - length (put c x)"
  using assms by (simp_all add: writer_contract_def write_obj_def split_beta)

lemma write_obj_no_room:
  assumes "writer_contract wo written" "w_available wo w < length (put c x)"
  shows "fst (write_obj wo c x w) = Err DescriptorWriteFailed"
proof -
  from assms obtain e where "fst (w_write_obj wo (put c x) w) = Err e"
    unfolding writer_contract_def by blast
  then show ?thesis by (simp add: write_obj_def split_beta)
qed

lemma write_some_result:
  assumes "writer_contract wo written"
  shows "fst (write_some wo bs w) = Ok (min (length bs) (w_available wo w))"
    "written (snd (write_some wo bs w)) = written w @ take (w_available wo w) bs"
  using assms by (simp_all add: writer_contract_def write_some_def split_beta)

lemma bind_method_Ok: "fst (m s) = Ok a \<Longrightarrow> bind_method m f s = f a (snd (m s))"
  by (simp add: bind_method_def split_beta)

lemma bind_method_Err: "fst (m s) = Err e \<Longrightarrow> fst (bind_method m f s) = Err e"
  by (simp add: bind_method_def split_beta)

lemma write_then_return:
  assumes "writer_contract wo written" "length (put c x) = n" "n \<le> w_available wo w"
  shows "bind_method (write_obj wo c x) (\<lambda>_. return_method n) w = (Ok n, snd (write_obj wo c x w))"
  using assms by (simp add: bind_method_Ok write_obj_room return_method_def)

text \<open>The wire format of a response, its length and its header.\<close>

lemma length_response_body:
  "response_valid resp \<Longrightarrow> length (response_body resp) < 2 ^ 32 - 24"
  by (cases resp) (auto simp: EDID_BLOB_MAX_SIZE_def simp del: length_concat)

lemma length_response_bytes: "length (response_bytes ct resp flags fence_id ctx_id ring_idx) = 24 + length (response_body resp)"
  by (simp add: response_bytes_def)

lemma response_bytes_hdr:
  "get virtio_gpu_ctrl_hdr_layout (take 24 (response_bytes ct resp flags fence_id ctx_id ring_idx))
    = response_hdr (get_type ct resp) flags fence_id ctx_id ring_idx"
  using virtio_gpu_ctrl_hdr_lawful by (simp add: response_bytes_def lawful_def)

lemma encode_body_ok:
  assumes wc: "writer_contract wo written" and v: "response_valid resp" and h: "virtio_gpu_ctrl_hdr_valid h"
    and room: "24 + length (response_body resp) \<le> w_available wo w"
  shows "fst (encode_body ct wo h resp w) = Ok (24 + length (response_body resp)) \<and>
    written (snd (encode_body ct wo h resp w)) = written w @ put virtio_gpu_ctrl_hdr_layout h @ response_body resp"
proof (cases resp)
  case (OkDisplayInfo info)
  then show ?thesis using assms
    by (simp add: encode_display_info_def VIRTIO_GPU_MAX_SCANOUTS_def write_then_return write_obj_room put_resps
        del: length_concat)
next
  case (OkEdid blob)
  then show ?thesis using assms
    by (simp add: encode_edid_def EDID_BLOB_MAX_SIZE_def write_then_return write_obj_room put_resps)
next
  case (OkCapset data)
  then show ?thesis using assms
    by (simp add: bind_method_Ok write_obj_room write_some_result return_method_def)
qed (use assms in \<open>simp_all add: write_then_return write_obj_room put_resps\<close>)

lemma encode_ok:
  assumes "writer_contract wo written" "response_valid resp"
    and "length (response_bytes ct resp flags fence_id ctx_id ring_idx) \<le> w_available wo w"
  shows "fst (encode ct wo resp flags fence_id ctx_id ring_idx w)
      = Ok (of_nat (length (response_bytes ct resp flags fence_id ctx_id ring_idx))) \<and>
    written (snd (encode ct wo resp flags fence_id ctx_id ring_idx w))
      = written w @ response_bytes ct resp flags fence_id ctx_id ring_idx"
proof -
  let ?h = "response_hdr (get_type ct resp) flags fence_id ctx_id ring_idx"
  note b = encode_body_ok [OF assms(1,2), of ?h w ct]
  have "24 + length (response_body resp) < 2 ^ 32" using length_response_body [OF assms(2)] by simp
  with b assms(3) show ?thesis
    by (simp add: encode_def bind_method_Ok length_response_bytes return_method_def)
      (simp add: response_bytes_def)
qed

lemma encode_no_room:
  assumes "writer_contract wo written" "response_valid resp" "\<nexists>data. resp = OkCapset data"
    and "w_available wo w < length (response_bytes ct resp flags fence_id ctx_id ring_idx)"
  shows "fst (encode ct wo resp flags fence_id ctx_id ring_idx w) = Err DescriptorWriteFailed"
proof -
  let ?h = "response_hdr (get_type ct resp) flags fence_id ctx_id ring_idx"
  have "fst (encode_body ct wo ?h resp w) = Err DescriptorWriteFailed"
    using assms
    by (cases resp)
      (auto simp: length_response_bytes encode_display_info_def VIRTIO_GPU_MAX_SCANOUTS_def encode_edid_def
        EDID_BLOB_MAX_SIZE_def put_resps simp del: length_concat intro!: bind_method_Err write_obj_no_room)
  then show ?thesis by (simp add: encode_def bind_method_Err)
qed

text \<open>The two variants that are not written: plane information, although there is room for it, and an
  EDID of another size than the field.\<close>

lemma encode_plane_info_room:
  assumes "length planes \<le> PLANE_INFO_MAX_COUNT" "72 \<le> w_available wo w"
  shows "encode ct wo (OkResourcePlaneInfo m planes) flags fence_id ctx_id ring_idx w = (Ok 72, w)"
  using assms by (simp add: encode_def encode_plane_info_def bind_method_def return_method_def PLANE_INFO_MAX_COUNT_def)

lemma encode_plane_info_no_room:
  assumes "writer_contract wo written" "length planes \<le> PLANE_INFO_MAX_COUNT" "24 \<le> w_available wo w" "w_available wo w < 72"
  shows "fst (encode ct wo (OkResourcePlaneInfo m planes) flags fence_id ctx_id ring_idx w) = Ok 24 \<and>
    written (snd (encode ct wo (OkResourcePlaneInfo m planes) flags fence_id ctx_id ring_idx w))
      = written w @ response_bytes ct OkNoData flags fence_id ctx_id ring_idx"
proof -
  have "(response_hdr ty flags fence_id ctx_id ring_idx)\<lparr>hdr_type := ty'\<rparr> = response_hdr ty' flags fence_id ctx_id ring_idx" for ty ty'
    by (simp add: response_hdr_def)
  with assms show ?thesis
    by (simp add: encode_def encode_plane_info_def bind_method_Ok write_then_return write_obj_room return_method_def
        PLANE_INFO_MAX_COUNT_def response_bytes_def)
qed

lemma encode_edid_panics:
  assumes "length blob \<noteq> EDID_BLOB_MAX_SIZE" "length blob < 2 ^ 32"
  shows "fst (encode ct wo (OkEdid blob) flags fence_id ctx_id ring_idx w) = Panic"
  using assms by (simp add: encode_def encode_edid_def bind_method_def)

section \<open>Properties\<close>

lemma inj_spec_ctrl_type: "inj spec_ctrl_type"
proof (rule injI)
  fix x y assume "spec_ctrl_type x = spec_ctrl_type y"
  then show "x = y" by (cases x; simp; cases y; simp)
qed

text \<open>The command of the witnesses: show resource 7 on scanout 1.\<close>

definition sample_hdr :: "ctrl_type \<Rightarrow> virtio_gpu_ctrl_hdr" where
  "sample_hdr t = \<lparr>hdr_type = spec_ctrl_type t, hdr_flags = 0, hdr_fence_id = 0, hdr_ctx_id = 0,
     hdr_ring_idx = 0, hdr_padding = [0, 0, 0]\<rparr>"

definition sample_set_scanout :: gpu_command where
  "sample_set_scanout = SetScanout \<lparr>ss_r = \<lparr>rect_x = 0, rect_y = 0, rect_width = 640, rect_height = 480\<rparr>,
     ss_scanout_id = 1, ss_resource_id = 7\<rparr>"

lemma sample_hdr_valid: "virtio_gpu_ctrl_hdr_valid (sample_hdr t)"
  by (simp add: sample_hdr_def virtio_gpu_ctrl_hdr_valid_def)

text \<open>C6: a command that a driver puts into the chain in the wire format is decoded to itself, with its header, and
  exactly its bytes are consumed, for every reader with the documented behaviour.\<close>

theorem decode_roundtrip:
  assumes "reader_contract rd left" "inj ct" "virtio_gpu_ctrl_hdr_valid hdr" "command_valid cmd"
    and "hdr_type hdr = ct (command_type cmd)"
    and "left r = put virtio_gpu_ctrl_hdr_layout hdr @ command_bytes cmd @ rest"
  shows "fst (decode ct rd r) = Ok (hdr, cmd) \<and> left (snd (decode ct rd r)) = rest"
  using agree_decode [OF assms(1), of ct] decode_put [OF assms(2,3,5,4), of rest] assms(6)
  by (simp add: agree_def)

theorem decode_roundtrip_witness:
  "fst (decode spec_ctrl_type list_reader
     (put virtio_gpu_ctrl_hdr_layout (sample_hdr CMD_SET_SCANOUT) @ command_bytes sample_set_scanout @ [1, 2]))
     = Ok (sample_hdr CMD_SET_SCANOUT, sample_set_scanout)"
  using decode_roundtrip [OF reader_contract_list_reader inj_spec_ctrl_type sample_hdr_valid, of sample_set_scanout
      CMD_SET_SCANOUT _ "[1, 2]"]
  by (simp add: sample_set_scanout_def sample_hdr_def)

text \<open>Whatever decoding accepts was there: the header and the payload of the decoded command stand at the
  front of the bytes, the header names the command, counts and lengths fit, and nothing else was consumed.\<close>

lemma decode_exact:
  assumes "reader_contract rd left" "fst (decode ct rd r) = Ok (hdr, cmd)"
  shows "virtio_gpu_ctrl_hdr_valid hdr \<and> hdr_type hdr = ct (command_type cmd) \<and>
    (\<exists>p. left r = put virtio_gpu_ctrl_hdr_layout hdr @ p \<and> reads cmd p (left (snd (decode ct rd r))))"
proof -
  have "decode ct list_reader (left r) = (Ok (hdr, cmd), left (snd (decode ct rd r)))"
    using agree_decode [OF assms(1), of ct] assms(2) by (metis agree_def is_ok_simps(1) prod.collapse)
  then show ?thesis by (rule decode_reads)
qed

lemma decode_exact_witness:
  "let bs = put virtio_gpu_ctrl_hdr_layout (sample_hdr CMD_GET_DISPLAY_INFO)
   in \<exists>p. bs = put virtio_gpu_ctrl_hdr_layout (sample_hdr CMD_GET_DISPLAY_INFO) @ p \<and>
          reads GetDisplayInfo p (snd (decode spec_ctrl_type list_reader bs))"
proof -
  let ?bs = "put virtio_gpu_ctrl_hdr_layout (sample_hdr CMD_GET_DISPLAY_INFO)"
  have "fst (decode spec_ctrl_type list_reader ?bs) = Ok (sample_hdr CMD_GET_DISPLAY_INFO, GetDisplayInfo)"
    using decode_put [OF inj_spec_ctrl_type sample_hdr_valid [of CMD_GET_DISPLAY_INFO], of GetDisplayInfo "[]"]
    by (simp add: sample_hdr_def)
  from decode_exact [OF reader_contract_list_reader this] show ?thesis by (simp add: Let_def)
qed





text \<open>A response that does not fit is \<^verbatim>\<open>DescriptorWriteFailed\<close>, except a capability set, whose data is
  cut off silently.\<close>

lemma encode_without_room:
  assumes "writer_contract wo written" "response_valid resp" "\<nexists>data. resp = OkCapset data"
    and "w_available wo w < length (response_bytes ct resp flags fence_id ctx_id ring_idx)"
  shows "fst (encode ct wo resp flags fence_id ctx_id ring_idx w) = Err DescriptorWriteFailed"
  using assms by (rule encode_no_room)

lemma encode_without_room_witness:
  "fst (encode spec_ctrl_type list_writer (OkMapInfo 5) 1 2 3 4 ([], 10)) = Err DescriptorWriteFailed"
  by (rule encode_without_room [OF writer_contract_list_writer]) (simp_all add: length_response_bytes list_writer_def)

text \<open>Plane information is never written: with room for it the call reports its 72 bytes and leaves the
  chain as it was, and with less room the answer is \<^verbatim>\<open>OK_NODATA\<close>.\<close>

lemma plane_info_unwritten:
  assumes "writer_contract wo written" "length planes \<le> PLANE_INFO_MAX_COUNT" "24 \<le> w_available wo w"
  shows "if 72 \<le> w_available wo w
     then encode ct wo (OkResourcePlaneInfo m planes) flags fence_id ctx_id ring_idx w = (Ok 72, w)
     else fst (encode ct wo (OkResourcePlaneInfo m planes) flags fence_id ctx_id ring_idx w) = Ok 24 \<and>
       written (snd (encode ct wo (OkResourcePlaneInfo m planes) flags fence_id ctx_id ring_idx w))
         = written w @ response_bytes ct OkNoData flags fence_id ctx_id ring_idx"
  by (simp add: encode_plane_info_room [OF assms(2)] encode_plane_info_no_room [OF assms])

lemma plane_info_unwritten_witness:
  "encode spec_ctrl_type list_writer (OkResourcePlaneInfo 9 []) 0 0 0 0 ([], 72) = (Ok 72, ([], 72))"
  using plane_info_unwritten [OF writer_contract_list_writer, of "[]" "([], 72)" spec_ctrl_type 9 0 0 0 0]
  by (simp add: PLANE_INFO_MAX_COUNT_def list_writer_def)

end
