(* ===== verification/Virtio_Gpu.thy ===== *)
theory Virtio_Gpu
  imports Gpu_Protocol
begin

text \<open>
  The device side of virtio-gpu, \<^verbatim>\<open>virtio-gpu/src/virtio_gpu.rs\<close>: the trait \<^verbatim>\<open>VirtioGpu\<close> and its
  implementation \<^verbatim>\<open>RutabagaVirtioGpu\<close>, which keeps the resources, the scanouts and the fences and
  forwards the rest to the crate \<^verbatim>\<open>rutabaga_gfx\<close> and to the frontend's \<^verbatim>\<open>GpuBackend\<close> socket. The
  two are parameters: \<open>ro\<close>, a record of operations on a state \<open>'r\<close>, and \<open>bo\<close>, one on a state \<open>'b\<close>,
  with errors as numbers. \<open>dbg\<close> says whether the build checks overflow and debug assertions.
\<close>

section \<open>Rings and fences\<close>

datatype virtio_gpu_ring = Global | ContextSpecific (ring_ctx_id: u32) (ring_ring_idx: u8)

text \<open>The derived order: the variants in their order, then the fields from left to right.\<close>

instantiation virtio_gpu_ring :: linorder
begin

fun less_eq_virtio_gpu_ring :: "virtio_gpu_ring \<Rightarrow> virtio_gpu_ring \<Rightarrow> bool" where
  "less_eq_virtio_gpu_ring Global _ \<longleftrightarrow> True"
| "less_eq_virtio_gpu_ring (ContextSpecific _ _) Global \<longleftrightarrow> False"
| "less_eq_virtio_gpu_ring (ContextSpecific c r) (ContextSpecific c' r') \<longleftrightarrow> c < c' \<or> (c = c' \<and> r \<le> r')"

definition less_virtio_gpu_ring :: "virtio_gpu_ring \<Rightarrow> virtio_gpu_ring \<Rightarrow> bool" where
  "less_virtio_gpu_ring x y \<longleftrightarrow> x \<le> y \<and> \<not> y \<le> x"

instance
proof
  fix x y z :: virtio_gpu_ring
  show "x < y \<longleftrightarrow> x \<le> y \<and> \<not> y \<le> x" by (simp add: less_virtio_gpu_ring_def)
  show "x \<le> x" by (cases x) simp_all
  show "x \<le> y \<Longrightarrow> y \<le> z \<Longrightarrow> x \<le> z" by (cases x; cases y; cases z) auto
  show "x \<le> y \<Longrightarrow> y \<le> x \<Longrightarrow> x = y" by (cases x; cases y) auto
  show "x \<le> y \<or> y \<le> x" by (cases x; cases y) auto
qed

end

record fence_descriptor =
  fd_ring :: virtio_gpu_ring
  fd_fence_id :: u64
  fd_desc_index :: u16
  fd_len :: u32

record fence_state =
  descs :: "fence_descriptor list"
  completed_fences :: "virtio_gpu_ring \<Rightarrow> u64 option"

definition ring_of :: "u32 \<Rightarrow> u32 \<Rightarrow> u8 \<Rightarrow> virtio_gpu_ring" where
  "ring_of flags ctx_id ring_idx =
     (if flags AND VIRTIO_GPU_FLAG_INFO_RING_IDX = 0 then Global else ContextSpecific ctx_id ring_idx)"

record rutabaga_fence =
  rgf_flags :: u32
  rgf_fence_id :: u64
  rgf_ctx_id :: u32
  rgf_ring_idx :: u8

text \<open>What the fence handler does with the queue: take it if it is available, add a used element,
  signal. The errors of the last two are unwrapped.\<close>

record 'q used_ops =
  uo_available :: "'q \<Rightarrow> bool"
  uo_add_used :: "u16 \<Rightarrow> u32 \<Rightarrow> ('q, unit, nat) rust_method"
  uo_signal :: "('q, unit, nat) rust_method"

definition fence_done :: "virtio_gpu_ring \<Rightarrow> u64 \<Rightarrow> fence_descriptor \<Rightarrow> bool" where
  "fence_done ring fence_id d \<longleftrightarrow> fd_ring d = ring \<and> fd_fence_id d \<le> fence_id"

definition complete_desc :: "'q used_ops \<Rightarrow> fence_descriptor \<Rightarrow> ('q, unit, nat) rust_method" where
  "complete_desc uo d q =
     (if \<not> uo_available uo q then (Ok (), q)
      else (let (r, q1) = uo_add_used uo (fd_desc_index d) (fd_len d) q
            in if \<not> is_ok r then (Panic, q1)
               else (let (r2, q2) = uo_signal uo q1 in if \<not> is_ok r2 then (Panic, q2) else (Ok (), q2))))"

definition remove_at :: "nat \<Rightarrow> 'a list \<Rightarrow> 'a list" where
  "remove_at i xs = take i xs @ drop (Suc i) xs"

text \<open>The \<^verbatim>\<open>while\<close> loop over the index \<open>i\<close>, which removes a completed descriptor in place.\<close>

function fence_loop ::
  "'q used_ops \<Rightarrow> virtio_gpu_ring \<Rightarrow> u64 \<Rightarrow> nat \<Rightarrow> fence_descriptor list \<Rightarrow> 'q
    \<Rightarrow> (unit, nat) rust \<times> fence_descriptor list \<times> 'q" where
  "fence_loop uo ring fence_id i ds q =
     (if i < length ds
      then if fence_done ring fence_id (ds ! i)
           then (let (r, q') = complete_desc uo (ds ! i) q
                 in if r = Ok () then fence_loop uo ring fence_id i (remove_at i ds) q'
                    else (r, remove_at i ds, q'))
           else fence_loop uo ring fence_id (Suc i) ds q
      else (Ok (), ds, q))"
  by pat_completeness auto
termination
  by (relation "measure (\<lambda>(_, _, _, i, ds, _). length ds - i)") (auto simp: remove_at_def)

definition fence_handler ::
  "'q used_ops \<Rightarrow> rutabaga_fence \<Rightarrow> fence_state \<times> 'q \<Rightarrow> (unit, nat) rust \<times> fence_state \<times> 'q" where
  "fence_handler uo f sq =
     (let (s, q) = sq;
          ring = ring_of (rgf_flags f) (rgf_ctx_id f) (rgf_ring_idx f);
          (r, ds, q') = fence_loop uo ring (rgf_fence_id f) 0 (descs s) q;
          s' = s\<lparr>descs := ds\<rparr>
      in if r = Ok ()
         then (Ok (), s'\<lparr>completed_fences := (completed_fences s)(ring \<mapsto> rgf_fence_id f)\<rparr>, q')
         else (r, s', q'))"

definition process_fence ::
  "virtio_gpu_ring \<Rightarrow> u64 \<Rightarrow> u16 \<Rightarrow> u32 \<Rightarrow> fence_state \<Rightarrow> bool \<times> fence_state" where
  "process_fence ring fence_id desc_index len s =
     (if fence_id > (case completed_fences s ring of None \<Rightarrow> 0 | Some c \<Rightarrow> c)
      then (False, s\<lparr>descs := descs s @ [\<lparr>fd_ring = ring, fd_fence_id = fence_id,
              fd_desc_index = desc_index, fd_len = len\<rparr>]\<rparr>)
      else (True, s))"

definition fence_state_default :: fence_state where
  "fence_state_default = \<lparr>descs = [], completed_fences = (\<lambda>_. None)\<rparr>"

section \<open>Resources and scanouts\<close>

record rectangle =
  rc_x :: u32
  rc_y :: u32
  rc_width :: u32
  rc_height :: u32

definition rectangle_from :: "virtio_gpu_rect \<Rightarrow> rectangle" where
  "rectangle_from r = \<lparr>rc_x = rect_x r, rc_y = rect_y r, rc_width = rect_width r, rc_height = rect_height r\<rparr>"

type_synonym associated_scanouts = u32

text \<open>\<^verbatim>\<open>1 << scanout_id\<close>; the callers have checked that the id is below sixteen.\<close>

definition scanouts_enable :: "u32 \<Rightarrow> associated_scanouts \<Rightarrow> associated_scanouts" where
  "scanouts_enable scanout_id s = s OR push_bit (unat scanout_id) 1"

definition scanouts_disable :: "u32 \<Rightarrow> associated_scanouts \<Rightarrow> associated_scanouts" where
  "scanouts_disable scanout_id s = s XOR push_bit (unat scanout_id) 1"

definition has_any_enabled :: "associated_scanouts \<Rightarrow> bool" where
  "has_any_enabled s \<longleftrightarrow> s \<noteq> 0"

definition iter_enabled :: "associated_scanouts \<Rightarrow> u32 list" where
  "iter_enabled s =
     filter (\<lambda>i. drop_bit (unat i) s AND 1 = 1) (map of_nat [0..<unat VIRTIO_GPU_MAX_SCANOUTS])"

record virtio_gpu_resource =
  res_id :: u32
  res_width :: u32
  res_height :: u32
  res_scanouts :: associated_scanouts

definition virtio_gpu_resource_new :: "u32 \<Rightarrow> u32 \<Rightarrow> u32 \<Rightarrow> virtio_gpu_resource" where
  "virtio_gpu_resource_new resource_id width height =
     \<lparr>res_id = resource_id, res_width = width, res_height = height, res_scanouts = 0\<rparr>"

definition READ_RESOURCE_BYTES_PER_PIXEL :: u32 where
  "READ_RESOURCE_BYTES_PER_PIXEL = 4"

datatype size_error = WidthHeightOverflow | BytesPerPixelOverflow | TransferFailed nat

definition calculate_size :: "virtio_gpu_resource \<Rightarrow> (nat, size_error) rust" where
  "calculate_size res =
     and_then (ok_or WidthHeightOverflow (checked_mul (unat (res_width res)) (unat (res_height res)))) (\<lambda>n.
     and_then (ok_or BytesPerPixelOverflow (checked_mul n (unat READ_RESOURCE_BYTES_PER_PIXEL))) Ok)"

section \<open>The renderer and the frontend\<close>

record resource_create_3d =
  r3_target :: u32
  r3_format :: u32
  r3_bind :: u32
  r3_width :: u32
  r3_height :: u32
  r3_depth :: u32
  r3_array_size :: u32
  r3_last_level :: u32
  r3_nr_samples :: u32
  r3_flags :: u32

record transfer_3d =
  tr_x :: u32
  tr_y :: u32
  tr_z :: u32
  tr_w :: u32
  tr_h :: u32
  tr_d :: u32
  tr_level :: u32
  tr_stride :: u32
  tr_layer_stride :: u32
  tr_offset :: u64

record rutabaga_query =
  qu_strides :: "u32 list"
  qu_offsets :: "u32 list"
  qu_modifier :: u64

record rutabaga_iovec =
  iov_base :: u64
  iov_len :: nat

text \<open>\<open>rut_transfer_read\<close> is given the length of the buffer and returns what it holds afterwards.\<close>

record 'r rutabaga_ops =
  rut_query :: "u32 \<Rightarrow> 'r \<Rightarrow> (rutabaga_query, nat) rust"
  rut_resource_create_3d :: "u32 \<Rightarrow> resource_create_3d \<Rightarrow> ('r, unit, nat) rust_method"
  rut_unref_resource :: "u32 \<Rightarrow> ('r, unit, nat) rust_method"
  rut_transfer_write :: "u32 \<Rightarrow> u32 \<Rightarrow> transfer_3d \<Rightarrow> ('r, unit, nat) rust_method"
  rut_transfer_read :: "u32 \<Rightarrow> u32 \<Rightarrow> transfer_3d \<Rightarrow> nat option \<Rightarrow> ('r, u8 list, nat) rust_method"
  rut_attach_backing :: "u32 \<Rightarrow> rutabaga_iovec list \<Rightarrow> ('r, unit, nat) rust_method"
  rut_detach_backing :: "u32 \<Rightarrow> ('r, unit, nat) rust_method"
  rut_get_capset_info :: "u32 \<Rightarrow> 'r \<Rightarrow> (u32 \<times> u32 \<times> u32, nat) rust"
  rut_get_capset :: "u32 \<Rightarrow> u32 \<Rightarrow> 'r \<Rightarrow> (u8 list, nat) rust"
  rut_create_context :: "u32 \<Rightarrow> u32 \<Rightarrow> debug_name option \<Rightarrow> ('r, unit, nat) rust_method"
  rut_destroy_context :: "u32 \<Rightarrow> ('r, unit, nat) rust_method"
  rut_context_attach_resource :: "u32 \<Rightarrow> u32 \<Rightarrow> ('r, unit, nat) rust_method"
  rut_context_detach_resource :: "u32 \<Rightarrow> u32 \<Rightarrow> ('r, unit, nat) rust_method"
  rut_submit_command :: "u32 \<Rightarrow> u8 list \<Rightarrow> u64 list \<Rightarrow> ('r, unit, nat) rust_method"
  rut_create_fence :: "rutabaga_fence \<Rightarrow> ('r, unit, nat) rust_method"
  rut_force_ctx_0 :: "'r \<Rightarrow> 'r"
  rut_event_poll :: "'r \<Rightarrow> 'r"
  rut_poll_descriptor :: "'r \<Rightarrow> nat option"

record cursor_pos =
  pos_scanout_id :: u32
  pos_x :: u32
  pos_y :: u32

record gpu_update =
  up_scanout_id :: u32
  up_x :: u32
  up_y :: u32
  up_width :: u32
  up_height :: u32

record 'b backend_ops =
  be_get_display_info :: "('b, (u32 \<times> u32 \<times> u32) list, nat) rust_method"
  be_get_edid :: "u32 \<Rightarrow> ('b, u32 \<times> u8 list, nat) rust_method"
  be_set_scanout :: "u32 \<Rightarrow> u32 \<Rightarrow> u32 \<Rightarrow> ('b, unit, nat) rust_method"
  be_update_scanout :: "gpu_update \<Rightarrow> u8 list \<Rightarrow> ('b, unit, nat) rust_method"
  be_cursor_update :: "cursor_pos \<Rightarrow> u32 \<Rightarrow> u32 \<Rightarrow> u8 list \<Rightarrow> ('b, unit, nat) rust_method"
  be_cursor_pos :: "cursor_pos \<Rightarrow> ('b, unit, nat) rust_method"
  be_cursor_pos_hide :: "cursor_pos \<Rightarrow> ('b, unit, nat) rust_method"

section \<open>The trait\<close>

record 'g virtio_gpu_ops =
  vg_resource_unmap_blob :: "u32 \<Rightarrow> ('g, gpu_response, gpu_response) rust_method"
  vg_resource_map_blob :: "u32 \<Rightarrow> u64 \<Rightarrow> ('g, gpu_response, gpu_response) rust_method"
  vg_resource_create_blob :: "u32 \<Rightarrow> u32 \<Rightarrow> rutabaga_iovec list \<Rightarrow> ('g, gpu_response, gpu_response) rust_method"
  vg_process_fence :: "virtio_gpu_ring \<Rightarrow> u64 \<Rightarrow> u16 \<Rightarrow> u32 \<Rightarrow> 'g \<Rightarrow> bool \<times> 'g"
  vg_create_fence :: "rutabaga_fence \<Rightarrow> ('g, gpu_response, gpu_response) rust_method"
  vg_submit_command :: "u32 \<Rightarrow> u8 list \<Rightarrow> u64 list \<Rightarrow> ('g, gpu_response, gpu_response) rust_method"
  vg_context_detach_resource :: "u32 \<Rightarrow> u32 \<Rightarrow> ('g, gpu_response, gpu_response) rust_method"
  vg_context_attach_resource :: "u32 \<Rightarrow> u32 \<Rightarrow> ('g, gpu_response, gpu_response) rust_method"
  vg_destroy_context :: "u32 \<Rightarrow> ('g, gpu_response, gpu_response) rust_method"
  vg_force_ctx_0 :: "'g \<Rightarrow> 'g"
  vg_display_info :: "('g, gpu_response, gpu_response) rust_method"
  vg_get_edid :: "u32 \<Rightarrow> ('g, gpu_response, gpu_response) rust_method"
  vg_set_scanout :: "u32 \<Rightarrow> u32 \<Rightarrow> rectangle \<Rightarrow> ('g, gpu_response, gpu_response) rust_method"
  vg_resource_create_3d :: "u32 \<Rightarrow> resource_create_3d \<Rightarrow> ('g, gpu_response, gpu_response) rust_method"
  vg_unref_resource :: "u32 \<Rightarrow> ('g, gpu_response, gpu_response) rust_method"
  vg_flush_resource :: "u32 \<Rightarrow> rectangle \<Rightarrow> ('g, gpu_response, gpu_response) rust_method"
  vg_transfer_write :: "u32 \<Rightarrow> u32 \<Rightarrow> transfer_3d \<Rightarrow> ('g, gpu_response, gpu_response) rust_method"
  vg_transfer_read :: "u32 \<Rightarrow> u32 \<Rightarrow> transfer_3d \<Rightarrow> nat option \<Rightarrow> ('g, gpu_response, gpu_response) rust_method"
  vg_attach_backing :: "u32 \<Rightarrow> rutabaga_iovec list \<Rightarrow> ('g, gpu_response, gpu_response) rust_method"
  vg_detach_backing :: "u32 \<Rightarrow> ('g, gpu_response, gpu_response) rust_method"
  vg_update_cursor :: "u32 \<Rightarrow> cursor_pos \<Rightarrow> u32 \<Rightarrow> u32 \<Rightarrow> ('g, gpu_response, gpu_response) rust_method"
  vg_move_cursor :: "u32 \<Rightarrow> cursor_pos \<Rightarrow> ('g, gpu_response, gpu_response) rust_method"
  vg_resource_assign_uuid :: "u32 \<Rightarrow> ('g, gpu_response, gpu_response) rust_method"
  vg_get_capset_info :: "u32 \<Rightarrow> ('g, gpu_response, gpu_response) rust_method"
  vg_get_capset :: "u32 \<Rightarrow> u32 \<Rightarrow> ('g, gpu_response, gpu_response) rust_method"
  vg_create_context :: "u32 \<Rightarrow> u32 \<Rightarrow> debug_name option \<Rightarrow> ('g, gpu_response, gpu_response) rust_method"
  vg_get_event_poll_fd :: "'g \<Rightarrow> nat option"
  vg_event_poll :: "'g \<Rightarrow> 'g"

section \<open>The fence handler\<close>

text \<open>Completing the descriptors of a list one after the other, as the reference for the loop.\<close>

fun complete_all :: "'q used_ops \<Rightarrow> fence_descriptor list \<Rightarrow> ('q, unit, nat) rust_method" where
  "complete_all uo [] = return_method ()"
| "complete_all uo (d # ds) = bind_method (complete_desc uo d) (\<lambda>_. complete_all uo ds)"

lemma fence_loop_rec:
  "fence_loop uo ring f (length pre) (pre @ d # ds) q =
     (if fence_done ring f d
      then (let (r, q') = complete_desc uo d q
            in if r = Ok () then fence_loop uo ring f (length pre) (pre @ ds) q' else (r, pre @ ds, q'))
      else fence_loop uo ring f (length (pre @ [d])) ((pre @ [d]) @ ds) q)"
proof -
  have "remove_at (length pre) (pre @ d # ds) = pre @ ds" by (simp add: remove_at_def)
  then show ?thesis by (subst fence_loop.simps) (simp split: prod.splits)
qed

lemma fence_loop_end: "fence_loop uo ring f (length pre) pre q = (Ok (), pre, q)"
  by (subst fence_loop.simps) simp

declare fence_loop.simps [simp del]

text \<open>When every completion succeeds, the loop completes exactly the matching descriptors, in the order
  of the list, and keeps the others in theirs.\<close>

lemma fence_loop_ok:
  assumes "complete_all uo (filter (fence_done ring f) ds) q = (Ok (), q')"
  shows "fence_loop uo ring f (length pre) (pre @ ds) q
    = (Ok (), pre @ filter (\<lambda>d. \<not> fence_done ring f d) ds, q')"
  using assms
proof (induction ds arbitrary: pre q)
  case Nil
  then show ?case using fence_loop_end [of uo ring f pre q] by (simp add: return_method_def)
next
  case (Cons d ds)
  show ?case
  proof (cases "fence_done ring f d")
    case True
    with Cons.prems obtain q1 where "complete_desc uo d q = (Ok (), q1)"
        "complete_all uo (filter (fence_done ring f) ds) q1 = (Ok (), q')"
      by (auto elim!: bind_method_OkD)
    with Cons.IH [of q1 pre] True show ?thesis by (simp add: fence_loop_rec)
  next
    case False
    with Cons.IH [of q "pre @ [d]"] Cons.prems show ?thesis
      using fence_loop_rec [of uo ring f pre d ds q] by simp
  qed
qed

text \<open>In every case what is left are descriptors of the list, and after success no completed one.\<close>

lemma fence_loop_left:
  "fence_loop uo ring f (length pre) (pre @ ds) q = (r, ds', q') \<Longrightarrow>
     set ds' \<subseteq> set (pre @ ds) \<and> (r = Ok () \<longrightarrow> ds' = pre @ filter (\<lambda>d. \<not> fence_done ring f d) ds)"
proof (induction ds arbitrary: pre q)
  case Nil
  then show ?case using fence_loop_end [of uo ring f pre q] by auto
next
  case (Cons d ds)
  show ?case
  proof (cases "fence_done ring f d")
    case True
    obtain x q1 where c: "complete_desc uo d q = (x, q1)" by fastforce
    show ?thesis
    proof (cases "x = Ok ()")
      case ok: True
      with Cons.prems True c Cons.IH [of pre q1] show ?thesis by (auto simp: fence_loop_rec)
    next
      case False
      with Cons.prems True c show ?thesis by (auto simp: fence_loop_rec)
    qed
  next
    case False
    with Cons.prems Cons.IH [of "pre @ [d]" q] fence_loop_rec [of uo ring f pre d ds q] show ?thesis by auto
  qed
qed

text \<open>A pending fence is later than the last completed one of its ring.\<close>

definition last_completed :: "fence_state \<Rightarrow> virtio_gpu_ring \<Rightarrow> u64" where
  "last_completed s ring = (case completed_fences s ring of None \<Rightarrow> 0 | Some c \<Rightarrow> c)"

definition fences_pending :: "fence_state \<Rightarrow> bool" where
  "fences_pending s \<longleftrightarrow> list_all (\<lambda>d. last_completed s (fd_ring d) < fd_fence_id d) (descs s)"

lemma fences_pending_default: "fences_pending fence_state_default"
  by (simp add: fences_pending_def fence_state_default_def)

lemma fences_pending_process_fence:
  "fences_pending s \<Longrightarrow> fences_pending (snd (process_fence ring fence_id desc_index len s))"
  by (auto simp: fences_pending_def process_fence_def last_completed_def list_all_iff)

lemma fence_handler_eq:
  assumes "fence_loop uo (ring_of (rgf_flags f) (rgf_ctx_id f) (rgf_ring_idx f)) (rgf_fence_id f) 0 (descs s) q = (r, ds, q')"
  shows "fence_handler uo f (s, q) =
    (if r = Ok ()
     then (Ok (), s\<lparr>descs := ds, completed_fences :=
             (completed_fences s)(ring_of (rgf_flags f) (rgf_ctx_id f) (rgf_ring_idx f) \<mapsto> rgf_fence_id f)\<rparr>, q')
     else (r, s\<lparr>descs := ds\<rparr>, q'))"
  using assms by (simp add: fence_handler_def Let_def)

lemma fences_pending_fence_handler:
  assumes "fences_pending s"
  shows "fences_pending (fst (snd (fence_handler uo f (s, q))))"
proof -
  let ?ring = "ring_of (rgf_flags f) (rgf_ctx_id f) (rgf_ring_idx f)"
  obtain r ds q' where l: "fence_loop uo ?ring (rgf_fence_id f) 0 (descs s) q = (r, ds, q')"
    by (cases "fence_loop uo ?ring (rgf_fence_id f) 0 (descs s) q") auto
  have sub: "set ds \<subseteq> set (descs s)"
    "r = Ok () \<longrightarrow> ds = filter (\<lambda>d. \<not> fence_done ?ring (rgf_fence_id f) d) (descs s)"
    using fence_loop_left [of uo ?ring "rgf_fence_id f" "[]" "descs s" q r ds q'] l by auto
  show ?thesis
  proof (cases "r = Ok ()")
    case True
    with sub(2) assms show ?thesis
      by (auto simp: fence_handler_eq [OF l] fences_pending_def last_completed_def fence_done_def list_all_iff)
  next
    case False
    with sub(1) assms show ?thesis
      by (auto simp: fence_handler_eq [OF l] fences_pending_def last_completed_def list_all_iff)
  qed
qed

section \<open>Scanout sets\<close>

lemma bit_scanouts_enable:
  "unat i < 32 \<Longrightarrow> bit (scanouts_enable i s) j \<longleftrightarrow> bit s j \<or> j = unat i"
  by (auto simp: scanouts_enable_def bit_simps)

lemma bit_scanouts_disable:
  "unat i < 32 \<Longrightarrow> bit (scanouts_disable i s) j \<longleftrightarrow> bit s j \<noteq> (j = unat i)"
  by (auto simp: scanouts_disable_def bit_simps)

lemma drop_bit_and_1: "drop_bit n s AND 1 = 1 \<longleftrightarrow> bit (s :: 'a::len word) n"
  by (simp add: bit_iff_odd_drop_bit and_one_eq odd_iff_mod_2_eq_one)

lemma iter_enabled_bits: "iter_enabled s = map of_nat (filter (bit s) [0..<16])"
proof -
  have "bit s (unat (of_nat i :: u32)) = bit s i" if "i < 16" for i :: nat
    using that by (simp add: unat_of_nat take_bit_nat_eq_self)
  then have "filter (\<lambda>i. bit s (unat (of_nat i :: u32))) [0..<16] = filter (bit s) [0..<16]"
    by (intro filter_cong) auto
  then show ?thesis
    by (simp add: iter_enabled_def drop_bit_and_1 VIRTIO_GPU_MAX_SCANOUTS_def filter_map o_def)
qed

lemma has_any_enabled_iff: "has_any_enabled s \<longleftrightarrow> (\<exists>i. bit s i)"
  unfolding has_any_enabled_def by (metis bit_0_eq bit_word_eqI bot_apply bot_bool_def)

text \<open>The size of a resource: four bytes per pixel. The first product cannot overflow.\<close>

lemma calculate_size_cases:
  "calculate_size res =
     (if unat (res_width res) * unat (res_height res) * 4 \<le> usize_max
      then Ok (unat (res_width res) * unat (res_height res) * 4) else Err BytesPerPixelOverflow)"
proof -
  have "unat (res_width res) * unat (res_height res) \<le> 4294967295 * 4294967295"
    using unat_u32_lt [of "res_width res"] unat_u32_lt [of "res_height res"] by (intro mult_le_mono) linarith+
  also have "\<dots> \<le> usize_max" by (simp add: usize_max_def)
  finally show ?thesis
    by (simp add: calculate_size_def checked_mul_def READ_RESOURCE_BYTES_PER_PIXEL_def)
qed

section \<open>Properties\<close>

text \<open>The states of the fences that the device and the renderer can bring about together.\<close>

inductive fence_reachable :: "'q used_ops \<Rightarrow> fence_state \<Rightarrow> bool" for uo where
  start: "fence_reachable uo fence_state_default"
| process: "fence_reachable uo s \<Longrightarrow> fence_reachable uo (snd (process_fence ring fence_id desc_index len s))"
| complete: "fence_reachable uo s \<Longrightarrow> fence_handler uo f (s, q) = (r, s', q') \<Longrightarrow> fence_reachable uo s'"



text \<open>In every reachable state a parked chain waits for a fence later than the last one its ring completed, so
  no chain waits for a fence that has already been signalled.\<close>

lemma parked_fences_pending:
  assumes "fence_reachable uo s"
  shows "fences_pending s"
  using assms
proof induction
  case (complete s f q r s' q')
  with fences_pending_fence_handler [of s uo f q] show ?case by simp
qed (simp_all add: fences_pending_default fences_pending_process_fence)

lemma parked_fences_pending_witness:
  "fences_pending (snd (process_fence Global 5 3 24 fence_state_default))"
  by (rule parked_fences_pending [of "\<lparr>uo_available = (\<lambda>_. True), uo_add_used = (\<lambda>_ _ q. (Ok (), q)), uo_signal = (\<lambda>q. (Ok (), q))\<rparr>"])
    (rule fence_reachable.intros)+

text \<open>The set of scanouts of a resource: enabling adds a scanout, disabling one that is in the set removes it,
  and the iterator lists exactly the members below sixteen, in order.\<close>

lemma associated_scanouts_set:
  assumes "unat i < 32"
  shows "bit (scanouts_enable i s) j = (bit s j \<or> j = unat i) \<and>
    (bit s (unat i) \<longrightarrow> bit (scanouts_disable i s) j = (bit s j \<and> j \<noteq> unat i)) \<and>
    iter_enabled s = map of_nat (filter (bit s) [0..<16])"
  using assms by (auto simp: bit_scanouts_enable bit_scanouts_disable iter_enabled_bits)

lemma associated_scanouts_set_witness:
  "iter_enabled (scanouts_enable 3 0) = [3]"
proof -
  have "bit (scanouts_enable 3 0) j = (j = 3)" for j
    using associated_scanouts_set [of 3 0 j] by simp
  then show ?thesis by (simp add: iter_enabled_bits upt_rec)
qed

end
