(* ===== verification/Rutabaga_Gpu.thy ===== *)
theory Rutabaga_Gpu
  imports Virtio_Gpu
begin

text \<open>
  \<^verbatim>\<open>impl VirtioGpu for RutabagaVirtioGpu\<close>, the rest of \<^verbatim>\<open>virtio-gpu/src/virtio_gpu.rs\<close>: every
  method as a state-passing function over the record of the device, in the order of the source. An
  error of the renderer becomes \<^verbatim>\<open>ErrRutabaga\<close> (the \<^verbatim>\<open>?\<close> conversion), an error of the frontend
  becomes \<^verbatim>\<open>ErrUnspec\<close>; what a method changed before it failed stays changed.
\<close>

section \<open>State\<close>

record ('r, 'b) rutabaga_virtio_gpu =
  rutabaga :: 'r
  gpu_backend :: 'b
  resources :: "u32 \<Rightarrow> virtio_gpu_resource option"
  gpu_fence_state :: fence_state
  scanouts :: "u32 option list"

type_synonym ('r, 'b, 'a) gpu_method = "(('r, 'b) rutabaga_virtio_gpu, 'a, gpu_response) rust_method"

definition rutabaga_virtio_gpu_new :: "'r \<Rightarrow> 'b \<Rightarrow> ('r, 'b) rutabaga_virtio_gpu" where
  "rutabaga_virtio_gpu_new r b =
     \<lparr>rutabaga = r, gpu_backend = b, resources = (\<lambda>_. None), gpu_fence_state = fence_state_default,
      scanouts = replicate (unat VIRTIO_GPU_MAX_SCANOUTS) None\<rparr>"

definition on_rutabaga :: "('r, 'a, nat) rust_method \<Rightarrow> ('r, 'b, 'a) gpu_method" where
  "on_rutabaga m g = (let (r, s) = m (rutabaga g) in (map_err ErrRutabaga r, g\<lparr>rutabaga := s\<rparr>))"

definition on_backend :: "('b, 'a, nat) rust_method \<Rightarrow> ('r, 'b, 'a) gpu_method" where
  "on_backend m g = (let (r, s) = m (gpu_backend g) in (map_err (\<lambda>_. ErrUnspec) r, g\<lparr>gpu_backend := s\<rparr>))"

definition no_data :: "('r, 'b, unit) gpu_method \<Rightarrow> ('r, 'b, gpu_response) gpu_method" where
  "no_data m = bind_method m (\<lambda>_. return_method OkNoData)"

section \<open>Helpers\<close>

definition result_from_query :: "'r rutabaga_ops \<Rightarrow> u32 \<Rightarrow> ('r, 'b) rutabaga_virtio_gpu \<Rightarrow> (gpu_response, gpu_response) rust" where
  "result_from_query ro resource_id g =
     (case rut_query ro resource_id (rutabaga g) of
        Ok query \<Rightarrow>
          if length (qu_strides query) < 4 \<or> length (qu_offsets query) < 4 then Panic
          else Ok (OkResourcePlaneInfo (qu_modifier query)
                 (map (\<lambda>i. \<lparr>pi_stride = qu_strides query ! i, pi_offset = qu_offsets query ! i\<rparr>) [0..<4]))
      | Err _ \<Rightarrow> Ok OkNoData
      | Panic \<Rightarrow> Panic)"

text \<open>The product \<^verbatim>\<open>width * READ_RESOURCE_BYTES_PER_PIXEL\<close> of type \<^verbatim>\<open>u32\<close>: it wraps, or panics when the
  build checks overflow.\<close>

definition read_2d_resource ::
  "bool \<Rightarrow> 'r rutabaga_ops \<Rightarrow> virtio_gpu_resource \<Rightarrow> nat \<Rightarrow> (('r, 'b) rutabaga_virtio_gpu, u8 list, size_error) rust_method" where
  "read_2d_resource dbg ro res output_len g =
     (case calculate_size res of
        Err e \<Rightarrow> (Err e, g)
      | Panic \<Rightarrow> (Panic, g)
      | Ok minimal_buffer_size \<Rightarrow>
          if output_len < minimal_buffer_size then (Panic, g)
          else if dbg \<and> unat (res_width res) * unat READ_RESOURCE_BYTES_PER_PIXEL \<ge> 2 ^ 32 then (Panic, g)
          else (let (r, s) = rut_transfer_read ro 0 (res_id res)
                       \<lparr>tr_x = 0, tr_y = 0, tr_z = 0, tr_w = res_width res, tr_h = res_height res, tr_d = 1,
                        tr_level = 0, tr_stride = res_width res * READ_RESOURCE_BYTES_PER_PIXEL,
                        tr_layer_stride = 0, tr_offset = 0\<rparr> (Some output_len) (rutabaga g)
                in (map_err TransferFailed r, g\<lparr>rutabaga := s\<rparr>)))"

section \<open>Methods\<close>

definition force_ctx_0 :: "'r rutabaga_ops \<Rightarrow> ('r, 'b) rutabaga_virtio_gpu \<Rightarrow> ('r, 'b) rutabaga_virtio_gpu" where
  "force_ctx_0 ro g = g\<lparr>rutabaga := rut_force_ctx_0 ro (rutabaga g)\<rparr>"

definition display_info :: "'b backend_ops \<Rightarrow> ('r, 'b, gpu_response) gpu_method" where
  "display_info bo =
     bind_method (on_backend (be_get_display_info bo)) (\<lambda>pmodes.
     return_method (OkDisplayInfo (map (\<lambda>(width, height, en). (width, height, en = 1)) pmodes)))"

definition get_edid :: "'b backend_ops \<Rightarrow> u32 \<Rightarrow> ('r, 'b, gpu_response) gpu_method" where
  "get_edid bo scanout_id =
     bind_method (on_backend (be_get_edid bo scanout_id)) (\<lambda>(sz, edid) g.
       if unat sz \<le> length edid then (Ok (OkEdid (take (unat sz) edid)), g) else (Panic, g))"

definition disassociate :: "u32 \<Rightarrow> ('r, 'b, unit) gpu_method" where
  "disassociate scanout_id g =
     (case scanouts g ! unat scanout_id of
        None \<Rightarrow> (Ok (), g)
      | Some old \<Rightarrow>
          (case resources g old of
             None \<Rightarrow> (Err ErrInvalidResourceId, g)
           | Some res \<Rightarrow>
               (Ok (), g\<lparr>resources := (resources g)(old \<mapsto>
                          res\<lparr>res_scanouts := scanouts_disable scanout_id (res_scanouts res)\<rparr>)\<rparr>)))"

definition set_scanout :: "'b backend_ops \<Rightarrow> u32 \<Rightarrow> u32 \<Rightarrow> rectangle \<Rightarrow> ('r, 'b, gpu_response) gpu_method" where
  "set_scanout bo scanout_id resource_id rect g =
     (if unat scanout_id \<ge> length (scanouts g) then (Err ErrInvalidScanoutId, g)
      else bind_method (disassociate scanout_id) (\<lambda>_ g.
        if resource_id = 0
        then no_data (on_backend (be_set_scanout bo scanout_id 0 0))
               (g\<lparr>scanouts := (scanouts g)[unat scanout_id := None]\<rparr>)
        else bind_method
               (if scanouts g ! unat scanout_id = None
                then on_backend (be_set_scanout bo scanout_id (rc_width rect) (rc_height rect))
                else return_method ())
               (\<lambda>_ g.
                  case resources g resource_id of
                    None \<Rightarrow> (Err ErrInvalidResourceId, g)
                  | Some res \<Rightarrow>
                      (Ok OkNoData,
                       g\<lparr>resources := (resources g)(resource_id \<mapsto>
                           res\<lparr>res_scanouts := scanouts_enable scanout_id (res_scanouts res)\<rparr>),
                         scanouts := (scanouts g)[unat scanout_id := Some resource_id]\<rparr>)) g) g)"

definition resource_create_3d_op ::
  "bool \<Rightarrow> 'r rutabaga_ops \<Rightarrow> u32 \<Rightarrow> resource_create_3d \<Rightarrow> ('r, 'b, gpu_response) gpu_method" where
  "resource_create_3d_op dbg ro resource_id rc =
     bind_method (on_rutabaga (rut_resource_create_3d ro resource_id rc)) (\<lambda>_ g.
       if dbg \<and> resources g resource_id \<noteq> None then (Panic, g)
       else (let g' = g\<lparr>resources := (resources g)(resource_id \<mapsto>
                          virtio_gpu_resource_new resource_id (r3_width rc) (r3_height rc))\<rparr>
             in (result_from_query ro resource_id g', g')))"

definition unref_resource :: "'r rutabaga_ops \<Rightarrow> u32 \<Rightarrow> ('r, 'b, gpu_response) gpu_method" where
  "unref_resource ro resource_id g =
     (let resource = resources g resource_id;
          g' = g\<lparr>resources := (resources g)(resource_id := None)\<rparr>
      in case resource of
           None \<Rightarrow> (Err ErrInvalidResourceId, g')
         | Some res \<Rightarrow>
             if has_any_enabled (res_scanouts res) then (Err ErrUnspec, g')
             else no_data (on_rutabaga (rut_unref_resource ro resource_id)) g')"

text \<open>\<^verbatim>\<open>vec![0; n]\<close> panics when \<open>n\<close> exceeds \<^verbatim>\<open>isize::MAX\<close>. A resource that cannot be read is skipped.\<close>

definition flush_scanout ::
  "bool \<Rightarrow> 'r rutabaga_ops \<Rightarrow> 'b backend_ops \<Rightarrow> virtio_gpu_resource \<Rightarrow> u32 \<Rightarrow> ('r, 'b, unit) gpu_method" where
  "flush_scanout dbg ro bo res scanout_id g =
     (case calculate_size res of
        Err _ \<Rightarrow> (Err ErrUnspec, g)
      | Panic \<Rightarrow> (Panic, g)
      | Ok resource_size \<Rightarrow>
          if resource_size \<ge> 2 ^ 63 then (Panic, g)
          else (case read_2d_resource dbg ro res resource_size g of
                  (Err _, g') \<Rightarrow> (Ok (), g')
                | (Panic, g') \<Rightarrow> (Panic, g')
                | (Ok data, g') \<Rightarrow>
                    on_backend (be_update_scanout bo
                      \<lparr>up_scanout_id = scanout_id, up_x = 0, up_y = 0,
                       up_width = res_width res, up_height = res_height res\<rparr> data) g'))"

fun flush_scanouts ::
  "bool \<Rightarrow> 'r rutabaga_ops \<Rightarrow> 'b backend_ops \<Rightarrow> virtio_gpu_resource \<Rightarrow> u32 list \<Rightarrow> ('r, 'b, unit) gpu_method" where
  "flush_scanouts dbg ro bo res [] = return_method ()"
| "flush_scanouts dbg ro bo res (i # is) =
     bind_method (flush_scanout dbg ro bo res i) (\<lambda>_. flush_scanouts dbg ro bo res is)"

definition flush_resource ::
  "bool \<Rightarrow> 'r rutabaga_ops \<Rightarrow> 'b backend_ops \<Rightarrow> u32 \<Rightarrow> rectangle \<Rightarrow> ('r, 'b, gpu_response) gpu_method" where
  "flush_resource dbg ro bo resource_id rect g =
     (if resource_id = 0 then (Ok OkNoData, g)
      else (case resources g resource_id of
              None \<Rightarrow> (Err ErrInvalidResourceId, g)
            | Some res \<Rightarrow> no_data (flush_scanouts dbg ro bo res (iter_enabled (res_scanouts res))) g))"

definition transfer_write :: "'r rutabaga_ops \<Rightarrow> u32 \<Rightarrow> u32 \<Rightarrow> transfer_3d \<Rightarrow> ('r, 'b, gpu_response) gpu_method" where
  "transfer_write ro ctx_id resource_id transfer = no_data (on_rutabaga (rut_transfer_write ro ctx_id resource_id transfer))"

definition transfer_read ::
  "'r rutabaga_ops \<Rightarrow> u32 \<Rightarrow> u32 \<Rightarrow> transfer_3d \<Rightarrow> nat option \<Rightarrow> ('r, 'b, gpu_response) gpu_method" where
  "transfer_read ro ctx_id resource_id transfer buf =
     bind_method (on_rutabaga (rut_transfer_read ro ctx_id resource_id transfer buf)) (\<lambda>_. return_method OkNoData)"

definition attach_backing :: "'r rutabaga_ops \<Rightarrow> u32 \<Rightarrow> rutabaga_iovec list \<Rightarrow> ('r, 'b, gpu_response) gpu_method" where
  "attach_backing ro resource_id iovecs = no_data (on_rutabaga (rut_attach_backing ro resource_id iovecs))"

definition detach_backing :: "'r rutabaga_ops \<Rightarrow> u32 \<Rightarrow> ('r, 'b, gpu_response) gpu_method" where
  "detach_backing ro resource_id = no_data (on_rutabaga (rut_detach_backing ro resource_id))"

definition CURSOR_WIDTH :: u32 where
  "CURSOR_WIDTH = 64"

definition CURSOR_HEIGHT :: u32 where
  "CURSOR_HEIGHT = 64"

definition update_cursor ::
  "bool \<Rightarrow> 'r rutabaga_ops \<Rightarrow> 'b backend_ops \<Rightarrow> u32 \<Rightarrow> cursor_pos \<Rightarrow> u32 \<Rightarrow> u32 \<Rightarrow> ('r, 'b, gpu_response) gpu_method" where
  "update_cursor dbg ro bo resource_id pos hot_x hot_y g =
     (case resources g resource_id of
        None \<Rightarrow> (Err ErrInvalidResourceId, g)
      | Some res \<Rightarrow>
          if res_width res \<noteq> CURSOR_WIDTH \<or> res_height res \<noteq> CURSOR_HEIGHT then (Err ErrInvalidParameter, g)
          else (case read_2d_resource dbg ro res
                       (unat READ_RESOURCE_BYTES_PER_PIXEL * unat CURSOR_WIDTH * unat CURSOR_HEIGHT) g of
                  (Err _, g') \<Rightarrow> (Err ErrUnspec, g')
                | (Panic, g') \<Rightarrow> (Panic, g')
                | (Ok data, g') \<Rightarrow> no_data (on_backend (be_cursor_update bo pos hot_x hot_y data)) g'))"

definition move_cursor :: "'b backend_ops \<Rightarrow> u32 \<Rightarrow> cursor_pos \<Rightarrow> ('r, 'b, gpu_response) gpu_method" where
  "move_cursor bo resource_id cursor =
     no_data (on_backend (if resource_id = 0 then be_cursor_pos_hide bo cursor else be_cursor_pos bo cursor))"

definition not_implemented :: "('r, 'b, gpu_response) gpu_method" where
  "not_implemented = fail_method ErrUnspec"

definition get_capset_info :: "'r rutabaga_ops \<Rightarrow> u32 \<Rightarrow> ('r, 'b, gpu_response) gpu_method" where
  "get_capset_info ro index g =
     (map_ok (\<lambda>(capset_id, version, sz). OkCapsetInfo capset_id version sz)
        (map_err ErrRutabaga (rut_get_capset_info ro index (rutabaga g))), g)"

definition get_capset :: "'r rutabaga_ops \<Rightarrow> u32 \<Rightarrow> u32 \<Rightarrow> ('r, 'b, gpu_response) gpu_method" where
  "get_capset ro capset_id version g =
     (map_ok OkCapset (map_err ErrRutabaga (rut_get_capset ro capset_id version (rutabaga g))), g)"

definition create_context :: "'r rutabaga_ops \<Rightarrow> u32 \<Rightarrow> u32 \<Rightarrow> debug_name option \<Rightarrow> ('r, 'b, gpu_response) gpu_method" where
  "create_context ro ctx_id context_init context_name =
     no_data (on_rutabaga (rut_create_context ro ctx_id context_init context_name))"

definition destroy_context :: "'r rutabaga_ops \<Rightarrow> u32 \<Rightarrow> ('r, 'b, gpu_response) gpu_method" where
  "destroy_context ro ctx_id = no_data (on_rutabaga (rut_destroy_context ro ctx_id))"

definition context_attach_resource :: "'r rutabaga_ops \<Rightarrow> u32 \<Rightarrow> u32 \<Rightarrow> ('r, 'b, gpu_response) gpu_method" where
  "context_attach_resource ro ctx_id resource_id = no_data (on_rutabaga (rut_context_attach_resource ro ctx_id resource_id))"

definition context_detach_resource :: "'r rutabaga_ops \<Rightarrow> u32 \<Rightarrow> u32 \<Rightarrow> ('r, 'b, gpu_response) gpu_method" where
  "context_detach_resource ro ctx_id resource_id = no_data (on_rutabaga (rut_context_detach_resource ro ctx_id resource_id))"

definition submit_command :: "'r rutabaga_ops \<Rightarrow> u32 \<Rightarrow> u8 list \<Rightarrow> u64 list \<Rightarrow> ('r, 'b, gpu_response) gpu_method" where
  "submit_command ro ctx_id commands ids = no_data (on_rutabaga (rut_submit_command ro ctx_id commands ids))"

definition create_fence :: "'r rutabaga_ops \<Rightarrow> rutabaga_fence \<Rightarrow> ('r, 'b, gpu_response) gpu_method" where
  "create_fence ro f = no_data (on_rutabaga (rut_create_fence ro f))"

definition gpu_process_fence ::
  "virtio_gpu_ring \<Rightarrow> u64 \<Rightarrow> u16 \<Rightarrow> u32 \<Rightarrow> ('r, 'b) rutabaga_virtio_gpu \<Rightarrow> bool \<times> ('r, 'b) rutabaga_virtio_gpu" where
  "gpu_process_fence ring fence_id desc_index len g =
     (let (signalled, s) = process_fence ring fence_id desc_index len (gpu_fence_state g)
      in (signalled, g\<lparr>gpu_fence_state := s\<rparr>))"

definition get_event_poll_fd :: "'r rutabaga_ops \<Rightarrow> ('r, 'b) rutabaga_virtio_gpu \<Rightarrow> nat option" where
  "get_event_poll_fd ro g = rut_poll_descriptor ro (rutabaga g)"

definition event_poll :: "'r rutabaga_ops \<Rightarrow> ('r, 'b) rutabaga_virtio_gpu \<Rightarrow> ('r, 'b) rutabaga_virtio_gpu" where
  "event_poll ro g = g\<lparr>rutabaga := rut_event_poll ro (rutabaga g)\<rparr>"

text \<open>The instance of the trait.\<close>

definition rutabaga_gpu :: "bool \<Rightarrow> 'r rutabaga_ops \<Rightarrow> 'b backend_ops \<Rightarrow> ('r, 'b) rutabaga_virtio_gpu virtio_gpu_ops" where
  "rutabaga_gpu dbg ro bo = \<lparr>
     vg_resource_unmap_blob = (\<lambda>_. not_implemented),
     vg_resource_map_blob = (\<lambda>_ _. not_implemented),
     vg_resource_create_blob = (\<lambda>_ _ _. not_implemented),
     vg_process_fence = gpu_process_fence,
     vg_create_fence = create_fence ro,
     vg_submit_command = submit_command ro,
     vg_context_detach_resource = context_detach_resource ro,
     vg_context_attach_resource = context_attach_resource ro,
     vg_destroy_context = destroy_context ro,
     vg_force_ctx_0 = force_ctx_0 ro,
     vg_display_info = display_info bo,
     vg_get_edid = get_edid bo,
     vg_set_scanout = set_scanout bo,
     vg_resource_create_3d = resource_create_3d_op dbg ro,
     vg_unref_resource = unref_resource ro,
     vg_flush_resource = flush_resource dbg ro bo,
     vg_transfer_write = transfer_write ro,
     vg_transfer_read = transfer_read ro,
     vg_attach_backing = attach_backing ro,
     vg_detach_backing = detach_backing ro,
     vg_update_cursor = update_cursor dbg ro bo,
     vg_move_cursor = move_cursor bo,
     vg_resource_assign_uuid = (\<lambda>_. not_implemented),
     vg_get_capset_info = get_capset_info ro,
     vg_get_capset = get_capset ro,
     vg_create_context = create_context ro,
     vg_get_event_poll_fd = get_event_poll_fd ro,
     vg_event_poll = event_poll ro\<rparr>"

section \<open>What the methods leave alone\<close>

text \<open>The tables of the device. Most methods change neither these nor the fences, only the state of the
  renderer and of the frontend.\<close>

definition tables :: "('r, 'b) rutabaga_virtio_gpu \<Rightarrow> (u32 \<Rightarrow> virtio_gpu_resource option) \<times> u32 option list" where
  "tables g = (resources g, scanouts g)"

definition keeps_tables :: "(('r, 'b) rutabaga_virtio_gpu, 'a, 'e) rust_method \<Rightarrow> bool" where
  "keeps_tables m \<longleftrightarrow>
     (\<forall>g. tables (snd (m g)) = tables g \<and> gpu_fence_state (snd (m g)) = gpu_fence_state g)"

lemma keeps_tables_prims [simp, intro]:
  "keeps_tables (return_method a)" "keeps_tables (fail_method e)"
  "keeps_tables (on_rutabaga mr)" "keeps_tables (on_backend mb)"
  by (simp_all add: keeps_tables_def return_method_def fail_method_def on_rutabaga_def on_backend_def
      tables_def split_beta)

lemma on_backend_tables [simp]:
  "resources (snd (on_backend m g)) = resources g" "scanouts (snd (on_backend m g)) = scanouts g"
  by (simp_all add: on_backend_def split_beta)

lemma on_rutabaga_tables [simp]:
  "resources (snd (on_rutabaga m g)) = resources g" "scanouts (snd (on_rutabaga m g)) = scanouts g"
  by (simp_all add: on_rutabaga_def split_beta)

lemma keeps_tables_bind [intro]:
  assumes "keeps_tables m" "\<And>a. keeps_tables (f a)"
  shows "keeps_tables (bind_method m f)"
  unfolding keeps_tables_def
proof
  fix g
  show "tables (snd (bind_method m f g)) = tables g \<and> gpu_fence_state (snd (bind_method m f g)) = gpu_fence_state g"
    using assms by (cases "fst (m g)") (simp_all add: keeps_tables_def bind_method_def split_beta)
qed

lemma keeps_tables_no_data [simp, intro]: "keeps_tables m \<Longrightarrow> keeps_tables (no_data m)"
  unfolding no_data_def by auto

lemma keeps_tablesD: "keeps_tables m \<Longrightarrow> tables (snd (m g)) = tables g"
  by (simp add: keeps_tables_def)

lemma keeps_fencesD: "keeps_tables m \<Longrightarrow> gpu_fence_state (snd (m g)) = gpu_fence_state g"
  by (simp add: keeps_tables_def)

lemmas keeps_D = keeps_tablesD keeps_fencesD

lemma keeps_tables_snd:
  "keeps_tables m \<Longrightarrow> m g = (r, g') \<Longrightarrow> tables g' = tables g \<and> gpu_fence_state g' = gpu_fence_state g"
  using keeps_D [of m g] by simp

lemma keeps_tables_read_2d: "keeps_tables (read_2d_resource dbg ro res n)"
  by (simp add: keeps_tables_def read_2d_resource_def tables_def split_beta split: rust.splits)

lemma keeps_tables_flush_scanout: "keeps_tables (flush_scanout dbg ro bo res i)"
  unfolding keeps_tables_def flush_scanout_def
  by (auto simp: keeps_D [OF keeps_tables_prims(4)] dest: keeps_tables_snd [OF keeps_tables_read_2d]
      split: rust.splits prod.splits)

lemma keeps_tables_flush_scanouts: "keeps_tables (flush_scanouts dbg ro bo res is)"
  by (induction "is") (auto intro: keeps_tables_flush_scanout)

lemma keeps_tables_flush_resource: "keeps_tables (flush_resource dbg ro bo resource_id rect)"
  unfolding keeps_tables_def flush_resource_def
  by (auto simp: keeps_D [OF keeps_tables_no_data [OF keeps_tables_flush_scanouts]] split: option.splits)

lemma keeps_tables_update_cursor: "keeps_tables (update_cursor dbg ro bo resource_id pos hx hy)"
  unfolding keeps_tables_def update_cursor_def
  by (auto simp: keeps_D [OF keeps_tables_no_data [OF keeps_tables_prims(4)]]
      dest: keeps_tables_snd [OF keeps_tables_read_2d] split: rust.splits prod.splits option.splits)

lemma keeps_tables_get_edid: "keeps_tables (get_edid bo i)"
  unfolding get_edid_def by (rule keeps_tables_bind, simp) (simp add: keeps_tables_def split_beta)

lemma keeps_tables_others:
  "keeps_tables (display_info bo)" "keeps_tables (transfer_write ro ctx_id resource_id t)"
  "keeps_tables (transfer_read ro ctx_id resource_id t buf)" "keeps_tables (attach_backing ro resource_id iovecs)"
  "keeps_tables (detach_backing ro resource_id)" "keeps_tables (move_cursor bo resource_id cursor)"
  "keeps_tables not_implemented" "keeps_tables (create_context ro ctx_id context_init name)"
  "keeps_tables (destroy_context ro ctx_id)" "keeps_tables (context_attach_resource ro ctx_id resource_id)"
  "keeps_tables (context_detach_resource ro ctx_id resource_id)" "keeps_tables (submit_command ro ctx_id cmds ids)"
  "keeps_tables (create_fence ro f)"
  unfolding display_info_def transfer_write_def transfer_read_def attach_backing_def detach_backing_def
    move_cursor_def not_implemented_def create_context_def destroy_context_def context_attach_resource_def
    context_detach_resource_def submit_command_def create_fence_def
  by (simp_all add: keeps_tables_bind)

lemma keeps_tables_capsets:
  "keeps_tables (get_capset_info ro index)" "keeps_tables (get_capset ro capset_id version)"
  by (simp_all add: keeps_tables_def get_capset_info_def get_capset_def)

lemmas tables_kept = keeps_tables_others keeps_tables_capsets keeps_tables_get_edid keeps_tables_flush_resource keeps_tables_update_cursor

section \<open>Scanouts and resources agree\<close>

text \<open>A scanout shows a resource exactly when the resource lists the scanout.\<close>

definition consistent_tables :: "(u32 \<Rightarrow> virtio_gpu_resource option) \<times> u32 option list \<Rightarrow> bool" where
  "consistent_tables t \<longleftrightarrow>
     (let (rs, ss) = t in
       length ss = 16 \<and>
       (\<forall>i<16. \<forall>r. ss ! i = Some r \<longleftrightarrow> (\<exists>res. rs r = Some res \<and> bit (res_scanouts res) i)) \<and>
       (\<forall>r res. rs r = Some res \<longrightarrow> res_id res = r \<and> (\<forall>i. bit (res_scanouts res) i \<longrightarrow> i < 16)))"

definition consistent :: "('r, 'b) rutabaga_virtio_gpu \<Rightarrow> bool" where
  "consistent g \<longleftrightarrow> consistent_tables (tables g)"

lemma consistent_keeps: "keeps_tables m \<Longrightarrow> consistent g \<Longrightarrow> consistent (snd (m g))"
  by (simp add: consistent_def keeps_tables_def)

lemma consistent_new: "consistent (rutabaga_virtio_gpu_new r b)"
  by (simp add: consistent_def consistent_tables_def tables_def rutabaga_virtio_gpu_new_def
      VIRTIO_GPU_MAX_SCANOUTS_def)

lemma consistent_length: "consistent g \<Longrightarrow> length (scanouts g) = 16"
  by (simp add: consistent_def consistent_tables_def tables_def)

lemma consistent_shown:
  "consistent g \<Longrightarrow> i < 16 \<Longrightarrow> scanouts g ! i = Some r \<longleftrightarrow> (\<exists>res. resources g r = Some res \<and> bit (res_scanouts res) i)"
  by (simp add: consistent_def consistent_tables_def tables_def)

text \<open>The two halves of \<open>set_scanout\<close> on the tables.\<close>

definition without_scanout ::
  "u32 \<Rightarrow> (u32 \<Rightarrow> virtio_gpu_resource option) \<times> u32 option list \<Rightarrow> (u32 \<Rightarrow> virtio_gpu_resource option) \<times> u32 option list" where
  "without_scanout i t =
     (case snd t ! unat i of
        None \<Rightarrow> t
      | Some old \<Rightarrow>
          (case fst t old of
             None \<Rightarrow> t
           | Some res \<Rightarrow> ((fst t)(old \<mapsto> res\<lparr>res_scanouts := scanouts_disable i (res_scanouts res)\<rparr>),
                          (snd t)[unat i := None])))"

definition with_scanout ::
  "u32 \<Rightarrow> u32 \<Rightarrow> (u32 \<Rightarrow> virtio_gpu_resource option) \<times> u32 option list \<Rightarrow> (u32 \<Rightarrow> virtio_gpu_resource option) \<times> u32 option list" where
  "with_scanout i r t =
     (case fst t r of
        None \<Rightarrow> t
      | Some res \<Rightarrow> ((fst t)(r \<mapsto> res\<lparr>res_scanouts := scanouts_enable i (res_scanouts res)\<rparr>),
                     (snd t)[unat i := Some r]))"

lemma consistent_unique:
  assumes "consistent_tables (rs, ss)" "i < 16"
    and "rs a = Some x" "bit (res_scanouts x) i" "rs b = Some y" "bit (res_scanouts y) i"
  shows "a = b"
proof -
  have "ss ! i = Some r \<longleftrightarrow> (\<exists>res. rs r = Some res \<and> bit (res_scanouts res) i)" for r
    using assms(1,2) by (simp add: consistent_tables_def)
  with assms(3-6) have "ss ! i = Some a" "ss ! i = Some b" by blast+
  then show ?thesis by simp
qed

lemma without_scanout_consistent:
  assumes "consistent_tables t" "unat i < 16"
  shows "consistent_tables (without_scanout i t)" "snd (without_scanout i t) ! unat i = None"
    "fst (without_scanout i t) r = None \<longleftrightarrow> fst t r = None"
proof -
  obtain rs ss where t: "t = (rs, ss)" by fastforce
  have b: "bit (scanouts_disable i s) j \<longleftrightarrow> bit s j \<noteq> (j = unat i)" for s j
    using assms(2) by (intro bit_scanouts_disable) simp
  note u = consistent_unique [OF assms(1) [unfolded t] assms(2)]
  show "consistent_tables (without_scanout i t)" "snd (without_scanout i t) ! unat i = None"
    using assms by (auto simp: t without_scanout_def consistent_tables_def b nth_list_update split: option.splits dest: u)
  show "fst (without_scanout i t) r = None \<longleftrightarrow> fst t r = None"
    by (auto simp: t without_scanout_def split: option.splits)
qed

lemma with_scanout_consistent:
  assumes "consistent_tables t" "unat i < 16" "snd t ! unat i = None" "fst t r \<noteq> None"
  shows "consistent_tables (with_scanout i r t)"
proof -
  obtain rs ss where t: "t = (rs, ss)" by fastforce
  have b: "bit (scanouts_enable i s) j \<longleftrightarrow> bit s j \<or> j = unat i" for s j
    using assms(2) by (intro bit_scanouts_enable) simp
  show ?thesis
    using assms by (auto simp: t with_scanout_def consistent_tables_def b nth_list_update split: option.splits)
qed

lemma disassociate_ok:
  assumes "consistent g" "unat i < 16"
  shows "disassociate i g = (Ok (), g\<lparr>resources := fst (without_scanout i (tables g))\<rparr>)"
proof (cases "scanouts g ! unat i")
  case None
  then show ?thesis by (simp add: disassociate_def without_scanout_def tables_def)
next
  case (Some old)
  with consistent_shown [OF assms] obtain res where "resources g old = Some res" by blast
  with Some show ?thesis by (simp add: disassociate_def without_scanout_def tables_def)
qed

lemma without_scanout_snd:
  assumes "consistent g" "unat i < 16"
  shows "(scanouts g)[unat i := x] = (snd (without_scanout i (tables g)))[unat i := x]"
  by (simp add: without_scanout_def tables_def split: option.splits)

lemma set_scanout_disable_tables:
  assumes "consistent g" "unat i < 16"
  shows "tables (snd (set_scanout bo i 0 rect g)) = without_scanout i (tables g)"
proof -
  let ?t = "without_scanout i (tables g)"
  have n: "snd ?t ! unat i = None"
    using assms by (intro without_scanout_consistent) (simp_all add: consistent_def)
  have "(scanouts g)[unat i := None] = snd ?t"
    using without_scanout_snd [OF assms] n by (simp add: list_update_id [of "snd ?t" "unat i", unfolded n])
  with assms show ?thesis
    by (simp add: set_scanout_def consistent_length bind_method_def disassociate_ok
        keeps_tablesD [OF keeps_tables_no_data [OF keeps_tables_prims(4)]] tables_def [of "_ \<lparr>scanouts := _\<rparr>"])
qed

text \<open>Showing an existing resource. A scanout that is off is announced to the frontend first, and stays
  off when that fails.\<close>

lemma set_scanout_enable_tables:
  assumes "consistent g" "unat i < 16" "r \<noteq> 0" "resources g r \<noteq> None"
  shows "tables (snd (set_scanout bo i r rect g)) =
    (if is_ok (fst (set_scanout bo i r rect g)) then with_scanout i r (without_scanout i (tables g)) else tables g)"
proof (cases "scanouts g ! unat i")
  case None
  then have w: "without_scanout i (tables g) = tables g" by (simp add: without_scanout_def tables_def)
  from assms(4) obtain res where "resources g r = Some res" by blast
  with assms None w show ?thesis
    by (cases "fst (on_backend (be_set_scanout bo i (rc_width rect) (rc_height rect)) g)")
      (simp_all add: set_scanout_def consistent_length bind_method_def disassociate_ok with_scanout_def
        tables_def split_beta)
next
  case (Some old)
  have "fst (without_scanout i (tables g)) r \<noteq> None"
    using without_scanout_consistent(3) [of "tables g" i r] assms by (simp add: consistent_def tables_def)
  then obtain res where "fst (without_scanout i (tables g)) r = Some res" by blast
  with assms Some without_scanout_snd [OF assms(1,2)] show ?thesis
    by (simp add: set_scanout_def consistent_length bind_method_def disassociate_ok with_scanout_def
        return_method_def tables_def)
qed

lemma set_scanout_consistent:
  assumes "consistent g" "resource_id = 0 \<or> resources g resource_id \<noteq> None"
  shows "consistent (snd (set_scanout bo i resource_id rect g))"
proof (cases "unat i < 16")
  case False
  with assms(1) show ?thesis by (simp add: set_scanout_def consistent_length)
next
  case True
  let ?t = "without_scanout i (tables g)"
  have t: "consistent_tables ?t" "snd ?t ! unat i = None" "fst ?t resource_id = None \<longleftrightarrow> resources g resource_id = None"
    using without_scanout_consistent [of "tables g" i] assms(1) True by (simp_all add: consistent_def tables_def)
  show ?thesis
  proof (cases "resource_id = 0")
    case zero: True
    with t(1) show ?thesis
      using set_scanout_disable_tables [OF assms(1) True] by (simp add: consistent_def)
  next
    case False
    with assms(2) have r: "resources g resource_id \<noteq> None" by simp
    with t have "consistent_tables (with_scanout i resource_id ?t)"
      using True by (intro with_scanout_consistent) simp_all
    with set_scanout_enable_tables [OF assms(1) True False r] assms(1) show ?thesis
      by (simp add: consistent_def)
  qed
qed

lemma set_scanout_unknown_scanout:
  "consistent g \<Longrightarrow> 16 \<le> unat i \<Longrightarrow> set_scanout bo i resource_id rect g = (Err ErrInvalidScanoutId, g)"
  by (simp add: set_scanout_def consistent_length)

text \<open>When the frontend accepts, the scanout shows the new resource and the others what they showed.\<close>

lemma set_scanout_shows:
  assumes "consistent g" "unat i < 16" "r \<noteq> 0" "resources g r \<noteq> None"
    and "is_ok (fst (set_scanout bo i r rect g))"
  shows "scanouts (snd (set_scanout bo i r rect g)) = (scanouts g)[unat i := Some r]"
proof -
  have "fst (without_scanout i (tables g)) r \<noteq> None"
    using without_scanout_consistent(3) [of "tables g" i r] assms(1,2,4) by (simp add: consistent_def tables_def)
  then have "snd (tables (snd (set_scanout bo i r rect g))) = (snd (without_scanout i (tables g)))[unat i := Some r]"
    using set_scanout_enable_tables [OF assms(1-4)] assms(5) by (auto simp: with_scanout_def)
  then show ?thesis using without_scanout_snd [OF assms(1,2)] by (simp add: tables_def)
qed

section \<open>Creating and releasing resources\<close>

lemma resource_create_consistent:
  assumes "consistent g" "resources g resource_id = None"
  shows "consistent (snd (resource_create_3d_op dbg ro resource_id rc g))"
proof (cases "fst (on_rutabaga (rut_resource_create_3d ro resource_id rc) g)")
  case (Ok u)
  with assms show ?thesis
    by (auto simp: resource_create_3d_op_def bind_method_def split_beta consistent_def consistent_tables_def
        tables_def virtio_gpu_resource_new_def Let_def)
qed (use assms in \<open>auto simp: resource_create_3d_op_def bind_method_def split_beta consistent_def tables_def\<close>)

lemma unref_resource_consistent:
  assumes "consistent g" "\<And>res. resources g resource_id = Some res \<Longrightarrow> \<not> has_any_enabled (res_scanouts res)"
  shows "consistent (snd (unref_resource ro resource_id g))"
proof (cases "resources g resource_id")
  case None
  then have "(resources g)(resource_id := None) = resources g" by (simp add: fun_upd_idem)
  with None assms(1) show ?thesis by (simp add: unref_resource_def consistent_def tables_def)
next
  case (Some res)
  have "\<not> bit (res_scanouts res) i" for i using assms(2) [OF Some] by (auto simp: has_any_enabled_iff)
  moreover have "tables (snd (unref_resource ro resource_id g)) = ((resources g)(resource_id := None), scanouts g)"
    using Some assms(2) [OF Some]
    by (simp add: unref_resource_def keeps_tablesD [OF keeps_tables_no_data [OF keeps_tables_prims(3)]] tables_def [of "_\<lparr>resources := _\<rparr>"])
  ultimately show ?thesis
    using Some assms(1) unfolding consistent_def by (auto simp: tables_def consistent_tables_def)
qed

text \<open>Releasing a resource that is shown is refused, but the table has lost it; from then on no call can
  change what its scanouts show.\<close>

lemma unref_shown_resource:
  assumes "consistent g" "i < 16" "scanouts g ! i = Some r"
  shows "fst (unref_resource ro r g) = Err ErrUnspec" "resources (snd (unref_resource ro r g)) r = None"
    "scanouts (snd (unref_resource ro r g)) = scanouts g" "\<not> consistent (snd (unref_resource ro r g))"
proof -
  obtain res where res: "resources g r = Some res" "bit (res_scanouts res) i"
    using consistent_shown [OF assms(1,2)] assms(3) by blast
  then have "has_any_enabled (res_scanouts res)" by (auto simp: has_any_enabled_iff)
  with res(1) show 1: "fst (unref_resource ro r g) = Err ErrUnspec" "resources (snd (unref_resource ro r g)) r = None"
    "scanouts (snd (unref_resource ro r g)) = scanouts g" by (simp_all add: unref_resource_def)
  show "\<not> consistent (snd (unref_resource ro r g))"
    using consistent_shown [of "snd (unref_resource ro r g)" i r] assms(2,3) 1(2,3) by auto
qed

lemma set_scanout_stuck:
  assumes "unat i < length (scanouts g)" "scanouts g ! unat i = Some r" "resources g r = None"
  shows "set_scanout bo i resource_id rect g = (Err ErrInvalidResourceId, g)"
  using assms by (simp add: set_scanout_def disassociate_def bind_method_def)

text \<open>None of the three touches the fences.\<close>

lemma on_backend_fences [simp]: "gpu_fence_state (snd (on_backend m g)) = gpu_fence_state g"
  by (simp add: on_backend_def split_beta)

lemma on_rutabaga_fences [simp]: "gpu_fence_state (snd (on_rutabaga m g)) = gpu_fence_state g"
  by (simp add: on_rutabaga_def split_beta)

lemma bind_method_fences:
  assumes "gpu_fence_state (snd (m g)) = gpu_fence_state g"
    and "\<And>a g'. gpu_fence_state (snd (f a g')) = gpu_fence_state g'"
  shows "gpu_fence_state (snd (bind_method m f g)) = gpu_fence_state g"
  using assms by (cases "fst (m g)") (simp_all add: bind_method_def split_beta)

lemma set_scanout_fences: "gpu_fence_state (snd (set_scanout bo i r rect g)) = gpu_fence_state g"
proof -
  have "gpu_fence_state (snd (disassociate i g)) = gpu_fence_state g"
    by (simp add: disassociate_def split: option.splits)
  then show ?thesis
    unfolding set_scanout_def
    by (auto simp: keeps_fencesD [OF keeps_tables_no_data [OF keeps_tables_prims(4)]] return_method_def
        intro!: bind_method_fences split: option.splits)
qed

lemma resource_create_fences: "gpu_fence_state (snd (resource_create_3d_op dbg ro r rc g)) = gpu_fence_state g"
  unfolding resource_create_3d_op_def by (rule bind_method_fences) (simp_all add: Let_def)

lemma unref_resource_fences: "gpu_fence_state (snd (unref_resource ro r g)) = gpu_fence_state g"
  by (simp add: unref_resource_def Let_def keeps_fencesD [OF keeps_tables_no_data [OF keeps_tables_prims(3)]]
      split: option.splits)

section \<open>Flushing\<close>

text \<open>With a renderer that can read the resource and a frontend that accepts updates and keeps what it
  got, a flush sends one update for every scanout in turn.\<close>

definition shown_update :: "virtio_gpu_resource \<Rightarrow> u32 \<Rightarrow> gpu_update" where
  "shown_update res i =
     \<lparr>up_scanout_id = i, up_x = 0, up_y = 0, up_width = res_width res, up_height = res_height res\<rparr>"

definition readable :: "'r rutabaga_ops \<Rightarrow> virtio_gpu_resource \<Rightarrow> bool" where
  "readable ro res \<longleftrightarrow>
     (\<forall>t n r. is_ok (fst (rut_transfer_read ro 0 (res_id res) t n r)))"

definition accepts_updates :: "'b backend_ops \<Rightarrow> ('b \<Rightarrow> gpu_update list) \<Rightarrow> bool" where
  "accepts_updates bo updates \<longleftrightarrow>
     (\<forall>u d b. fst (be_update_scanout bo u d b) = Ok () \<and>
              updates (snd (be_update_scanout bo u d b)) = updates b @ [u])"

definition small :: "virtio_gpu_resource \<Rightarrow> bool" where
  "small res \<longleftrightarrow> unat (res_width res) * unat (res_height res) * 4 < 2 ^ 63 \<and> unat (res_width res) * 4 < 2 ^ 32"

lemma small_size: "small res \<Longrightarrow> calculate_size res = Ok (unat (res_width res) * unat (res_height res) * 4)"
proof -
  assume "small res"
  then have "unat (res_width res) * unat (res_height res) * 4 \<le> 2 ^ 63" unfolding small_def by (rule conjE) (rule less_imp_le)
  also have "\<dots> \<le> usize_max" by (simp add: usize_max_def)
  finally show ?thesis unfolding calculate_size_cases by (rule if_P)
qed

lemma read_2d_resource_ok:
  assumes "small res" "readable ro res" "unat (res_width res) * unat (res_height res) * 4 \<le> n"
  shows "is_ok (fst (read_2d_resource dbg ro res n g)) \<and> gpu_backend (snd (read_2d_resource dbg ro res n g)) = gpu_backend g"
  using assms
  by (auto simp: read_2d_resource_def small_size split_beta small_def [of res] readable_def
      READ_RESOURCE_BYTES_PER_PIXEL_def map_err_def is_ok_def split: rust.splits)

lemma flush_scanout_sends:
  assumes "small res" "readable ro res" "accepts_updates bo updates"
  shows "fst (flush_scanout dbg ro bo res i g) = Ok ()"
    "updates (gpu_backend (snd (flush_scanout dbg ro bo res i g))) = updates (gpu_backend g) @ [shown_update res i]"
proof -
  let ?n = "unat (res_width res) * unat (res_height res) * 4"
  obtain d g' where r: "read_2d_resource dbg ro res ?n g = (Ok d, g')" "gpu_backend g' = gpu_backend g"
    using read_2d_resource_ok [OF assms(1,2) order.refl, of dbg g]
    by (cases "read_2d_resource dbg ro res ?n g"; cases "fst (read_2d_resource dbg ro res ?n g)") auto
  have "flush_scanout dbg ro bo res i g = on_backend (be_update_scanout bo (shown_update res i) d) g'"
    using assms(1) r(1) by (simp add: flush_scanout_def small_size small_def [of res] shown_update_def)
  with assms(3) r(2) show "fst (flush_scanout dbg ro bo res i g) = Ok ()"
    "updates (gpu_backend (snd (flush_scanout dbg ro bo res i g))) = updates (gpu_backend g) @ [shown_update res i]"
    by (simp_all add: on_backend_def split_beta accepts_updates_def)
qed

lemma flush_scanouts_sends:
  assumes "small res" "readable ro res" "accepts_updates bo updates"
  shows "fst (flush_scanouts dbg ro bo res is g) = Ok () \<and>
    updates (gpu_backend (snd (flush_scanouts dbg ro bo res is g))) = updates (gpu_backend g) @ map (shown_update res) is"
proof (induction "is" arbitrary: g)
  case Nil
  then show ?case by (simp add: return_method_def)
next
  case (Cons i "is")
  with flush_scanout_sends [OF assms, of dbg i g] show ?case
    by (simp add: bind_method_Ok)
qed

lemma flush_resource_sends:
  assumes "consistent g" "r \<noteq> 0" "resources g r = Some res"
    and "small res" "readable ro res" "accepts_updates bo updates"
  shows "fst (flush_resource dbg ro bo r rect g) = Ok OkNoData \<and>
    updates (gpu_backend (snd (flush_resource dbg ro bo r rect g)))
      = updates (gpu_backend g) @ map (shown_update res \<circ> of_nat) (filter (\<lambda>i. scanouts g ! i = Some r) [0..<16])"
proof -
  have "filter (bit (res_scanouts res)) [0..<16] = filter (\<lambda>i. scanouts g ! i = Some r) [0..<16]"
    using consistent_shown [OF assms(1)] assms(3) by (intro filter_cong) auto
  with flush_scanouts_sends [OF assms(4-6), of dbg "iter_enabled (res_scanouts res)" g] assms(2,3) show ?thesis
    by (simp add: flush_resource_def no_data_def bind_method_Ok return_method_def iter_enabled_bits)
qed

section \<open>Properties\<close>


text \<open>A device that shows resource 7 on scanout 1, with a renderer and a frontend that accept everything.\<close>

definition easy_backend :: "gpu_update list backend_ops" where
  "easy_backend = \<lparr>be_get_display_info = (\<lambda>b. (Ok [(640, 480, 1)], b)), be_get_edid = (\<lambda>_ b. (Ok (0, []), b)),
     be_set_scanout = (\<lambda>_ _ _ b. (Ok (), b)), be_update_scanout = (\<lambda>u _ b. (Ok (), b @ [u])),
     be_cursor_update = (\<lambda>_ _ _ _ b. (Ok (), b)), be_cursor_pos = (\<lambda>_ b. (Ok (), b)),
     be_cursor_pos_hide = (\<lambda>_ b. (Ok (), b))\<rparr>"

definition easy_renderer :: "unit rutabaga_ops" where
  "easy_renderer = \<lparr>rut_query = (\<lambda>_ _. Err 0), rut_resource_create_3d = (\<lambda>_ _ r. (Ok (), r)),
     rut_unref_resource = (\<lambda>_ r. (Ok (), r)), rut_transfer_write = (\<lambda>_ _ _ r. (Ok (), r)),
     rut_transfer_read = (\<lambda>_ _ _ _ r. (Ok [], r)), rut_attach_backing = (\<lambda>_ _ r. (Ok (), r)),
     rut_detach_backing = (\<lambda>_ r. (Ok (), r)), rut_get_capset_info = (\<lambda>_ _. Err 0), rut_get_capset = (\<lambda>_ _ _. Err 0),
     rut_create_context = (\<lambda>_ _ _ r. (Ok (), r)), rut_destroy_context = (\<lambda>_ r. (Ok (), r)),
     rut_context_attach_resource = (\<lambda>_ _ r. (Ok (), r)), rut_context_detach_resource = (\<lambda>_ _ r. (Ok (), r)),
     rut_submit_command = (\<lambda>_ _ _ r. (Ok (), r)), rut_create_fence = (\<lambda>_ r. (Ok (), r)),
     rut_force_ctx_0 = (\<lambda>r. r), rut_event_poll = (\<lambda>r. r), rut_poll_descriptor = (\<lambda>_. None)\<rparr>"

definition sample_resource :: virtio_gpu_resource where
  "sample_resource = \<lparr>res_id = 7, res_width = 64, res_height = 64, res_scanouts = 2\<rparr>"

definition sample_gpu :: "(unit, gpu_update list) rutabaga_virtio_gpu" where
  "sample_gpu = (rutabaga_virtio_gpu_new () [])
     \<lparr>resources := (\<lambda>r. if r = 7 then Some sample_resource else None),
      scanouts := (replicate 16 None)[1 := Some 7]\<rparr>"

lemma sample_gpu_consistent: "consistent sample_gpu"
proof -
  have b: "bit (res_scanouts sample_resource) i \<longleftrightarrow> i = 1" for i
    using bit_exp_iff [where ?'a = "32 word", of 1 i] by (auto simp: sample_resource_def)
  have id: "res_id sample_resource = 7" by (simp add: sample_resource_def)
  have n: "(replicate 16 None)[Suc 0 := Some 7] ! i = Some r \<longleftrightarrow> i = Suc 0 \<and> r = (7 :: u32)" if "i < 16" for i r
    using that by (cases "i = 1") (auto simp: nth_list_update)
  show ?thesis
    unfolding consistent_def consistent_tables_def tables_def Let_def prod.case
    by (intro conjI allI impI) (auto simp: sample_gpu_def b n id split: if_splits)
qed


text \<open>Releasing a resource that is on screen is answered with an error, but the resource is gone from the
  table and the state is no longer consistent; from then on every attempt to change that scanout, even to
  turn it off, fails and changes nothing.\<close>

lemma unref_shown_resource_sticks:
  assumes "consistent g" "unat i < 16" "scanouts g ! unat i = Some r"
  shows "fst (unref_resource ro r g) = Err ErrUnspec \<and> \<not> consistent (snd (unref_resource ro r g)) \<and>
    set_scanout bo i resource_id rect (snd (unref_resource ro r g)) = (Err ErrInvalidResourceId, snd (unref_resource ro r g))"
proof -
  note u = unref_shown_resource [OF assms, of ro]
  have "unat i < length (scanouts (snd (unref_resource ro r g)))"
    "scanouts (snd (unref_resource ro r g)) ! unat i = Some r"
    using u(3) assms consistent_length [OF assms(1)] by simp_all
  from set_scanout_stuck [OF this u(2)] u(1,4) show ?thesis by simp
qed

lemma unref_shown_resource_sticks_witness:
  "fst (unref_resource easy_renderer 7 sample_gpu) = Err ErrUnspec \<and>
   fst (set_scanout easy_backend 1 0 \<lparr>rc_x = 0, rc_y = 0, rc_width = 0, rc_height = 0\<rparr>
     (snd (unref_resource easy_renderer 7 sample_gpu))) = Err ErrInvalidResourceId"
  using unref_shown_resource_sticks [OF sample_gpu_consistent, of 1 7 easy_renderer easy_backend 0]
  by (simp add: sample_gpu_def)



end
