(* ===== verification/Gpu_Worker.thy ===== *)
theory Gpu_Worker
  imports Rutabaga_Gpu "HOL-Library.Multiset"
begin

text \<open>
  The worker of the gpu device, \<^verbatim>\<open>virtio-gpu/src/worker.rs\<close>: it takes descriptor chains from the
  control and the cursor queue, decodes the command of each, dispatches it to the \<^verbatim>\<open>VirtioGpu\<close> and
  puts the response into the chain, which goes to the used ring at once or when its fence
  completes. The virtio queue is the parameter \<open>qo\<close>, with \<open>worker_queue_contract\<close> for what the
  crate \<^verbatim>\<open>virtio_queue\<close> documents; a popped chain carries its head index and what making a reader
  and a writer for it gives. \<open>env\<close> holds the constants and the constructor of \<^verbatim>\<open>rutabaga_gfx\<close> that are used.
\<close>

section \<open>Errors, environment and queue\<close>

datatype device_error =
    HandleEventNotEpollIn
  | HandleEventUnknown
  | DevDescriptorReadFailed
  | DevDescriptorWriteFailed
  | InvalidCommandType u32
  | NotificationFailed io_error
  | EventFdFailed
  | CreateIteratorDescChain nat
  | CreateReader nat
  | CreateWriter nat
  | GpuCommandDecode gpu_command_decode_error
  | GpuResponseEncode gpu_response_encode_error
  | QueueAddUsed nat
  | EpollHandler string
  | RegisterEpollListener io_error

record gpu_env =
  env_ct :: "ctrl_type \<Rightarrow> u32"
  env_texture_2d :: u32
  env_bind_render_target :: u32
  env_new_2d :: "u32 \<Rightarrow> u32 \<Rightarrow> u32 \<Rightarrow> u32 \<Rightarrow> u64 \<Rightarrow> transfer_3d"
  env_get_slice :: "u64 \<Rightarrow> nat \<Rightarrow> u64 option"

section \<open>Command handlers\<close>

definition handle_get_edid :: "'g virtio_gpu_ops \<Rightarrow> virtio_gpu_get_edid \<Rightarrow> ('g, gpu_response, gpu_response) rust_method" where
  "handle_get_edid vg req = vg_get_edid vg (ge_scanout req)"

definition handle_resource_create_2d ::
  "gpu_env \<Rightarrow> 'g virtio_gpu_ops \<Rightarrow> virtio_gpu_resource_create_2d \<Rightarrow> ('g, gpu_response, gpu_response) rust_method" where
  "handle_resource_create_2d env vg req =
     vg_resource_create_3d vg (c2_resource_id req)
       \<lparr>r3_target = env_texture_2d env, r3_format = c2_format req, r3_bind = env_bind_render_target env,
        r3_width = c2_width req, r3_height = c2_height req, r3_depth = 1, r3_array_size = 1,
        r3_last_level = 0, r3_nr_samples = 0, r3_flags = 0\<rparr>"

definition handle_transfer_to_host_2d ::
  "gpu_env \<Rightarrow> 'g virtio_gpu_ops \<Rightarrow> virtio_gpu_transfer_to_host_2d \<Rightarrow> ('g, gpu_response, gpu_response) rust_method" where
  "handle_transfer_to_host_2d env vg req =
     vg_transfer_write vg 0 (t2_resource_id req)
       (env_new_2d env (rect_x (t2_r req)) (rect_y (t2_r req)) (rect_width (t2_r req)) (rect_height (t2_r req)) (t2_offset req))"

definition cursor_pos_from :: "virtio_gpu_cursor_pos \<Rightarrow> cursor_pos" where
  "cursor_pos_from p = \<lparr>pos_scanout_id = cp_scanout_id p, pos_x = cp_x p, pos_y = cp_y p\<rparr>"

definition handle_update_cursor :: "'g virtio_gpu_ops \<Rightarrow> virtio_gpu_update_cursor \<Rightarrow> ('g, gpu_response, gpu_response) rust_method" where
  "handle_update_cursor vg req =
     vg_update_cursor vg (uc_resource_id req) (cursor_pos_from (uc_pos req)) (uc_hot_x req) (uc_hot_y req)"

definition handle_move_cursor :: "'g virtio_gpu_ops \<Rightarrow> virtio_gpu_update_cursor \<Rightarrow> ('g, gpu_response, gpu_response) rust_method" where
  "handle_move_cursor vg req = vg_move_cursor vg (uc_resource_id req) (cursor_pos_from (uc_pos req))"

definition handle_ctx_create ::
  "'g virtio_gpu_ops \<Rightarrow> virtio_gpu_ctrl_hdr \<Rightarrow> virtio_gpu_ctx_create \<Rightarrow> ('g, gpu_response, gpu_response) rust_method" where
  "handle_ctx_create vg hdr req =
     vg_create_context vg (hdr_ctx_id hdr) (cc_context_init req) (Some (get_debug_name req))"

definition handle_resource_create_3d ::
  "'g virtio_gpu_ops \<Rightarrow> virtio_gpu_resource_create_3d \<Rightarrow> ('g, gpu_response, gpu_response) rust_method" where
  "handle_resource_create_3d vg req =
     vg_resource_create_3d vg (c3_resource_id req)
       \<lparr>r3_target = c3_target req, r3_format = c3_format req, r3_bind = c3_bind req,
        r3_width = c3_width req, r3_height = c3_height req, r3_depth = c3_depth req,
        r3_array_size = c3_array_size req, r3_last_level = c3_last_level req,
        r3_nr_samples = c3_nr_samples req, r3_flags = c3_flags req\<rparr>"

definition transfer_3d_from :: "virtio_gpu_transfer_host_3d \<Rightarrow> transfer_3d" where
  "transfer_3d_from req =
     \<lparr>tr_x = bx_x (t3_box req), tr_y = bx_y (t3_box req), tr_z = bx_z (t3_box req),
      tr_w = bx_w (t3_box req), tr_h = bx_h (t3_box req), tr_d = bx_d (t3_box req),
      tr_level = t3_level req, tr_stride = t3_stride req, tr_layer_stride = t3_layer_stride req,
      tr_offset = t3_offset req\<rparr>"

definition handle_transfer_to_host_3d ::
  "'g virtio_gpu_ops \<Rightarrow> u32 \<Rightarrow> virtio_gpu_transfer_host_3d \<Rightarrow> ('g, gpu_response, gpu_response) rust_method" where
  "handle_transfer_to_host_3d vg ctx_id req = vg_transfer_write vg ctx_id (t3_resource_id req) (transfer_3d_from req)"

definition handle_transfer_from_host_3d ::
  "'g virtio_gpu_ops \<Rightarrow> u32 \<Rightarrow> virtio_gpu_transfer_host_3d \<Rightarrow> ('g, gpu_response, gpu_response) rust_method" where
  "handle_transfer_from_host_3d vg ctx_id req = vg_transfer_read vg ctx_id (t3_resource_id req) (transfer_3d_from req) None"

definition rutabaga_iovecs_from_guest_mem ::
  "(u64 \<Rightarrow> nat \<Rightarrow> u64 option) \<Rightarrow> (u64 \<times> nat) list \<Rightarrow> (rutabaga_iovec list, gpu_response) rust" where
  "rutabaga_iovecs_from_guest_mem get_slice vecs =
     (if list_ex (\<lambda>(addr, len). get_slice addr len = None) vecs then Err ErrInvalidParameter
      else Ok (map (\<lambda>(addr, len). \<lparr>iov_base = the (get_slice addr len), iov_len = len\<rparr>) vecs))"

definition panic_method :: "('s, 'a, 'e) rust_method" where
  "panic_method s = (Panic, s)"

fun dispatch ::
  "gpu_env \<Rightarrow> 'g virtio_gpu_ops \<Rightarrow> virtio_gpu_ctrl_hdr \<Rightarrow> gpu_command \<Rightarrow> ('g, gpu_response, gpu_response) rust_method" where
  "dispatch env vg hdr GetDisplayInfo = vg_display_info vg"
| "dispatch env vg hdr (GetEdid req) = handle_get_edid vg req"
| "dispatch env vg hdr (ResourceCreate2d req) = handle_resource_create_2d env vg req"
| "dispatch env vg hdr (ResourceUnref req) = vg_unref_resource vg (ru_resource_id req)"
| "dispatch env vg hdr (SetScanout req) =
     vg_set_scanout vg (ss_scanout_id req) (ss_resource_id req) (rectangle_from (ss_r req))"
| "dispatch env vg hdr (ResourceFlush req) = vg_flush_resource vg (rf_resource_id req) (rectangle_from (rf_r req))"
| "dispatch env vg hdr (TransferToHost2d req) = handle_transfer_to_host_2d env vg req"
| "dispatch env vg hdr (ResourceAttachBacking req iovecs) =
     (case rutabaga_iovecs_from_guest_mem (env_get_slice env) iovecs of
        Ok vecs \<Rightarrow> vg_attach_backing vg (ab_resource_id req) vecs
      | Err e \<Rightarrow> fail_method e
      | Panic \<Rightarrow> panic_method)"
| "dispatch env vg hdr (ResourceDetachBacking req) = vg_detach_backing vg (db_resource_id req)"
| "dispatch env vg hdr (UpdateCursor req) = handle_update_cursor vg req"
| "dispatch env vg hdr (MoveCursor req) = handle_move_cursor vg req"
| "dispatch env vg hdr (ResourceAssignUuid _) = panic_method"
| "dispatch env vg hdr (GetCapsetInfo req) = vg_get_capset_info vg (gi_capset_index req)"
| "dispatch env vg hdr (GetCapset req) = vg_get_capset vg (gc_capset_id req) (gc_capset_version req)"
| "dispatch env vg hdr (CtxCreate req) = handle_ctx_create vg hdr req"
| "dispatch env vg hdr (CtxDestroy _) = vg_destroy_context vg (hdr_ctx_id hdr)"
| "dispatch env vg hdr (CtxAttachResource req) = vg_context_attach_resource vg (hdr_ctx_id hdr) (cr_resource_id req)"
| "dispatch env vg hdr (CtxDetachResource req) = vg_context_detach_resource vg (hdr_ctx_id hdr) (cr_resource_id req)"
| "dispatch env vg hdr (ResourceCreate3d req) = handle_resource_create_3d vg req"
| "dispatch env vg hdr (TransferToHost3d req) = handle_transfer_to_host_3d vg (hdr_ctx_id hdr) req"
| "dispatch env vg hdr (TransferFromHost3d req) = handle_transfer_from_host_3d vg (hdr_ctx_id hdr) req"
| "dispatch env vg hdr (CmdSubmit3d data ids) = vg_submit_command vg (hdr_ctx_id hdr) data ids"
| "dispatch env vg hdr (ResourceCreateBlob _) = panic_method"
| "dispatch env vg hdr (SetScanoutBlob _) = panic_method"
| "dispatch env vg hdr (ResourceMapBlob _) = panic_method"
| "dispatch env vg hdr (ResourceUnmapBlob _) = panic_method"

definition process_gpu_command ::
  "gpu_env \<Rightarrow> 'g virtio_gpu_ops \<Rightarrow> virtio_gpu_ctrl_hdr \<Rightarrow> gpu_command \<Rightarrow> ('g, gpu_response, gpu_response) rust_method" where
  "process_gpu_command env vg hdr cmd g = dispatch env vg hdr cmd (vg_force_ctx_0 vg g)"

section \<open>Chains\<close>

text \<open>The first part of \<^verbatim>\<open>process_queue_chain\<close>: decode and execute. A command that cannot be decoded is
  answered with \<^verbatim>\<open>ErrUnspec\<close> and no header.\<close>

definition execute_chain ::
  "gpu_env \<Rightarrow> 'rd reader \<Rightarrow> 'g virtio_gpu_ops \<Rightarrow> 'rd \<Rightarrow> 'g
    \<Rightarrow> (gpu_response \<times> virtio_gpu_ctrl_hdr option, device_error) rust \<times> 'g" where
  "execute_chain env rd vg reader g =
     (case fst (decode (env_ct env) rd reader) of
        Ok (ctrl_hdr, cmd) \<Rightarrow>
          (case process_gpu_command env vg ctrl_hdr cmd g of
             (Ok response, g') \<Rightarrow> (Ok (response, Some ctrl_hdr), g')
           | (Err response, g') \<Rightarrow> (Ok (response, Some ctrl_hdr), g')
           | (Panic, g') \<Rightarrow> (Panic, g'))
      | Err _ \<Rightarrow> (Ok (ErrUnspec, None), g)
      | Panic \<Rightarrow> (Panic, g))"

record response_meta =
  rm_flags :: u32
  rm_fence_id :: u64
  rm_ctx_id :: u32
  rm_ring_idx :: u8

definition no_meta :: response_meta where
  "no_meta = \<lparr>rm_flags = 0, rm_fence_id = 0, rm_ctx_id = 0, rm_ring_idx = 0\<rparr>"

text \<open>The metadata of the response; a command with the fence flag has a fence created for it.\<close>

definition create_chain_fence ::
  "'g virtio_gpu_ops \<Rightarrow> virtio_gpu_ctrl_hdr option \<Rightarrow> gpu_response \<Rightarrow> 'g
    \<Rightarrow> (gpu_response \<times> response_meta, device_error) rust \<times> 'g" where
  "create_chain_fence vg ctrl_hdr response g =
     (case ctrl_hdr of
        None \<Rightarrow> (Ok (response, no_meta), g)
      | Some hdr \<Rightarrow>
          if hdr_flags hdr AND VIRTIO_GPU_FLAG_FENCE \<noteq> 0
          then (let meta = \<lparr>rm_flags = hdr_flags hdr, rm_fence_id = hdr_fence_id hdr,
                            rm_ctx_id = hdr_ctx_id hdr, rm_ring_idx = hdr_ring_idx hdr\<rparr>
                in (case vg_create_fence vg \<lparr>rgf_flags = rm_flags meta, rgf_fence_id = rm_fence_id meta,
                                             rgf_ctx_id = rm_ctx_id meta, rgf_ring_idx = rm_ring_idx meta\<rparr> g of
                      (Ok _, g') \<Rightarrow> (Ok (response, meta), g')
                    | (Err fence_response, g') \<Rightarrow> (Ok (fence_response, meta), g')
                    | (Panic, g') \<Rightarrow> (Panic, g')))
          else (Ok (response, no_meta), g))"

definition add_used ::
  "('q, 'rd, 'w) worker_queue_ops \<Rightarrow> u16 \<Rightarrow> u32 \<Rightarrow> 'q \<Rightarrow> (unit, device_error) rust \<times> 'q" where
  "add_used qo head_index len q = (let (r, q') = wq_add_used qo head_index len q in (map_err QueueAddUsed r, q'))"

text \<open>The last part: put the response into the chain and return the chain, unless its fence is pending.\<close>

definition finish_chain ::
  "gpu_env \<Rightarrow> 'w writer_ops \<Rightarrow> 'g virtio_gpu_ops \<Rightarrow> ('q, 'rd, 'w) worker_queue_ops \<Rightarrow> u16
    \<Rightarrow> gpu_response \<Rightarrow> response_meta \<Rightarrow> 'g \<times> 'q \<times> 'w \<Rightarrow> (bool, device_error) rust \<times> 'g \<times> 'q \<times> 'w" where
  "finish_chain env wo vg qo head_index response meta s =
     (let (g, q, w) = s;
          (r, w') = encode (env_ct env) wo response (rm_flags meta) (rm_fence_id meta) (rm_ctx_id meta) (rm_ring_idx meta) w
      in case r of
           Err e \<Rightarrow> (Err (GpuResponseEncode e), g, q, w')
         | Panic \<Rightarrow> (Panic, g, q, w')
         | Ok response_len \<Rightarrow>
             (let (add_to_queue, g') =
                (if rm_flags meta AND VIRTIO_GPU_FLAG_FENCE \<noteq> 0
                 then vg_process_fence vg (ring_of (rm_flags meta) (rm_ctx_id meta) (rm_ring_idx meta))
                        (rm_fence_id meta) head_index response_len g
                 else (True, g))
              in if add_to_queue
                 then (let (r', q') = add_used qo head_index response_len q in (map_ok (\<lambda>_. True) r', g', q', w'))
                 else (Ok False, g', q, w')))"

definition process_queue_chain ::
  "gpu_env \<Rightarrow> 'rd reader \<Rightarrow> 'w writer_ops \<Rightarrow> 'g virtio_gpu_ops \<Rightarrow> ('q, 'rd, 'w) worker_queue_ops \<Rightarrow> u16 \<Rightarrow> 'rd
    \<Rightarrow> 'g \<times> 'q \<times> 'w \<Rightarrow> (bool, device_error) rust \<times> 'g \<times> 'q \<times> 'w" where
  "process_queue_chain env rd wo vg qo head_index reader s =
     (let (g, q, w) = s in
      case execute_chain env rd vg reader g of
        (Err e, g1) \<Rightarrow> (Err e, g1, q, w)
      | (Panic, g1) \<Rightarrow> (Panic, g1, q, w)
      | (Ok (response, ctrl_hdr), g1) \<Rightarrow>
          if w_available wo w = 0
          then (let (r, q') = add_used qo head_index 0 q in (map_ok (\<lambda>_. True) r, g1, q', w))
          else (case create_chain_fence vg ctrl_hdr response g1 of
                  (Err e, g2) \<Rightarrow> (Err e, g2, q, w)
                | (Panic, g2) \<Rightarrow> (Panic, g2, q, w)
                | (Ok (response', meta), g2) \<Rightarrow> finish_chain env wo vg qo head_index response' meta (g2, q, w)))"

text \<open>The state of \<^verbatim>\<open>process_queue\<close> also records the writer of every chain, which is what the guest sees
  in its buffers. \<open>None\<close> means that the loop does not end.\<close>

type_synonym ('g, 'q, 'w) worker_state = "'g \<times> 'q \<times> (u16 \<times> 'w) list"

partial_function (option) process_queue_loop ::
  "gpu_env \<Rightarrow> 'rd reader \<Rightarrow> 'w writer_ops \<Rightarrow> 'g virtio_gpu_ops \<Rightarrow> ('q, 'rd, 'w) worker_queue_ops
    \<Rightarrow> bool \<Rightarrow> ('g, 'q, 'w) worker_state \<Rightarrow> ((bool, device_error) rust \<times> ('g, 'q, 'w) worker_state) option" where
  "process_queue_loop env rd wo vg qo signal_used s =
     (let (g, q, out) = s; (chain, q1) = wq_pop qo q in
      case chain of
        None \<Rightarrow> Some (Ok signal_used, g, q1, out)
      | Some c \<Rightarrow>
          (case ch_reader c of
             Err e \<Rightarrow> Some (Err (CreateReader e), g, q1, out)
           | Panic \<Rightarrow> Some (Panic, g, q1, out)
           | Ok reader \<Rightarrow>
               (case ch_writer c of
                  Err e \<Rightarrow> Some (Err (CreateWriter e), g, q1, out)
                | Panic \<Rightarrow> Some (Panic, g, q1, out)
                | Ok writer \<Rightarrow>
                    (let (r, g2, q2, w2) = process_queue_chain env rd wo vg qo (ch_head_index c) reader (g, q1, writer);
                         out' = out @ [(ch_head_index c, w2)]
                     in case r of
                          Err e \<Rightarrow> Some (Err e, g2, q2, out')
                        | Panic \<Rightarrow> Some (Panic, g2, q2, out')
                        | Ok used_queue \<Rightarrow>
                            process_queue_loop env rd wo vg qo (signal_used \<or> used_queue) (g2, q2, out')))))"

definition process_queue ::
  "gpu_env \<Rightarrow> 'rd reader \<Rightarrow> 'w writer_ops \<Rightarrow> 'g virtio_gpu_ops \<Rightarrow> ('q, 'rd, 'w) worker_queue_ops
    \<Rightarrow> ('g, 'q, 'w) worker_state \<Rightarrow> ((bool, device_error) rust \<times> ('g, 'q, 'w) worker_state) option" where
  "process_queue env rd wo vg qo = process_queue_loop env rd wo vg qo False"

text \<open>The loop with \<^verbatim>\<open>EVENT_IDX\<close>; \<open>sig\<close> signals the used queue, and its error is unwrapped, as are those
  of the notification calls.\<close>

partial_function (option) event_idx_loop ::
  "gpu_env \<Rightarrow> 'rd reader \<Rightarrow> 'w writer_ops \<Rightarrow> 'g virtio_gpu_ops \<Rightarrow> ('q, 'rd, 'w) worker_queue_ops
    \<Rightarrow> ('q, unit, io_error) rust_method \<Rightarrow> ('g, 'q, 'w) worker_state \<Rightarrow> ((unit, device_error) rust \<times> ('g, 'q, 'w) worker_state) option" where
  "event_idx_loop env rd wo vg qo sig s =
     (let (g, q, out) = s; (d, q1) = wq_disable_notification qo q in
      if \<not> is_ok d then Some (Panic, g, q1, out)
      else (case process_queue env rd wo vg qo (g, q1, out) of
              None \<Rightarrow> None
            | Some (r, g2, q2, out2) \<Rightarrow>
                (case r of
                   Err e \<Rightarrow> Some (Err e, g2, q2, out2)
                 | Panic \<Rightarrow> Some (Panic, g2, q2, out2)
                 | Ok notify \<Rightarrow>
                     (let (sr, q3) = (if notify then sig q2 else (Ok (), q2)) in
                      if \<not> is_ok sr then Some (Panic, g2, q3, out2)
                      else (let (en, q4) = wq_enable_notification qo q3 in
                            case en of
                              Err _ \<Rightarrow> Some (Panic, g2, q4, out2)
                            | Panic \<Rightarrow> Some (Panic, g2, q4, out2)
                            | Ok again \<Rightarrow>
                                if \<not> again then Some (Ok (), g2, q4, out2)
                                else event_idx_loop env rd wo vg qo sig (g2, q4, out2))))))"

text \<open>\<open>kicked\<close> is the result of \<^verbatim>\<open>read_kick\<close> and \<open>available\<close> whether \<^verbatim>\<open>try_lock_queue\<close> gives the queue.\<close>

definition handle_queue_event ::
  "gpu_env \<Rightarrow> 'rd reader \<Rightarrow> 'w writer_ops \<Rightarrow> 'g virtio_gpu_ops \<Rightarrow> ('q, 'rd, 'w) worker_queue_ops
    \<Rightarrow> ('q, unit, io_error) rust_method \<Rightarrow> (bool, device_error) rust \<Rightarrow> bool \<Rightarrow> ('g, 'q, 'w) worker_state
    \<Rightarrow> ((unit, device_error) rust \<times> ('g, 'q, 'w) worker_state) option" where
  "handle_queue_event env rd wo vg qo sig kicked available s =
     (case kicked of
        Err e \<Rightarrow> Some (Err e, s)
      | Panic \<Rightarrow> Some (Panic, s)
      | Ok k \<Rightarrow>
          if \<not> k \<or> \<not> available then Some (Ok (), s)
          else if wq_event_idx_enabled qo (fst (snd s)) then event_idx_loop env rd wo vg qo sig s
          else map_option (\<lambda>(r, s'). (map_ok (\<lambda>_. ()) r, s')) (process_queue env rd wo vg qo s))"

section \<open>The event loop\<close>

text \<open>\<^verbatim>\<open>WorkerToken\<close> and \<^verbatim>\<open>run\<close>. \<open>waits\<close> are the successive answers of \<^verbatim>\<open>EventManager::wait\<close>; \<open>None\<close> means
  that the worker still runs after them, or is inside a loop that does not end.\<close>

datatype worker_token = Quit | ControlQ | CursorQ | Poll

definition worker_token_ty :: token_ty where
  "worker_token_ty = EnumTy [None, None, None, None]"

fun worker_token_val :: "worker_token \<Rightarrow> token_val" where
  "worker_token_val Quit = VariantV 0 None"
| "worker_token_val ControlQ = VariantV 1 None"
| "worker_token_val CursorQ = VariantV 2 None"
| "worker_token_val Poll = VariantV 3 None"

fun run_events ::
  "('s \<Rightarrow> ((unit, 'e) rust \<times> 's) option) \<Rightarrow> ('s \<Rightarrow> ((unit, 'e) rust \<times> 's) option) \<Rightarrow> ('s \<Rightarrow> 's)
    \<Rightarrow> worker_token list \<Rightarrow> 's \<Rightarrow> ((unit, 'e) rust option \<times> 's) option" where
  "run_events control cursor poll [] s = Some (None, s)"
| "run_events control cursor poll (Quit # ts) s = Some (Some (Ok ()), s)"
| "run_events control cursor poll (ControlQ # ts) s =
     (case control s of
        None \<Rightarrow> None
      | Some (Ok _, s') \<Rightarrow> run_events control cursor poll ts s'
      | Some (Err e, s') \<Rightarrow> Some (Some (Err e), s')
      | Some (Panic, s') \<Rightarrow> Some (Some Panic, s'))"
| "run_events control cursor poll (CursorQ # ts) s =
     (case cursor s of
        None \<Rightarrow> None
      | Some (Ok _, s') \<Rightarrow> run_events control cursor poll ts s'
      | Some (Err e, s') \<Rightarrow> Some (Some (Err e), s')
      | Some (Panic, s') \<Rightarrow> Some (Some Panic, s'))"
| "run_events control cursor poll (Poll # ts) s = run_events control cursor poll ts (poll s)"

fun worker_run ::
  "('s \<Rightarrow> ((unit, 'e) rust \<times> 's) option) \<Rightarrow> ('s \<Rightarrow> ((unit, 'e) rust \<times> 's) option) \<Rightarrow> ('s \<Rightarrow> 's)
    \<Rightarrow> ('e + worker_token list) list \<Rightarrow> 's \<Rightarrow> ((unit, 'e) rust \<times> 's) option" where
  "worker_run control cursor poll [] s = None"
| "worker_run control cursor poll (Inl e # waits) s = Some (Err e, s)"
| "worker_run control cursor poll (Inr ts # waits) s =
     (case run_events control cursor poll ts s of
        None \<Rightarrow> None
      | Some (Some r, s') \<Rightarrow> Some (r, s')
      | Some (None, s') \<Rightarrow> worker_run control cursor poll waits s')"

section \<open>What a chain costs\<close>

text \<open>The three ways a chain acts on the gpu: executing its command, creating its fence, parking it until
  the fence completes. \<open>admissible\<close> restricts the commands for which the invariant is promised.\<close>

locale gpu_client =
  fixes vg :: "'g virtio_gpu_ops"
    and inv :: "'g \<Rightarrow> bool"
    and admissible :: "gpu_command \<Rightarrow> 'g \<Rightarrow> bool"
  assumes command_inv: "inv g \<Longrightarrow> admissible cmd g \<Longrightarrow> inv (snd (process_gpu_command env vg hdr cmd g))"
    and create_fence_inv: "inv g \<Longrightarrow> inv (snd (vg_create_fence vg f g))"
    and process_fence_inv: "inv g \<Longrightarrow> inv (snd (vg_process_fence vg ring fence_id idx len g))"
begin

lemma execute_chain_inv:
  assumes "inv g" "\<And>hdr cmd. fst (decode (env_ct env) rd reader) = Ok (hdr, cmd) \<Longrightarrow> admissible cmd g"
  shows "inv (snd (execute_chain env rd vg reader g))"
proof (cases "fst (decode (env_ct env) rd reader)")
  case (Ok p)
  obtain hdr cmd where p: "p = (hdr, cmd)" by fastforce
  then have "inv (snd (process_gpu_command env vg hdr cmd g))"
    using assms Ok by (intro command_inv) auto
  with Ok p show ?thesis
    by (auto simp: execute_chain_def split: prod.splits rust.splits)
qed (use assms(1) in \<open>simp_all add: execute_chain_def\<close>)

lemma create_chain_fence_inv: "inv g \<Longrightarrow> inv (snd (create_chain_fence vg hdr response g))"
  by (auto simp: create_chain_fence_def Let_def split: option.splits prod.splits rust.splits)
    (metis create_fence_inv snd_conv)+

lemma finish_chain_inv: "inv g \<Longrightarrow> inv (fst (snd (finish_chain env wo vg qo head response meta (g, q, w))))"
  by (auto simp: finish_chain_def Let_def split: prod.splits rust.splits if_splits)
    (metis process_fence_inv snd_conv)+

lemma process_queue_chain_inv:
  assumes "inv g" "\<And>hdr cmd. fst (decode (env_ct env) rd reader) = Ok (hdr, cmd) \<Longrightarrow> admissible cmd g"
  shows "inv (fst (snd (process_queue_chain env rd wo vg qo head reader (g, q, w))))"
proof -
  obtain x g1 where e: "execute_chain env rd vg reader g = (x, g1)" by fastforce
  have "inv (snd (execute_chain env rd vg reader g))" by (rule execute_chain_inv) (use assms in auto)
  with e have g1: "inv g1" by simp
  show ?thesis
  proof (cases x)
    case (Ok p)
    obtain response hdr where p: "p = (response, hdr)" by fastforce
    obtain y g2 where f: "create_chain_fence vg hdr response g1 = (y, g2)" by fastforce
    with create_chain_fence_inv [OF g1] have "inv g2" by (metis snd_conv)
    with e Ok p f g1 show ?thesis
      by (auto simp: process_queue_chain_def Let_def split_beta intro: finish_chain_inv split: rust.splits)
  qed (use e g1 in \<open>simp_all add: process_queue_chain_def\<close>)
qed

end

section \<open>The invariants of the rutabaga gpu\<close>

lemma force_ctx_0_state [simp]:
  "tables (force_ctx_0 ro g) = tables g" "resources (force_ctx_0 ro g) = resources g"
  "scanouts (force_ctx_0 ro g) = scanouts g" "gpu_fence_state (force_ctx_0 ro g) = gpu_fence_state g"
  by (simp_all add: force_ctx_0_def tables_def)

lemmas handlers = handle_get_edid_def handle_resource_create_2d_def handle_transfer_to_host_2d_def
  handle_update_cursor_def handle_move_cursor_def handle_ctx_create_def handle_resource_create_3d_def
  handle_transfer_to_host_3d_def handle_transfer_from_host_3d_def

text \<open>Which commands leave scanouts and resources in agreement: a scanout is given an existing resource,
  a new resource has an unused id, a released resource is not shown.\<close>

fun orderly :: "gpu_command \<Rightarrow> ('r, 'b) rutabaga_virtio_gpu \<Rightarrow> bool" where
  "orderly (SetScanout req) g \<longleftrightarrow> ss_resource_id req = 0 \<or> resources g (ss_resource_id req) \<noteq> None"
| "orderly (ResourceCreate2d req) g \<longleftrightarrow> resources g (c2_resource_id req) = None"
| "orderly (ResourceCreate3d req) g \<longleftrightarrow> resources g (c3_resource_id req) = None"
| "orderly (ResourceUnref req) g \<longleftrightarrow>
     (\<forall>res. resources g (ru_resource_id req) = Some res \<longrightarrow> \<not> has_any_enabled (res_scanouts res))"
| "orderly _ g \<longleftrightarrow> True"

lemma consistent_force: "consistent g \<Longrightarrow> consistent (force_ctx_0 ro g)"
  by (simp add: consistent_def)

lemma dispatch_consistent:
  assumes "consistent g" "orderly cmd g"
  shows "consistent (snd (dispatch env (rutabaga_gpu dbg ro bo) hdr cmd g))"
proof (cases cmd)
  case (ResourceAttachBacking req iovecs)
  with assms show ?thesis
    by (auto simp: rutabaga_gpu_def consistent_keeps tables_kept fail_method_def panic_method_def split: rust.splits)
qed (use assms in \<open>simp_all add: rutabaga_gpu_def handlers consistent_keeps tables_kept
      set_scanout_consistent resource_create_consistent unref_resource_consistent panic_method_def\<close>)

lemma dispatch_fences:
  "gpu_fence_state (snd (dispatch env (rutabaga_gpu dbg ro bo) hdr cmd g)) = gpu_fence_state g"
proof (cases cmd)
  case (ResourceAttachBacking req iovecs)
  then show ?thesis
    by (auto simp: rutabaga_gpu_def keeps_fencesD tables_kept fail_method_def panic_method_def split: rust.splits)
qed (simp_all add: rutabaga_gpu_def handlers keeps_fencesD tables_kept
      set_scanout_fences resource_create_fences unref_resource_fences panic_method_def)

lemma gpu_process_fence_tables: "tables (snd (gpu_process_fence ring fence_id idx len g)) = tables g"
  by (simp add: gpu_process_fence_def tables_def split_beta)

lemma orderly_force [simp]: "orderly cmd (force_ctx_0 ro g) \<longleftrightarrow> orderly cmd g"
  by (cases cmd) simp_all

interpretation consistent_gpu: gpu_client "rutabaga_gpu dbg ro bo" consistent orderly for dbg ro bo
proof
  show "consistent (snd (process_gpu_command env (rutabaga_gpu dbg ro bo) hdr cmd g))"
    if "consistent g" "orderly cmd g" for env hdr cmd and g :: "('a, 'b) rutabaga_virtio_gpu"
    unfolding process_gpu_command_def using that
    by (intro dispatch_consistent) (simp_all add: rutabaga_gpu_def consistent_force)
qed (simp_all add: rutabaga_gpu_def consistent_def gpu_process_fence_tables keeps_tablesD tables_kept)

interpretation pending_gpu: gpu_client "rutabaga_gpu dbg ro bo" "\<lambda>g. fences_pending (gpu_fence_state g)" "\<lambda>_ _. True"
  for dbg ro bo
proof
  show "fences_pending (gpu_fence_state (snd (process_gpu_command env (rutabaga_gpu dbg ro bo) hdr cmd g)))"
    if "fences_pending (gpu_fence_state g)" for env hdr cmd and g :: "('a, 'b) rutabaga_virtio_gpu"
    using that by (simp add: process_gpu_command_def dispatch_fences) (simp add: rutabaga_gpu_def)
qed (simp_all add: rutabaga_gpu_def keeps_fencesD tables_kept gpu_process_fence_def split_beta
      fences_pending_process_fence)

section \<open>Every chain is returned or parked once\<close>

lemma add_used_OkD:
  assumes "worker_queue_contract qo pending used" "add_used qo head n q = (Ok u, q')"
  shows "used q' = used q @ [(head, n)] \<and> pending q' = pending q"
proof -
  have "fst (wq_add_used qo head n q) = Ok ()" "q' = snd (wq_add_used qo head n q)"
    using assms(2) by (auto simp: add_used_def split_beta map_err_def split: rust.splits)
  with assms(1) show ?thesis unfolding worker_queue_contract_def by blast
qed

lemma finish_chain_pending:
  assumes "worker_queue_contract qo pending used"
    and "finish_chain env wo vg qo head response meta (g, q, w) = (Ok b, g', q', w')"
  shows "pending q' = pending q \<and> (if b then \<exists>n. used q' = used q @ [(head, n)] else used q' = used q)"
  using assms(2)
  by (auto simp: finish_chain_def Let_def map_ok_def split: prod.splits rust.splits if_splits
      dest: add_used_OkD [OF assms(1)])

lemma process_queue_chain_OkE:
  assumes "process_queue_chain env rd wo vg qo head reader (g, q, w) = (Ok b, g', q', w')"
  obtains (no_room) response hdr where "execute_chain env rd vg reader g = (Ok (response, hdr), g')"
      "w_available wo w = 0" "b" "add_used qo head 0 q = (Ok (), q')" "w' = w"
    | (answer) response hdr g1 response' meta g2 where "execute_chain env rd vg reader g = (Ok (response, hdr), g1)"
      "w_available wo w \<noteq> 0" "create_chain_fence vg hdr response g1 = (Ok (response', meta), g2)"
      "finish_chain env wo vg qo head response' meta (g2, q, w) = (Ok b, g', q', w')"
  using assms
  by (auto simp: process_queue_chain_def Let_def map_ok_def split: prod.splits rust.splits if_splits)

lemma process_queue_chain_pending:
  assumes "worker_queue_contract qo pending used"
    and "process_queue_chain env rd wo vg qo head reader (g, q, w) = (Ok b, g', q', w')"
  shows "pending q' = pending q \<and> (if b then \<exists>n. used q' = used q @ [(head, n)] else used q' = used q)"
  using assms(2)
proof (cases rule: process_queue_chain_OkE)
  case no_room
  with add_used_OkD [OF assms(1)] show ?thesis by fastforce
next
  case (answer response hdr g1 response' meta g2)
  show ?thesis by (rule finish_chain_pending [OF assms(1) answer(4)])
qed

text \<open>The chains that wait for a fence.\<close>

definition parked :: "('r, 'b) rutabaga_virtio_gpu \<Rightarrow> u16 list" where
  "parked g = map fd_desc_index (descs (gpu_fence_state g))"

lemma gpu_process_fence_parked:
  "gpu_process_fence ring fence_id idx len g = (b, g') \<Longrightarrow> parked g' = (if b then parked g else parked g @ [idx])"
  by (auto simp: gpu_process_fence_def process_fence_def parked_def split: if_splits)

lemma finish_chain_parked:
  assumes "finish_chain env wo (rutabaga_gpu dbg ro bo) qo head response meta (g, q, w) = (Ok b, g', q', w')"
  shows "parked g' = (if b then parked g else parked g @ [head])"
  using assms
  by (auto simp: finish_chain_def Let_def map_ok_def rutabaga_gpu_def split: prod.splits rust.splits if_splits
      dest!: gpu_process_fence_parked)

lemma execute_chain_fences:
  "gpu_fence_state (snd (execute_chain env rd (rutabaga_gpu dbg ro bo) reader g)) = gpu_fence_state g"
proof (cases "fst (decode (env_ct env) rd reader)")
  case (Ok p)
  obtain hdr cmd where p: "p = (hdr, cmd)" by fastforce
  have "gpu_fence_state (snd (process_gpu_command env (rutabaga_gpu dbg ro bo) hdr cmd g)) = gpu_fence_state g"
    by (simp add: process_gpu_command_def dispatch_fences) (simp add: rutabaga_gpu_def)
  with Ok p show ?thesis by (auto simp: execute_chain_def split: prod.splits rust.splits)
qed (simp_all add: execute_chain_def)

lemma create_chain_fence_fences:
  "gpu_fence_state (snd (create_chain_fence (rutabaga_gpu dbg ro bo) hdr response g)) = gpu_fence_state g"
proof -
  have "gpu_fence_state g' = gpu_fence_state g" if "create_fence ro f g = (r, g')" for r f and g' :: "('a, 'b) rutabaga_virtio_gpu"
    using that keeps_fencesD [OF keeps_tables_others(13), of ro f g] by simp
  then show ?thesis
    by (auto simp: create_chain_fence_def Let_def rutabaga_gpu_def split: option.splits prod.splits rust.splits)
qed

lemma process_queue_chain_parked:
  assumes "process_queue_chain env rd wo (rutabaga_gpu dbg ro bo) qo head reader (g, q, w) = (Ok b, g', q', w')"
  shows "parked g' = (if b then parked g else parked g @ [head])"
  using assms
proof (cases rule: process_queue_chain_OkE)
  case (no_room response hdr)
  with execute_chain_fences [of env rd dbg ro bo reader g] show ?thesis by (simp add: parked_def)
next
  case (answer response hdr g1 response' meta g2)
  have "parked g2 = parked g"
    using execute_chain_fences [of env rd dbg ro bo reader g] create_chain_fence_fences [of dbg ro bo hdr response g1] answer(1,3)
    by (simp add: parked_def)
  with finish_chain_parked [OF answer(4)] show ?thesis by simp
qed

section \<open>The queue loop ends\<close>

lemma wq_popD:
  assumes "worker_queue_contract qo pending used"
  shows "pending q = [] \<Longrightarrow> \<exists>q'. wq_pop qo q = (None, q') \<and> used q' = used q"
    and "pending q = c # cs \<Longrightarrow> \<exists>q'. wq_pop qo q = (Some c, q') \<and> pending q' = cs \<and> used q' = used q"
  using assms unfolding worker_queue_contract_def by (cases "wq_pop qo q"; fastforce)+

lemma process_queue_loop_ends:
  assumes "worker_queue_contract qo pending used"
  shows "\<exists>res. process_queue_loop env rd wo vg qo signal_used (g, q, out) = Some res"
proof (induction "pending q" arbitrary: g q out signal_used)
  case Nil
  then obtain q' where "wq_pop qo q = (None, q')" using wq_popD(1) [OF assms] by metis
  then show ?case by (subst process_queue_loop.simps) simp
next
  case (Cons c cs)
  then obtain q1 where q1: "wq_pop qo q = (Some c, q1)" "pending q1 = cs" using wq_popD(2) [OF assms] by metis
  show ?case
  proof (cases "ch_reader c"; cases "ch_writer c")
    fix reader writer assume rw: "ch_reader c = Ok reader" "ch_writer c = Ok writer"
    obtain r g2 q2 w2 where p: "process_queue_chain env rd wo vg qo (ch_head_index c) reader (g, q1, writer) = (r, g2, q2, w2)"
      by (metis prod_cases3)
    show ?thesis
    proof (cases r)
      case (Ok b)
      with process_queue_chain_pending [OF assms p [unfolded Ok]] q1(2) have "cs = pending q2" by simp
      from Cons.hyps(1) [OF this, of "signal_used \<or> b" g2 "out @ [(ch_head_index c, w2)]"] Ok q1 rw p show ?thesis
        by (subst process_queue_loop.simps) simp
    qed (use q1 rw p in \<open>subst process_queue_loop.simps, simp\<close>)+
  qed (use q1 in \<open>subst process_queue_loop.simps, simp\<close>)+
qed

text \<open>A run of the loop that succeeds accounts for all the chains it found.\<close>

lemma process_queue_loop_accounts:
  assumes "worker_queue_contract qo pending used"
    and "process_queue_loop env rd wo (rutabaga_gpu dbg ro bo) qo signal_used (g, q, out) = Some (Ok sg, g', q', out')"
  shows "mset (map fst (used q')) + mset (parked g')
      = mset (map fst (used q)) + mset (parked g) + mset (map ch_head_index (pending q)) \<and>
    length (used q) \<le> length (used q') \<and>
    (sg \<longleftrightarrow> signal_used \<or> length (used q) < length (used q'))"
  using assms(2)
proof (induction "pending q" arbitrary: g q out signal_used)
  case Nil
  then obtain q1 where q1: "wq_pop qo q = (None, q1)" "used q1 = used q" using wq_popD(1) [OF assms(1)] by metis
  with Nil.prems have "sg = signal_used" "g' = g" "q' = q1"
    by (subst (asm) process_queue_loop.simps, simp)+
  with q1 Nil.hyps show ?case by simp
next
  case (Cons c cs)
  then obtain q1 where q1: "wq_pop qo q = (Some c, q1)" "pending q1 = cs" "used q1 = used q"
    using wq_popD(2) [OF assms(1)] by metis
  from Cons.prems q1(1) obtain reader writer b g2 q2 w2 where
      p: "process_queue_chain env rd wo (rutabaga_gpu dbg ro bo) qo (ch_head_index c) reader (g, q1, writer) = (Ok b, g2, q2, w2)"
    and l: "process_queue_loop env rd wo (rutabaga_gpu dbg ro bo) qo (signal_used \<or> b) (g2, q2, out @ [(ch_head_index c, w2)])
        = Some (Ok sg, g', q', out')"
    by (subst (asm) process_queue_loop.simps) (auto split: rust.splits prod.splits simp: Let_def)
  from process_queue_chain_pending [OF assms(1) p] q1 have p2: "cs = pending q2"
    "if b then \<exists>n. used q2 = used q @ [(ch_head_index c, n)] else used q2 = used q" by (cases b; simp)+
  from Cons.hyps(1) [OF p2(1) l] process_queue_chain_parked [OF p] p2 q1(2) Cons.hyps(2) show ?case
    by (cases b) (auto simp flip: Cons.hyps(2))
qed

section \<open>Answers\<close>

text \<open>What the guest finds in the chain, and with which length the chain is returned.\<close>

lemma finish_chain_answer:
  assumes "writer_contract wo written" "response_valid response"
    and "length (response_bytes (env_ct env) response (rm_flags meta) (rm_fence_id meta) (rm_ctx_id meta) (rm_ring_idx meta)) \<le> w_available wo w"
    and "finish_chain env wo vg qo head response meta (g, q, w) = (r, g', q', w')"
  shows "written w' = written w @ response_bytes (env_ct env) response (rm_flags meta) (rm_fence_id meta) (rm_ctx_id meta) (rm_ring_idx meta)"
proof -
  have "w' = snd (encode (env_ct env) wo response (rm_flags meta) (rm_fence_id meta) (rm_ctx_id meta) (rm_ring_idx meta) w)"
    using assms(4) by (auto simp: finish_chain_def Let_def split: prod.splits rust.splits if_splits)
  with encode_ok [OF assms(1-3)] show ?thesis by simp
qed

lemma finish_chain_unfenced:
  assumes "writer_contract wo written" "response_valid response"
    and "length (response_bytes (env_ct env) response 0 0 0 0) \<le> w_available wo w"
  shows "finish_chain env wo vg qo head response no_meta (g, q, w)
    = (map_ok (\<lambda>_. True) (fst (add_used qo head (of_nat (length (response_bytes (env_ct env) response 0 0 0 0))) q)), g,
       snd (add_used qo head (of_nat (length (response_bytes (env_ct env) response 0 0 0 0))) q),
       snd (encode (env_ct env) wo response 0 0 0 0 w))"
  using encode_ok [OF assms] by (simp add: finish_chain_def no_meta_def Let_def split_beta)

text \<open>The outcome of a command, whether it is \<^verbatim>\<open>Ok\<close> or \<^verbatim>\<open>Err\<close>, is the response.\<close>

definition response_of :: "(gpu_response, gpu_response) rust \<Rightarrow> gpu_response option" where
  "response_of r = (case r of Ok x \<Rightarrow> Some x | Err x \<Rightarrow> Some x | Panic \<Rightarrow> None)"

lemma chain_answer_unfenced:
  assumes "writer_contract wo written" "response_valid response"
    and "length (response_bytes (env_ct env) response 0 0 0 0) \<le> w_available wo w"
    and "execute_chain env rd vg reader g = (Ok (response, hdr), g1)"
    and "\<And>h. hdr = Some h \<Longrightarrow> hdr_flags h AND VIRTIO_GPU_FLAG_FENCE = 0"
  shows "process_queue_chain env rd wo vg qo head reader (g, q, w) =
    (map_ok (\<lambda>_. True) (fst (add_used qo head (of_nat (length (response_bytes (env_ct env) response 0 0 0 0))) q)), g1,
     snd (add_used qo head (of_nat (length (response_bytes (env_ct env) response 0 0 0 0))) q),
     snd (encode (env_ct env) wo response 0 0 0 0 w)) \<and>
    written (snd (encode (env_ct env) wo response 0 0 0 0 w)) = written w @ response_bytes (env_ct env) response 0 0 0 0"
proof -
  have "create_chain_fence vg hdr response g1 = (Ok (response, no_meta), g1)"
    using assms(5) by (auto simp: create_chain_fence_def split: option.splits)
  moreover have "w_available wo w \<noteq> 0" using assms(3) by (simp add: length_response_bytes)
  ultimately show ?thesis
    using assms(4) encode_ok [OF assms(1-3)] finish_chain_unfenced [OF assms(1-3)]
    by (simp add: process_queue_chain_def)
qed

lemma chain_answer_fenced:
  assumes "writer_contract wo written" "response_valid response"
    and "execute_chain env rd vg reader g = (Ok (response, Some h), g1)"
    and "hdr_flags h AND VIRTIO_GPU_FLAG_FENCE \<noteq> 0"
    and "vg_create_fence vg \<lparr>rgf_flags = hdr_flags h, rgf_fence_id = hdr_fence_id h,
           rgf_ctx_id = hdr_ctx_id h, rgf_ring_idx = hdr_ring_idx h\<rparr> g1 = (Ok x, g2)"
    and "length (response_bytes (env_ct env) response (hdr_flags h) (hdr_fence_id h) (hdr_ctx_id h) (hdr_ring_idx h)) \<le> w_available wo w"
    and "process_queue_chain env rd wo vg qo head reader (g, q, w) = (r, g', q', w')"
  shows "written w' = written w @ response_bytes (env_ct env) response (hdr_flags h) (hdr_fence_id h) (hdr_ctx_id h) (hdr_ring_idx h)"
proof -
  let ?meta = "\<lparr>rm_flags = hdr_flags h, rm_fence_id = hdr_fence_id h, rm_ctx_id = hdr_ctx_id h, rm_ring_idx = hdr_ring_idx h\<rparr>"
  have "create_chain_fence vg (Some h) response g1 = (Ok (response, ?meta), g2)"
    using assms(4,5) by (simp add: create_chain_fence_def)
  moreover have "w_available wo w \<noteq> 0" using assms(6) by (simp add: length_response_bytes)
  ultimately have "finish_chain env wo vg qo head response ?meta (g2, q, w) = (r, g', q', w')"
    using assms(3,7) by (simp add: process_queue_chain_def)
  from finish_chain_answer [OF assms(1,2) _ this] assms(6) show ?thesis by simp
qed

text \<open>A command that cannot be decoded is answered and does not reach the gpu.\<close>

lemma execute_chain_malformed:
  "fst (decode (env_ct env) rd reader) = Err e \<Longrightarrow> execute_chain env rd vg reader g = (Ok (ErrUnspec, None), g)"
  by (simp add: execute_chain_def)

section \<open>Commands that stop the worker\<close>

fun unimplemented :: "gpu_command \<Rightarrow> bool" where
  "unimplemented (ResourceAssignUuid _) \<longleftrightarrow> True"
| "unimplemented (ResourceCreateBlob _) \<longleftrightarrow> True"
| "unimplemented (SetScanoutBlob _) \<longleftrightarrow> True"
| "unimplemented (ResourceMapBlob _) \<longleftrightarrow> True"
| "unimplemented (ResourceUnmapBlob _) \<longleftrightarrow> True"
| "unimplemented _ \<longleftrightarrow> False"

lemma unimplemented_panics:
  "unimplemented cmd \<Longrightarrow> fst (process_gpu_command env vg hdr cmd g) = Panic"
  by (cases cmd) (simp_all add: process_gpu_command_def panic_method_def)

lemma unimplemented_stops_worker:
  assumes "fst (decode (env_ct env) rd reader) = Ok (hdr, cmd)" "unimplemented cmd"
  shows "fst (process_queue_chain env rd wo vg qo head reader (g, q, w)) = Panic"
proof -
  have "fst (execute_chain env rd vg reader g) = Panic"
    using assms unimplemented_panics [OF assms(2), of env vg hdr g]
    by (auto simp: execute_chain_def split: prod.splits rust.splits)
  then show ?thesis by (auto simp: process_queue_chain_def split: prod.splits rust.splits)
qed

text \<open>Without \<^verbatim>\<open>EVENT_IDX\<close> the used queue is never signalled: the outcome does not depend on the signal.\<close>

lemma handle_queue_event_no_signal:
  assumes "\<not> wq_event_idx_enabled qo q"
  shows "handle_queue_event env rd wo vg qo sig kicked available (g, q, out)
    = handle_queue_event env rd wo vg qo sig' kicked available (g, q, out)"
  using assms by (simp add: handle_queue_event_def split: rust.splits)

section \<open>The event loop\<close>

lemma worker_token_ty_ok: "ty_ok worker_token_ty" "used_bits worker_token_ty = Some 2"
proof -
  have "next_power_of_two_from 1 4 = 4"
    by (subst next_power_of_two_from.simps, simp, subst next_power_of_two_from.simps, simp,
        subst next_power_of_two_from.simps, simp)
  then have "variant_bits 4 = 2"
    using trailing_zeros_power [of 2] by (simp add: variant_bits_def next_power_of_two_def)
  then show "used_bits worker_token_ty = Some 2" by (simp add: worker_token_ty_def Let_def eval_nat_numeral)
qed (simp add: worker_token_ty_def)

interpretation gpu_token: event_token 2 "as_raw_token worker_token_ty" "from_raw_token worker_token_ty" "has_ty worker_token_ty"
  by (rule derived_event_token) (rule worker_token_ty_ok)+

lemma worker_token_has_ty: "has_ty worker_token_ty (worker_token_val t)"
  by (cases t) (simp_all add: worker_token_ty_def)

text \<open>A \<^verbatim>\<open>Quit\<close> event ends the worker, after the events before it, and nothing after it is handled.\<close>

lemma run_events_append:
  "run_events control cursor poll ts s = Some (None, s') \<Longrightarrow>
    run_events control cursor poll (ts @ ts') s = run_events control cursor poll ts' s'"
  by (induction control cursor poll ts s rule: run_events.induct) (auto split: option.splits prod.splits rust.splits)

lemma worker_run_quit:
  assumes "run_events control cursor poll ts s = Some (None, s')"
  shows "worker_run control cursor poll (Inr (ts @ Quit # ts') # waits) s = Some (Ok (), s')"
  using run_events_append [OF assms, of "Quit # ts'"] by simp

section \<open>Properties\<close>

text \<open>C5: processing a queue ends, for any finite number of waiting chains and whatever the gpu, the renderer and the
  frontend do; and when it succeeds, every chain it found is now either in the used ring or parked with a
  fence, exactly once, and the caller is told to signal exactly when the used ring has grown.\<close>

theorem process_queue_accounts:
  assumes "worker_queue_contract qo pending used"
  shows "\<exists>r g' q' out'. process_queue env rd wo (rutabaga_gpu dbg ro bo) qo (g, q, out) = Some (r, g', q', out') \<and>
    (case r of
       Ok sg \<Rightarrow>
         mset (map fst (used q')) + mset (parked g')
           = mset (map fst (used q)) + mset (parked g) + mset (map ch_head_index (pending q)) \<and>
         (sg \<longleftrightarrow> length (used q) < length (used q'))
     | _ \<Rightarrow> True)"
proof -
  obtain r g' q' out' where p: "process_queue env rd wo (rutabaga_gpu dbg ro bo) qo (g, q, out) = Some (r, g', q', out')"
    using process_queue_loop_ends [OF assms, of env rd wo "rutabaga_gpu dbg ro bo" False g q out]
    unfolding process_queue_def by (metis prod_cases3)
  show ?thesis
  proof (cases r)
    case (Ok sg)
    with p process_queue_loop_accounts [OF assms, of env rd wo dbg ro bo False g q out sg g' q' out'] show ?thesis
      by (simp add: process_queue_def)
  qed (use p in simp_all)
qed

definition sample_env :: gpu_env where
  "sample_env = \<lparr>env_ct = spec_ctrl_type, env_texture_2d = 2, env_bind_render_target = 2,
     env_new_2d = (\<lambda>x y w h off. \<lparr>tr_x = x, tr_y = y, tr_z = 0, tr_w = w, tr_h = h, tr_d = 1, tr_level = 0,
       tr_stride = 0, tr_layer_stride = 0, tr_offset = off\<rparr>), env_get_slice = (\<lambda>_ _. None)\<rparr>"

definition sample_queue :: "(u8 list, u8 list \<times> nat) desc_chain list \<times> (u16 \<times> u32) list" where
  "sample_queue = ([\<lparr>ch_head_index = 4, ch_reader = Ok [], ch_writer = Ok ([], 100)\<rparr>], [])"

theorem process_queue_accounts_witness:
  "\<exists>r g' q' out'. process_queue sample_env list_reader list_writer (rutabaga_gpu True easy_renderer easy_backend) list_queue
     (sample_gpu, sample_queue, []) = Some (r, g', q', out') \<and>
    (case r of
       Ok sg \<Rightarrow>
         mset (map fst (snd q')) + mset (parked g')
           = mset (map fst (snd sample_queue)) + mset (parked sample_gpu) + mset (map ch_head_index (fst sample_queue)) \<and>
         (sg \<longleftrightarrow> length (snd sample_queue) < length (snd q'))
     | _ \<Rightarrow> True)"
  by (rule process_queue_accounts [OF list_queue_contract])

text \<open>C28: a command without a fence is answered in its own chain: the bytes written are the response with empty
  metadata and the chain is returned at once with their number. A command that cannot be decoded is
  answered with \<^verbatim>\<open>ERR_UNSPEC\<close> and does not reach the gpu.\<close>

theorem unfenced_answer:
  assumes "writer_contract wo written" "response_valid response"
    and "length (response_bytes (env_ct env) response 0 0 0 0) \<le> w_available wo w"
    and "(\<exists>hdr cmd r. fst (decode (env_ct env) rd reader) = Ok (hdr, cmd) \<and>
            hdr_flags hdr AND VIRTIO_GPU_FLAG_FENCE = 0 \<and>
            process_gpu_command env vg hdr cmd g = (r, g1) \<and> response_of r = Some response)
       \<or> (\<exists>e. fst (decode (env_ct env) rd reader) = Err e \<and> response = ErrUnspec \<and> g1 = g)"
  shows "\<exists>w'. process_queue_chain env rd wo vg qo head reader (g, q, w) =
      (map_ok (\<lambda>_. True) (fst (add_used qo head (of_nat (length (response_bytes (env_ct env) response 0 0 0 0))) q)), g1,
       snd (add_used qo head (of_nat (length (response_bytes (env_ct env) response 0 0 0 0))) q), w') \<and>
    written w' = written w @ response_bytes (env_ct env) response 0 0 0 0"
  using assms(4)
proof
  assume "\<exists>hdr cmd r. fst (decode (env_ct env) rd reader) = Ok (hdr, cmd) \<and>
            hdr_flags hdr AND VIRTIO_GPU_FLAG_FENCE = 0 \<and>
            process_gpu_command env vg hdr cmd g = (r, g1) \<and> response_of r = Some response"
  then obtain hdr cmd r where d: "fst (decode (env_ct env) rd reader) = Ok (hdr, cmd)"
      "process_gpu_command env vg hdr cmd g = (r, g1)" "response_of r = Some response"
    and f: "hdr_flags hdr AND VIRTIO_GPU_FLAG_FENCE = 0" by blast
  from d have h: "execute_chain env rd vg reader g = (Ok (response, Some hdr), g1)"
    by (cases r) (simp_all add: execute_chain_def response_of_def)
  have "hdr_flags k AND VIRTIO_GPU_FLAG_FENCE = 0" if "Some hdr = Some k" for k using that f by simp
  note c = chain_answer_unfenced [OF assms(1-3) h this, of qo head q]
  show ?thesis by (intro exI) (rule c)
next
  assume "\<exists>e. fst (decode (env_ct env) rd reader) = Err e \<and> response = ErrUnspec \<and> g1 = g"
  then have "execute_chain env rd vg reader g = (Ok (response, None), g1)"
    by (auto simp: execute_chain_malformed)
  note c = chain_answer_unfenced [OF assms(1-3) this, of qo head q]
  show ?thesis by (intro exI) (rule c, simp)
qed

theorem unfenced_answer_witness:
  "\<exists>w'. process_queue_chain sample_env list_reader list_writer (rutabaga_gpu True easy_renderer easy_backend) list_queue 4 []
      (sample_gpu, ([], []), ([], 100)) = (Ok True, sample_gpu, ([], [(4, 24)]), w') \<and>
    fst w' = response_bytes spec_ctrl_type ErrUnspec 0 0 0 0"
proof -
  have "fst (decode (env_ct sample_env) list_reader []) = Err DescriptorReadFailed"
    by (simp add: decode_short)
  then show ?thesis
    using unfenced_answer [OF writer_contract_list_writer, of ErrUnspec sample_env "([], 100)" list_reader "[]"
        "rutabaga_gpu True easy_renderer easy_backend" sample_gpu sample_gpu list_queue 4 "([], [])"]
    by (simp add: length_response_bytes list_writer_def add_used_def list_queue_def sample_env_def)
qed

text \<open>C29: the response to a fenced command repeats the flags, the fence id, the context and the ring index of the
  request in its header, whether or not the chain then waits for the fence.\<close>

theorem fenced_answer:
  assumes "writer_contract wo written" "response_valid response"
    and "fst (decode (env_ct env) rd reader) = Ok (h, cmd)" "hdr_flags h AND VIRTIO_GPU_FLAG_FENCE \<noteq> 0"
    and "process_gpu_command env vg h cmd g = (r0, g1)" "response_of r0 = Some response"
    and "vg_create_fence vg \<lparr>rgf_flags = hdr_flags h, rgf_fence_id = hdr_fence_id h,
           rgf_ctx_id = hdr_ctx_id h, rgf_ring_idx = hdr_ring_idx h\<rparr> g1 = (Ok x, g2)"
    and "length (response_bytes (env_ct env) response (hdr_flags h) (hdr_fence_id h) (hdr_ctx_id h) (hdr_ring_idx h)) \<le> w_available wo w"
    and "process_queue_chain env rd wo vg qo head reader (g, q, w) = (r, g', q', w')"
  shows "written w' = written w @ response_bytes (env_ct env) response (hdr_flags h) (hdr_fence_id h) (hdr_ctx_id h) (hdr_ring_idx h)"
proof -
  have "execute_chain env rd vg reader g = (Ok (response, Some h), g1)"
    using assms(3,5,6) by (cases r0) (simp_all add: execute_chain_def response_of_def)
  from chain_answer_fenced [OF assms(1,2) this assms(4,7,8,9)] show ?thesis .
qed

definition fenced_hdr :: virtio_gpu_ctrl_hdr where
  "fenced_hdr = (sample_hdr CMD_GET_DISPLAY_INFO)\<lparr>hdr_flags := 1, hdr_fence_id := 9\<rparr>"

theorem fenced_answer_witness:
  "fst (snd (snd (snd (process_queue_chain sample_env list_reader list_writer (rutabaga_gpu True easy_renderer easy_backend)
      list_queue 4 (put virtio_gpu_ctrl_hdr_layout fenced_hdr) (sample_gpu, ([], []), ([], 1000))))))
    = response_bytes spec_ctrl_type (OkDisplayInfo [(640, 480, True)]) 1 9 0 0"
proof -
  let ?vg = "rutabaga_gpu True easy_renderer easy_backend"
  let ?bs = "put virtio_gpu_ctrl_hdr_layout fenced_hdr"
  obtain r g' q' w' where p: "process_queue_chain sample_env list_reader list_writer ?vg list_queue 4 ?bs
      (sample_gpu, ([], []), ([], 1000)) = (r, g', q', w')" by (metis prod_cases4)
  have v: "virtio_gpu_ctrl_hdr_valid fenced_hdr"
    by (simp add: fenced_hdr_def sample_hdr_def virtio_gpu_ctrl_hdr_valid_def)
  have "decode spec_ctrl_type list_reader ?bs = (Ok (fenced_hdr, GetDisplayInfo), [])"
    using decode_put [OF inj_spec_ctrl_type v, of GetDisplayInfo "[]"] by (simp add: fenced_hdr_def sample_hdr_def)
  then have d: "fst (decode (env_ct sample_env) list_reader ?bs) = Ok (fenced_hdr, GetDisplayInfo)"
    by (simp add: sample_env_def)
  have c: "process_gpu_command sample_env ?vg fenced_hdr GetDisplayInfo sample_gpu
      = (Ok (OkDisplayInfo [(640, 480, True)]), sample_gpu)"
    by (simp add: process_gpu_command_def rutabaga_gpu_def display_info_def easy_backend_def on_backend_def
        bind_method_def return_method_def force_ctx_0_def easy_renderer_def)
  have f: "vg_create_fence ?vg \<lparr>rgf_flags = hdr_flags fenced_hdr, rgf_fence_id = hdr_fence_id fenced_hdr,
       rgf_ctx_id = hdr_ctx_id fenced_hdr, rgf_ring_idx = hdr_ring_idx fenced_hdr\<rparr> sample_gpu = (Ok OkNoData, sample_gpu)"
    by (simp add: rutabaga_gpu_def create_fence_def no_data_def on_rutabaga_def easy_renderer_def bind_method_def return_method_def)
  from fenced_answer [OF writer_contract_list_writer _ d _ c _ f _ p] show ?thesis
    unfolding p by (simp add: fenced_hdr_def sample_hdr_def VIRTIO_GPU_FLAG_FENCE_def response_of_def
        length_response_bytes list_writer_def sample_env_def del: length_concat)
qed

text \<open>C22: as long as the driver is orderly, that is it shows only existing resources, reuses no id and releases
  nothing that is shown, processing any chain keeps scanouts and resources in agreement, and it always keeps the
  parked fences pending.\<close>

theorem chain_keeps_invariants:
  assumes "consistent g" "fences_pending (gpu_fence_state g)"
    and "\<And>hdr cmd. fst (decode (env_ct env) rd reader) = Ok (hdr, cmd) \<Longrightarrow> orderly cmd g"
    and "process_queue_chain env rd wo (rutabaga_gpu dbg ro bo) qo head reader (g, q, w) = (r, g', q', w')"
  shows "consistent g' \<and> fences_pending (gpu_fence_state g')"
  using consistent_gpu.process_queue_chain_inv [OF assms(1), where env = env and rd = rd and reader = reader and dbg = dbg
      and ro = ro and bo = bo and wo = wo and qo = qo and head = head and q = q and w = w]
    pending_gpu.process_queue_chain_inv [OF assms(2), where env = env and rd = rd and reader = reader and dbg = dbg
      and ro = ro and bo = bo and wo = wo and qo = qo and head = head and q = q and w = w] assms(3,4) by auto

theorem chain_keeps_invariants_witness:
  "consistent (fst (snd (process_queue_chain sample_env list_reader list_writer (rutabaga_gpu True easy_renderer easy_backend)
     list_queue 4 [] (sample_gpu, ([], []), ([], 100)))))"
proof -
  obtain r g' q' w' where p: "process_queue_chain sample_env list_reader list_writer (rutabaga_gpu True easy_renderer easy_backend)
     list_queue 4 [] (sample_gpu, ([], []), ([], 100)) = (r, g', q', w')" by (metis prod_cases4)
  have f: "fences_pending (gpu_fence_state sample_gpu)"
    by (simp add: sample_gpu_def rutabaga_virtio_gpu_new_def fences_pending_default)
  have "orderly cmd sample_gpu" if "fst (decode (env_ct sample_env) list_reader []) = Ok (hdr, cmd)" for hdr cmd
    using that by (simp add: decode_short)
  from chain_keeps_invariants [OF sample_gpu_consistent f this p] p show ?thesis by simp
qed

text \<open>Five commands of the protocol stop the worker with a panic, whatever the gpu is, although the device offers
  the feature they belong to and the gpu would answer them with an error.\<close>

lemma blob_commands_stop_worker:
  assumes "fst (decode (env_ct env) rd reader) = Ok (hdr, cmd)"
    and "command_type cmd \<in> {CMD_RESOURCE_ASSIGN_UUID, CMD_RESOURCE_CREATE_BLOB, CMD_SET_SCANOUT_BLOB,
           CMD_RESOURCE_MAP_BLOB, CMD_RESOURCE_UNMAP_BLOB}"
  shows "fst (process_queue_chain env rd wo vg qo head reader (g, q, w)) = Panic"
proof -
  have "unimplemented cmd" using assms(2) by (cases cmd) auto
  with assms(1) show ?thesis by (rule unimplemented_stops_worker)
qed

lemma blob_commands_stop_worker_witness:
  "fst (process_queue_chain sample_env list_reader list_writer (rutabaga_gpu True easy_renderer easy_backend) list_queue 4
     (put virtio_gpu_ctrl_hdr_layout (sample_hdr CMD_RESOURCE_UNMAP_BLOB) @
      command_bytes (ResourceUnmapBlob \<lparr>ub_resource_id = 1, ub_padding = 0\<rparr>))
     (sample_gpu, ([], []), ([], 100))) = Panic"
proof (rule blob_commands_stop_worker)
  let ?cmd = "ResourceUnmapBlob \<lparr>ub_resource_id = 1, ub_padding = 0\<rparr>"
  show "fst (decode (env_ct sample_env) list_reader
      (put virtio_gpu_ctrl_hdr_layout (sample_hdr CMD_RESOURCE_UNMAP_BLOB) @ command_bytes ?cmd))
      = Ok (sample_hdr CMD_RESOURCE_UNMAP_BLOB, ?cmd)"
    using decode_put [OF inj_spec_ctrl_type sample_hdr_valid [of CMD_RESOURCE_UNMAP_BLOB], of ?cmd "[]"]
    by (simp add: sample_env_def sample_hdr_def)
qed simp

text \<open>When the queue does not use \<^verbatim>\<open>EVENT_IDX\<close>, handling a queue event never signals the used queue, however many
  chains it returns: the outcome is the same for every signal operation.\<close>

lemma no_signal_without_event_idx:
  assumes "\<not> wq_event_idx_enabled qo q"
  shows "handle_queue_event env rd wo vg qo sig kicked available (g, q, out)
    = handle_queue_event env rd wo vg qo sig' kicked available (g, q, out)"
  using assms by (rule handle_queue_event_no_signal)

lemma no_signal_without_event_idx_witness:
  "handle_queue_event sample_env list_reader list_writer (rutabaga_gpu True easy_renderer easy_backend) list_queue
     (\<lambda>q. (Ok (), q)) (Ok True) True (sample_gpu, ([], []), [])
   = handle_queue_event sample_env list_reader list_writer (rutabaga_gpu True easy_renderer easy_backend) list_queue
     (\<lambda>q. (Panic, q)) (Ok True) True (sample_gpu, ([], []), [])"
  by (rule no_signal_without_event_idx) (simp add: list_queue_def)

text \<open>A \<^verbatim>\<open>Quit\<close> event ends the worker with success, after the events that stand before it in the batch and before
  all later ones.\<close>

lemma quit_ends_worker:
  assumes "run_events control cursor poll ts s = Some (None, s')"
  shows "worker_run control cursor poll (Inr (ts @ Quit # ts') # waits) s = Some (Ok (), s')"
  using assms by (rule worker_run_quit)

lemma quit_ends_worker_witness:
  "worker_run (\<lambda>s. Some (Ok (), s + 1)) (\<lambda>s. Some (Err (7 :: nat), s)) (\<lambda>s. s) [Inr [ControlQ, Quit, CursorQ]] (0 :: nat) = Some (Ok (), 1)"
  using quit_ends_worker [of "\<lambda>s. Some (Ok (), s + 1)" "\<lambda>s. Some (Err (7 :: nat), s)" "\<lambda>s. s" "[ControlQ]" "0 :: nat" 1 "[CursorQ]" "[]"]
  by simp

end
