(* ===== verification/Gpu_Config.thy ===== *)
theory Gpu_Config
  imports Prelude
begin

text \<open>
  The configuration of the gpu backend, \<^verbatim>\<open>virtio-gpu/src/lib.rs\<close>, and the command line that gives it,
  \<^verbatim>\<open>vhost-gpu/src/main.rs\<close> and the mode of \<^verbatim>\<open>vhost-gpu/src/lib.rs\<close>, with the feature \<^verbatim>\<open>gfxstream\<close>, which is on by
  default. \<^verbatim>\<open>GpuCapset\<close> is a set of flags of the crate \<^verbatim>\<open>bitflags\<close>: union and containment are those of the bits,
  the iteration over the contained flags is the parameter \<open>flags\<close>. The bit numbers come from the crate
  \<^verbatim>\<open>rutabaga_gfx\<close>. Parsing of the command line is clap; a parsed command line is the record \<open>gpu_args\<close>.
\<close>

section \<open>Capability sets\<close>

datatype gpu_mode = VirglRenderer | Gfxstream

record rutabaga_capsets =
  rc_virgl :: nat
  rc_virgl2 :: nat
  rc_gfxstream_vulkan :: nat
  rc_gfxstream_gles :: nat

type_synonym gpu_capset = u64

definition VIRGL :: "rutabaga_capsets \<Rightarrow> gpu_capset" where
  "VIRGL rc = push_bit (rc_virgl rc) 1"

definition VIRGL2 :: "rutabaga_capsets \<Rightarrow> gpu_capset" where
  "VIRGL2 rc = push_bit (rc_virgl2 rc) 1"

definition ALL_VIRGLRENDERER_CAPSETS :: "rutabaga_capsets \<Rightarrow> gpu_capset" where
  "ALL_VIRGLRENDERER_CAPSETS rc = VIRGL rc OR VIRGL2 rc"

definition GFXSTREAM_VULKAN :: "rutabaga_capsets \<Rightarrow> gpu_capset" where
  "GFXSTREAM_VULKAN rc = push_bit (rc_gfxstream_vulkan rc) 1"

definition GFXSTREAM_GLES :: "rutabaga_capsets \<Rightarrow> gpu_capset" where
  "GFXSTREAM_GLES rc = push_bit (rc_gfxstream_gles rc) 1"

definition ALL_GFXSTREAM_CAPSETS :: "rutabaga_capsets \<Rightarrow> gpu_capset" where
  "ALL_GFXSTREAM_CAPSETS rc = GFXSTREAM_VULKAN rc OR GFXSTREAM_GLES rc"

definition capset_contains :: "gpu_capset \<Rightarrow> gpu_capset \<Rightarrow> bool" where
  "capset_contains a b \<longleftrightarrow> a AND b = b"

text \<open>\<^verbatim>\<open>count_ones\<close>.\<close>

definition num_capsets :: "gpu_capset \<Rightarrow> u32" where
  "num_capsets c = of_nat (length (filter (bit c) [0..<64]))"

text \<open>What \<^verbatim>\<open>bitflags\<close> documents of \<^verbatim>\<open>iter\<close>: it yields contained, non-empty flags that together make up the
  value.\<close>

definition flags_contract :: "(gpu_capset \<Rightarrow> gpu_capset list) \<Rightarrow> bool" where
  "flags_contract flags \<longleftrightarrow>
     (\<forall>c. fold (OR) (flags c) 0 = c \<and> (\<forall>f\<in>set (flags c). f \<noteq> 0 \<and> capset_contains c f))"

section \<open>Display\<close>

fun gpu_mode_display :: "gpu_mode \<Rightarrow> string" where
  "gpu_mode_display VirglRenderer = ''virglrenderer''"
| "gpu_mode_display Gfxstream = ''gfxstream''"

definition capset_name_display :: "rutabaga_capsets \<Rightarrow> gpu_capset \<Rightarrow> (string, unit) rust" where
  "capset_name_display rc c =
     (if c = VIRGL rc then Ok ''virgl''
      else if c = VIRGL2 rc then Ok ''virgl2''
      else if c = GFXSTREAM_VULKAN rc then Ok ''gfxstream-vulkan''
      else if c = GFXSTREAM_GLES rc then Ok ''gfxstream-gles''
      else Panic)"

fun capset_display_loop :: "rutabaga_capsets \<Rightarrow> bool \<Rightarrow> gpu_capset list \<Rightarrow> (string, unit) rust" where
  "capset_display_loop rc first [] = Ok []"
| "capset_display_loop rc first (c # cs) =
     and_then (capset_name_display rc c) (\<lambda>name.
     and_then (capset_display_loop rc False cs) (\<lambda>rest. Ok ((if first then [] else '', '') @ name @ rest)))"

definition capset_display :: "rutabaga_capsets \<Rightarrow> (gpu_capset \<Rightarrow> gpu_capset list) \<Rightarrow> gpu_capset \<Rightarrow> (string, unit) rust" where
  "capset_display rc flags c = capset_display_loop rc True (flags c)"

section \<open>The configuration\<close>

record gpu_flags =
  use_egl :: bool
  use_glx :: bool
  use_gles :: bool
  use_surfaceless :: bool

definition gpu_flags_default :: gpu_flags where
  "gpu_flags_default = \<lparr>use_egl = True, use_glx = False, use_gles = True, use_surfaceless = True\<rparr>"

record gpu_config =
  cfg_gpu_mode :: gpu_mode
  cfg_capset :: gpu_capset
  cfg_flags :: gpu_flags

datatype gpu_config_error = CapsetUnsuportedByMode gpu_mode gpu_capset | GlesRequiredByGfxstream

fun get_default_capset_for_mode :: "rutabaga_capsets \<Rightarrow> gpu_mode \<Rightarrow> gpu_capset" where
  "get_default_capset_for_mode rc VirglRenderer = ALL_VIRGLRENDERER_CAPSETS rc"
| "get_default_capset_for_mode rc Gfxstream = ALL_GFXSTREAM_CAPSETS rc"

fun supported_capset_mask :: "rutabaga_capsets \<Rightarrow> gpu_mode \<Rightarrow> gpu_capset" where
  "supported_capset_mask rc VirglRenderer = ALL_VIRGLRENDERER_CAPSETS rc"
| "supported_capset_mask rc Gfxstream = ALL_GFXSTREAM_CAPSETS rc"

fun validate_loop :: "gpu_mode \<Rightarrow> gpu_capset \<Rightarrow> gpu_capset list \<Rightarrow> (unit, gpu_config_error) rust" where
  "validate_loop mode supported [] = Ok ()"
| "validate_loop mode supported (c # cs) =
     (if \<not> capset_contains supported c then Err (CapsetUnsuportedByMode mode c) else validate_loop mode supported cs)"

definition validate_capset ::
  "rutabaga_capsets \<Rightarrow> (gpu_capset \<Rightarrow> gpu_capset list) \<Rightarrow> gpu_mode \<Rightarrow> gpu_capset \<Rightarrow> (unit, gpu_config_error) rust" where
  "validate_capset rc flags mode capset = validate_loop mode (supported_capset_mask rc mode) (flags capset)"

definition gpu_config_new ::
  "rutabaga_capsets \<Rightarrow> (gpu_capset \<Rightarrow> gpu_capset list) \<Rightarrow> gpu_mode \<Rightarrow> gpu_capset option \<Rightarrow> gpu_flags
    \<Rightarrow> (gpu_config, gpu_config_error) rust" where
  "gpu_config_new rc flags mode capset gflags =
     (let capset = (case capset of Some c \<Rightarrow> c | None \<Rightarrow> get_default_capset_for_mode rc mode)
      in and_then (validate_capset rc flags mode capset) (\<lambda>_.
           if capset_contains capset (GFXSTREAM_GLES rc) \<and> \<not> use_gles gflags then Err GlesRequiredByGfxstream
           else Ok \<lparr>cfg_gpu_mode = mode, cfg_capset = capset, cfg_flags = gflags\<rparr>))"

section \<open>The command line\<close>

datatype capset_name = Virgl | Virgl2 | GfxstreamVulkan | GfxstreamGles

fun capset_name_bits :: "rutabaga_capsets \<Rightarrow> capset_name \<Rightarrow> u64" where
  "capset_name_bits rc Virgl = VIRGL rc"
| "capset_name_bits rc Virgl2 = VIRGL2 rc"
| "capset_name_bits rc GfxstreamVulkan = GFXSTREAM_VULKAN rc"
| "capset_name_bits rc GfxstreamGles = GFXSTREAM_GLES rc"

text \<open>\<^verbatim>\<open>from_bits\<close> refuses bits outside the defined flags; the result is expected.\<close>

definition capset_from_name :: "rutabaga_capsets \<Rightarrow> capset_name \<Rightarrow> (gpu_capset, 'e) rust" where
  "capset_from_name rc name =
     (if capset_contains (ALL_VIRGLRENDERER_CAPSETS rc OR ALL_GFXSTREAM_CAPSETS rc) (capset_name_bits rc name)
      then Ok (capset_name_bits rc name) else Panic)"

fun capset_union_from :: "rutabaga_capsets \<Rightarrow> gpu_capset \<Rightarrow> capset_name list \<Rightarrow> (gpu_capset, 'e) rust" where
  "capset_union_from rc acc [] = Ok acc"
| "capset_union_from rc acc (n # ns) = and_then (capset_from_name rc n) (\<lambda>c. capset_union_from rc (acc OR c) ns)"

definition capset_names_into_capset :: "rutabaga_capsets \<Rightarrow> capset_name list \<Rightarrow> (gpu_capset, 'e) rust" where
  "capset_names_into_capset rc names = capset_union_from rc 0 names"

datatype cli_gpu_mode = CliVirglRenderer | CliGfxstream

fun into_gpu_mode :: "cli_gpu_mode \<Rightarrow> gpu_mode" where
  "into_gpu_mode CliVirglRenderer = VirglRenderer"
| "into_gpu_mode CliGfxstream = Gfxstream"

fun cli_gpu_mode_display :: "cli_gpu_mode \<Rightarrow> string" where
  "cli_gpu_mode_display CliVirglRenderer = ''virglrenderer''"
| "cli_gpu_mode_display CliGfxstream = ''gfxstream''"

record gpu_flags_args =
  arg_use_egl :: bool
  arg_use_glx :: bool
  arg_use_gles :: bool
  arg_use_surfaceless :: bool

definition into_gpu_flags :: "gpu_flags_args \<Rightarrow> gpu_flags" where
  "into_gpu_flags a = \<lparr>use_egl = arg_use_egl a, use_glx = arg_use_glx a, use_gles = arg_use_gles a,
     use_surfaceless = arg_use_surfaceless a\<rparr>"

record gpu_args =
  arg_socket_path :: string
  arg_gpu_mode :: cli_gpu_mode
  arg_capset :: "capset_name list option"
  arg_flags :: gpu_flags_args

definition config_from_args ::
  "rutabaga_capsets \<Rightarrow> (gpu_capset \<Rightarrow> gpu_capset list) \<Rightarrow> gpu_args \<Rightarrow> (string \<times> gpu_config, gpu_config_error) rust" where
  "config_from_args rc flags args =
     and_then (case arg_capset args of
                 None \<Rightarrow> Ok None
               | Some names \<Rightarrow> map_ok Some (capset_names_into_capset rc names)) (\<lambda>capset.
     and_then (gpu_config_new rc flags (into_gpu_mode (arg_gpu_mode args)) capset (into_gpu_flags (arg_flags args))) (\<lambda>config.
       Ok (arg_socket_path args, config)))"

section \<open>The set a configuration is about\<close>

definition effective_capset :: "rutabaga_capsets \<Rightarrow> gpu_mode \<Rightarrow> gpu_capset option \<Rightarrow> gpu_capset" where
  "effective_capset rc mode capset = (case capset of Some c \<Rightarrow> c | None \<Rightarrow> get_default_capset_for_mode rc mode)"

text \<open>The iteration bit by bit, and the bit numbers of the crate.\<close>

definition bit_flags :: "gpu_capset \<Rightarrow> gpu_capset list" where
  "bit_flags c = map (\<lambda>i. push_bit i 1) (filter (bit c) [0..<64])"

definition linux_capsets :: rutabaga_capsets where
  "linux_capsets = \<lparr>rc_virgl = 1, rc_virgl2 = 2, rc_gfxstream_vulkan = 3, rc_gfxstream_gles = 8\<rparr>"

section \<open>Lemmas\<close>

lemma capset_contains_iff: "capset_contains a b \<longleftrightarrow> (\<forall>i. bit b i \<longrightarrow> bit a i)"
proof
  assume "capset_contains a b"
  then have "bit (a AND b) i = bit b i" for i by (simp add: capset_contains_def)
  then show "\<forall>i. bit b i \<longrightarrow> bit a i" by (auto simp: bit_simps)
next
  assume "\<forall>i. bit b i \<longrightarrow> bit a i"
  then show "capset_contains a b"
    unfolding capset_contains_def by (intro bit_word_eqI) (auto simp: bit_simps)
qed

lemma bit_fold_or: "bit (fold (OR) cs (a :: gpu_capset)) i \<longleftrightarrow> bit a i \<or> (\<exists>c\<in>set cs. bit c i)"
  by (induction cs arbitrary: a) (auto simp: bit_simps)

text \<open>The loop stops at the first flag that the mode does not support.\<close>

lemma validate_loop_find:
  "validate_loop mode supported cs =
    (case find (\<lambda>c. \<not> capset_contains supported c) cs of None \<Rightarrow> Ok () | Some c \<Rightarrow> Err (CapsetUnsuportedByMode mode c))"
  by (induction cs) auto

lemma flags_all_contained:
  assumes "flags_contract flags"
  shows "(\<forall>f\<in>set (flags c). capset_contains supported f) \<longleftrightarrow> capset_contains supported c"
proof -
  have "bit c i \<longleftrightarrow> (\<exists>f\<in>set (flags c). bit f i)" for i
    using assms bit_fold_or [of "flags c" 0 i] by (simp add: flags_contract_def)
  then show ?thesis by (auto simp: capset_contains_iff)
qed

lemma validate_capset_ok:
  assumes "flags_contract flags"
  shows "validate_capset rc flags mode c = Ok () \<longleftrightarrow> capset_contains (supported_capset_mask rc mode) c"
proof -
  have "validate_capset rc flags mode c = Ok () \<longleftrightarrow> find (\<lambda>c. \<not> capset_contains (supported_capset_mask rc mode) c) (flags c) = None"
    by (simp add: validate_capset_def validate_loop_find split: option.split)
  also have "\<dots> \<longleftrightarrow> (\<forall>f\<in>set (flags c). capset_contains (supported_capset_mask rc mode) f)" by (auto simp: find_None_iff)
  finally show ?thesis by (simp add: flags_all_contained [OF assms])
qed

lemma validate_capset_err:
  assumes "flags_contract flags" "validate_capset rc flags mode c = Err e"
  shows "\<exists>f. e = CapsetUnsuportedByMode mode f \<and> capset_contains c f \<and> \<not> capset_contains (supported_capset_mask rc mode) f"
proof -
  obtain f where f: "find (\<lambda>c. \<not> capset_contains (supported_capset_mask rc mode) c) (flags c) = Some f" "e = CapsetUnsuportedByMode mode f"
    using assms(2) by (auto simp: validate_capset_def validate_loop_find split: option.splits)
  then have "f \<in> set (flags c)" "\<not> capset_contains (supported_capset_mask rc mode) f" by (auto simp: find_Some_iff)
  with f(2) assms(1) show ?thesis by (auto simp: flags_contract_def)
qed

lemma validate_capset_no_panic: "validate_capset rc flags mode c \<noteq> Panic"
  by (simp add: validate_capset_def validate_loop_find split: option.split)

lemma capset_from_name_ok: "capset_from_name rc n = Ok (capset_name_bits rc n)"
proof -
  have "capset_contains (ALL_VIRGLRENDERER_CAPSETS rc OR ALL_GFXSTREAM_CAPSETS rc) (capset_name_bits rc n)"
    by (cases n) (simp_all add: capset_contains_iff ALL_VIRGLRENDERER_CAPSETS_def ALL_GFXSTREAM_CAPSETS_def bit_simps)
  then show ?thesis by (simp add: capset_from_name_def)
qed

lemma capset_union_from_ok: "capset_union_from rc acc ns = Ok (fold (OR) (map (capset_name_bits rc) ns) acc)"
  by (induction ns arbitrary: acc) (simp_all add: capset_from_name_ok or.commute)

lemma bit_flags_contract: "flags_contract bit_flags"
  unfolding flags_contract_def
proof (intro allI conjI ballI)
  fix c :: gpu_capset
  show "fold (OR) (bit_flags c) 0 = c"
  proof (rule bit_word_eqI)
    fix i assume "i < LENGTH(64)"
    then show "bit (fold (OR) (bit_flags c) 0) i = bit c i"
      by (auto simp: bit_fold_or bit_flags_def bit_simps)
  qed
  fix f assume "f \<in> set (bit_flags c)"
  then obtain i where i: "i < 64" "bit c i" "f = push_bit i 1" by (auto simp: bit_flags_def)
  then have "bit f i" by (simp add: bit_simps)
  then show "f \<noteq> 0" by auto
  show "capset_contains c f" using i by (auto simp: capset_contains_iff bit_simps)
qed

lemma bit_flags_8: "bit_flags 8 = [8]"
  by (simp add: bit_flags_def upt_conv_Cons bit_numeral_rec)

section \<open>Properties\<close>

text \<open>C20: a configuration is accepted exactly when every bit of the capability set, the mode's full set if none is
  given, is one the mode supports, and GLES is allowed if the gles capability set is in it. An unsupported set is
  refused with a contained flag that the mode does not support; nothing panics.\<close>

theorem config_accepts_exactly:
  assumes "flags_contract flags"
  shows "case gpu_config_new rc flags mode capset gflags of
      Ok config \<Rightarrow> capset_contains (supported_capset_mask rc mode) (effective_capset rc mode capset) \<and>
        (use_gles gflags \<or> \<not> capset_contains (effective_capset rc mode capset) (GFXSTREAM_GLES rc)) \<and>
        config = \<lparr>cfg_gpu_mode = mode, cfg_capset = effective_capset rc mode capset, cfg_flags = gflags\<rparr>
    | Err GlesRequiredByGfxstream \<Rightarrow> capset_contains (supported_capset_mask rc mode) (effective_capset rc mode capset) \<and>
        capset_contains (effective_capset rc mode capset) (GFXSTREAM_GLES rc) \<and> \<not> use_gles gflags
    | Err (CapsetUnsuportedByMode m f) \<Rightarrow> m = mode \<and> capset_contains (effective_capset rc mode capset) f \<and>
        \<not> capset_contains (supported_capset_mask rc mode) f
    | Panic \<Rightarrow> False"
proof (cases "validate_capset rc flags mode (effective_capset rc mode capset)")
  case (Ok u)
  then show ?thesis
    using validate_capset_ok [OF assms, of rc mode "effective_capset rc mode capset"]
    by (auto simp: gpu_config_new_def effective_capset_def Let_def)
next
  case (Err e)
  then show ?thesis
    using validate_capset_err [OF assms Err] by (auto simp: gpu_config_new_def effective_capset_def Let_def)
next
  case Panic
  then show ?thesis using validate_capset_no_panic [of rc flags mode] by blast
qed

theorem config_accepts_exactly_witness:
  "gpu_config_new linux_capsets bit_flags VirglRenderer (Some 8) gpu_flags_default
    = Err (CapsetUnsuportedByMode VirglRenderer 8) \<and>
   \<not> capset_contains (supported_capset_mask linux_capsets VirglRenderer) 8"
proof -
  have "gpu_config_new linux_capsets bit_flags VirglRenderer (Some 8) gpu_flags_default
      = Err (CapsetUnsuportedByMode VirglRenderer 8)"
    by (simp add: bit_flags_8 gpu_config_new_def validate_capset_def capset_contains_def linux_capsets_def
        ALL_VIRGLRENDERER_CAPSETS_def VIRGL_def VIRGL2_def)
  with config_accepts_exactly [OF bit_flags_contract, of linux_capsets VirglRenderer "Some 8" gpu_flags_default]
  show ?thesis by simp
qed

text \<open>The capability set of a command line is accepted exactly when the mode supports every named set and GLES is
  not forbidden by the flags while named; the resulting set has exactly the named bits, whatever the order and the
  repetitions of the names.\<close>

lemma command_line_capset:
  assumes "flags_contract flags" "arg_capset args = Some names" "config_from_args rc flags args = Ok (path, config)"
  shows "(\<forall>i. bit (cfg_capset config) i \<longleftrightarrow> (\<exists>n\<in>set names. bit (capset_name_bits rc n) i)) \<and>
    (\<forall>n\<in>set names. capset_contains (supported_capset_mask rc (into_gpu_mode (arg_gpu_mode args))) (capset_name_bits rc n))"
proof -
  let ?c = "fold (OR) (map (capset_name_bits rc) names) (0 :: gpu_capset)"
  have n: "gpu_config_new rc flags (into_gpu_mode (arg_gpu_mode args)) (Some ?c) (into_gpu_flags (arg_flags args)) = Ok config"
    using assms(2,3) by (simp add: config_from_args_def capset_names_into_capset_def capset_union_from_ok and_then_eq_Ok)
  then have c: "cfg_capset config = ?c" and v: "capset_contains (supported_capset_mask rc (into_gpu_mode (arg_gpu_mode args))) ?c"
    using validate_capset_ok [OF assms(1), of rc "into_gpu_mode (arg_gpu_mode args)" ?c]
    by (auto simp: gpu_config_new_def and_then_eq_Ok Let_def split: if_splits)
  have b: "bit ?c i \<longleftrightarrow> (\<exists>n\<in>set names. bit (capset_name_bits rc n) i)" for i by (simp add: bit_fold_or)
  with v have "\<forall>n\<in>set names. capset_contains (supported_capset_mask rc (into_gpu_mode (arg_gpu_mode args))) (capset_name_bits rc n)"
    by (auto simp: capset_contains_iff)
  with b c show ?thesis by simp
qed

lemma command_line_capset_witness:
  "bit (ALL_GFXSTREAM_CAPSETS linux_capsets) 3"
proof -
  let ?args = "\<lparr>arg_socket_path = ''gpu'', arg_gpu_mode = CliGfxstream, arg_capset = Some [GfxstreamVulkan],
    arg_flags = \<lparr>arg_use_egl = True, arg_use_glx = False, arg_use_gles = True, arg_use_surfaceless = True\<rparr>\<rparr>"
  let ?config = "\<lparr>cfg_gpu_mode = Gfxstream, cfg_capset = 8, cfg_flags = gpu_flags_default\<rparr>"
  have "config_from_args linux_capsets bit_flags ?args = Ok (''gpu'', ?config)"
    by (simp add: config_from_args_def capset_names_into_capset_def capset_union_from_ok gpu_config_new_def bit_flags_8
        validate_capset_def capset_contains_def linux_capsets_def ALL_GFXSTREAM_CAPSETS_def GFXSTREAM_VULKAN_def
        GFXSTREAM_GLES_def into_gpu_flags_def gpu_flags_default_def)
  with command_line_capset [OF bit_flags_contract, of ?args "[GfxstreamVulkan]" linux_capsets "''gpu''" ?config]
  have "capset_contains (ALL_GFXSTREAM_CAPSETS linux_capsets) (capset_name_bits linux_capsets GfxstreamVulkan)" by simp
  then show ?thesis by (simp add: capset_contains_iff GFXSTREAM_VULKAN_def linux_capsets_def bit_simps)
qed

end
