(* ===== verification/Vring.thy ===== *)
theory Vring
  imports Event_Manager
begin

text \<open>
  The state of one vhost-user queue, \<^verbatim>\<open>vhost-user/src/vring.rs\<close>: the virtio queue, the enabled
  flag, the kick, call and error event descriptors, and the list of epoll instances that watch the
  kick descriptor and must follow it when it changes. The type \<^verbatim>\<open>Queue\<close> is the one of the crate
  \<^verbatim>\<open>virtio_queue\<close>: its operations are the record \<open>queue_ops\<close>, with \<open>queue_contract\<close> for what the
  code relies on. \<^verbatim>\<open>Weak<Epoll>\<close> is the number of an instance, which may be gone from the world of
  living instances. A descriptor is its number.
\<close>

section \<open>The virtio queue\<close>

record ('q, 'mem) queue_ops =
  q_new :: "u16 \<Rightarrow> ('q, nat) rust"
  q_ready :: "'q \<Rightarrow> bool"
  q_set_ready :: "bool \<Rightarrow> 'q \<Rightarrow> 'q"
  q_set_size :: "u16 \<Rightarrow> 'q \<Rightarrow> 'q"
  q_next_avail :: "'q \<Rightarrow> u16"
  q_set_next_avail :: "u16 \<Rightarrow> 'q \<Rightarrow> 'q"
  q_set_next_used :: "u16 \<Rightarrow> 'q \<Rightarrow> 'q"
  q_set_event_idx :: "bool \<Rightarrow> 'q \<Rightarrow> 'q"
  q_try_set_desc_table_address :: "u64 \<Rightarrow> ('q, unit, nat) rust_method"
  q_try_set_avail_ring_address :: "u64 \<Rightarrow> ('q, unit, nat) rust_method"
  q_try_set_used_ring_address :: "u64 \<Rightarrow> ('q, unit, nat) rust_method"
  q_used_idx :: "'mem \<Rightarrow> 'q \<Rightarrow> (u16, nat) rust"

text \<open>The documented behaviour of the setters and getters: \<^verbatim>\<open>ready\<close> and \<^verbatim>\<open>next_avail\<close> return what
  was last set, and the other setters leave \<^verbatim>\<open>ready\<close> alone.\<close>

definition queue_contract :: "('q, 'mem) queue_ops \<Rightarrow> bool" where
  "queue_contract qo \<longleftrightarrow>
     (\<forall>b q. q_ready qo (q_set_ready qo b q) = b) \<and>
     (\<forall>b q. q_next_avail qo (q_set_ready qo b q) = q_next_avail qo q) \<and>
     (\<forall>n q. q_next_avail qo (q_set_next_avail qo n q) = n) \<and>
     (\<forall>n q. q_ready qo (q_set_next_avail qo n q) = q_ready qo q) \<and>
     (\<forall>n q. q_ready qo (q_set_size qo n q) = q_ready qo q) \<and>
     (\<forall>n q. q_ready qo (q_set_next_used qo n q) = q_ready qo q) \<and>
     (\<forall>b q. q_ready qo (q_set_event_idx qo b q) = q_ready qo q) \<and>
     (\<forall>a q. q_ready qo (snd (q_try_set_desc_table_address qo a q)) = q_ready qo q) \<and>
     (\<forall>a q. q_ready qo (snd (q_try_set_avail_ring_address qo a q)) = q_ready qo q) \<and>
     (\<forall>a q. q_ready qo (snd (q_try_set_used_ring_address qo a q)) = q_ready qo q) \<and>
     (\<forall>n q. q_new qo n = Ok q \<longrightarrow> \<not> q_ready qo q)"

section \<open>The vring\<close>

record 'q vring =
  queue :: 'q
  enabled :: bool
  kick :: "nat option"
  call :: "nat option"
  err :: "nat option"
  epolls :: "(nat \<times> u64) list"

type_synonym 'ep world = "nat \<Rightarrow> 'ep option"

definition vring_new :: "('q, 'mem) queue_ops \<Rightarrow> u16 \<Rightarrow> ('q vring, nat) rust" where
  "vring_new qo max_size =
     and_then (q_new qo max_size) (\<lambda>q.
       Ok \<lparr>queue = q, enabled = False, kick = None, call = None, err = None, epolls = []\<rparr>)"

text \<open>\<^verbatim>\<open>register_kick\<close> and \<^verbatim>\<open>unregister_kick\<close> on a living instance.\<close>

definition on_epoll :: "nat \<Rightarrow> ('ep, unit, io_error) rust_method \<Rightarrow> ('ep world, unit, io_error) rust_method" where
  "on_epoll e m w =
     (case w e of None \<Rightarrow> (Ok (), w) | Some ep \<Rightarrow> (let (r, ep') = m ep in (r, w(e \<mapsto> ep'))))"

definition register_kick ::
  "'ep epoll_ctl \<Rightarrow> event_bits \<Rightarrow> nat \<Rightarrow> nat \<Rightarrow> u64 \<Rightarrow> ('ep world, unit, io_error) rust_method" where
  "register_kick ctl eb e kick_fd token = on_epoll e (ctl CtlAdd kick_fd (ev_in eb, token))"

definition unregister_kick ::
  "'ep epoll_ctl \<Rightarrow> event_bits \<Rightarrow> nat \<Rightarrow> nat \<Rightarrow> ('ep world, unit, io_error) rust_method" where
  "unregister_kick ctl eb e kick_fd = on_epoll e (ctl CtlDelete kick_fd (ev_in eb, 0))"

text \<open>The loop of \<^verbatim>\<open>update_epolls\<close> over the instances that are still alive.\<close>

fun update_epolls ::
  "'ep epoll_ctl \<Rightarrow> event_bits \<Rightarrow> nat option \<Rightarrow> nat option \<Rightarrow> (nat \<times> u64) list \<Rightarrow> ('ep world, unit, io_error) rust_method" where
  "update_epolls ctl eb old_kick new_kick [] w = (Ok (), w)"
| "update_epolls ctl eb old_kick new_kick ((e, token) # es) w =
     (if w e = None then update_epolls ctl eb old_kick new_kick es w
      else bind_method
             (case old_kick of None \<Rightarrow> (\<lambda>w. (Ok (), w)) | Some fd \<Rightarrow> unregister_kick ctl eb e fd)
             (\<lambda>_. bind_method
               (case new_kick of None \<Rightarrow> (\<lambda>w. (Ok (), w)) | Some fd \<Rightarrow> register_kick ctl eb e fd token)
               (\<lambda>_. update_epolls ctl eb old_kick new_kick es)) w)"

text \<open>The methods act on the vring and the world together.\<close>

definition set_queue_info ::
  "('q, 'mem) queue_ops \<Rightarrow> u64 \<Rightarrow> u64 \<Rightarrow> u64 \<Rightarrow> ('q vring, unit, nat) rust_method" where
  "set_queue_info qo desc_table avail_ring used_ring v =
     (let (r, q) = bind_method (q_try_set_desc_table_address qo desc_table)
            (\<lambda>_. bind_method (q_try_set_avail_ring_address qo avail_ring)
            (\<lambda>_. q_try_set_used_ring_address qo used_ring)) (queue v)
      in (r, v\<lparr>queue := q\<rparr>))"

definition set_enabled :: "bool \<Rightarrow> 'q vring \<Rightarrow> 'q vring" where
  "set_enabled b v = v\<lparr>enabled := b\<rparr>"

definition is_started :: "('q, 'mem) queue_ops \<Rightarrow> 'q vring \<Rightarrow> bool" where
  "is_started qo v = q_ready qo (queue v)"

definition vring_stop ::
  "('q, 'mem) queue_ops \<Rightarrow> 'ep epoll_ctl \<Rightarrow> event_bits \<Rightarrow> ('q vring \<times> 'ep world, unit, io_error) rust_method" where
  "vring_stop qo ctl eb vw =
     (let (v, w) = vw;
          (r, w') = (case kick v of None \<Rightarrow> (Ok (), w) | Some fd \<Rightarrow> update_epolls ctl eb (Some fd) None (epolls v) w)
      in (case r of
            Ok _ \<Rightarrow> (Ok (), (v\<lparr>queue := q_set_ready qo False (queue v)\<rparr>, w'))
          | Err e \<Rightarrow> (Err e, (v, w'))
          | Panic \<Rightarrow> (Panic, (v, w'))))"

definition vring_start ::
  "('q, 'mem) queue_ops \<Rightarrow> 'ep epoll_ctl \<Rightarrow> event_bits \<Rightarrow> ('q vring \<times> 'ep world, unit, io_error) rust_method" where
  "vring_start qo ctl eb vw =
     (let (v, w) = vw;
          v' = v\<lparr>queue := q_set_ready qo True (queue v)\<rparr>;
          (r, w') = update_epolls ctl eb None (kick v) (epolls v) w
      in (r, (v', w')))"

definition set_kick ::
  "('q, 'mem) queue_ops \<Rightarrow> 'ep epoll_ctl \<Rightarrow> event_bits \<Rightarrow> nat option \<Rightarrow> ('q vring \<times> 'ep world, unit, io_error) rust_method" where
  "set_kick qo ctl eb new_kick vw =
     (let (v, w) = vw; old_kick = kick v; v' = v\<lparr>kick := new_kick\<rparr>
      in if is_started qo v'
         then (let (r, w') = update_epolls ctl eb old_kick new_kick (epolls v) w in (r, (v', w')))
         else (Ok (), (v', w)))"

definition set_call :: "nat option \<Rightarrow> 'q vring \<Rightarrow> 'q vring" where
  "set_call file v = v\<lparr>call := file\<rparr>"

definition set_err :: "nat option \<Rightarrow> 'q vring \<Rightarrow> 'q vring" where
  "set_err file v = v\<lparr>err := file\<rparr>"

definition has_kick_event :: "'q vring \<Rightarrow> bool" where
  "has_kick_event v = (kick v \<noteq> None)"

definition add_epoll :: "'ep world \<Rightarrow> nat \<Rightarrow> u64 \<Rightarrow> 'q vring \<Rightarrow> 'q vring" where
  "add_epoll w e token v = v\<lparr>epolls := filter (\<lambda>(x, _). w x \<noteq> None) (epolls v) @ [(e, token)]\<rparr>"

definition remove_epoll :: "'ep world \<Rightarrow> nat \<Rightarrow> 'q vring \<Rightarrow> 'q vring" where
  "remove_epoll w e v = v\<lparr>epolls := filter (\<lambda>(x, _). w x \<noteq> None \<and> x \<noteq> e) (epolls v)\<rparr>"

text \<open>\<^verbatim>\<open>impl EventSource for VhostKickEvent\<close>.\<close>

definition kick_register_self ::
  "'ep epoll_ctl \<Rightarrow> event_bits \<Rightarrow> nat \<Rightarrow> u64 \<Rightarrow> ('q vring \<times> 'ep world, unit, io_error) rust_method" where
  "kick_register_self ctl eb e token vw =
     (let (v, w) = vw;
          (r, w') = (case kick v of None \<Rightarrow> (Ok (), w) | Some fd \<Rightarrow> register_kick ctl eb e fd token w)
      in (case r of
            Ok _ \<Rightarrow> (Ok (), (add_epoll w' e token v, w'))
          | Err x \<Rightarrow> (Err x, (v, w'))
          | Panic \<Rightarrow> (Panic, (v, w'))))"

definition kick_unregister_self ::
  "'ep epoll_ctl \<Rightarrow> event_bits \<Rightarrow> nat \<Rightarrow> ('q vring \<times> 'ep world, unit, io_error) rust_method" where
  "kick_unregister_self ctl eb e vw =
     (let (v, w) = vw; v' = remove_epoll w e v;
          (r, w') = (case kick v of None \<Rightarrow> (Ok (), w) | Some fd \<Rightarrow> unregister_kick ctl eb e fd w)
      in (r, (v', w')))"

text \<open>\<^verbatim>\<open>impl DeviceQueue for Vring\<close>. Reading and writing an event descriptor are the parameters
  \<open>efd_read\<close> and \<open>efd_write\<close>.\<close>

definition try_lock_queue :: "('q, 'mem) queue_ops \<Rightarrow> 'q vring \<Rightarrow> 'q option" where
  "try_lock_queue qo v =
     (if \<not> enabled v then None
      else if enabled v \<and> q_ready qo (queue v) then Some (queue v) else None)"

definition signal_used_queue :: "(nat \<Rightarrow> (unit, io_error) rust) \<Rightarrow> 'q vring \<Rightarrow> (unit, io_error) rust" where
  "signal_used_queue efd_write v = (case call v of None \<Rightarrow> Ok () | Some fd \<Rightarrow> efd_write fd)"

definition read_kick :: "(nat \<Rightarrow> (u64, io_error) rust) \<Rightarrow> 'q vring \<Rightarrow> (bool, io_error) rust" where
  "read_kick efd_read v =
     (case kick v of
        None \<Rightarrow> Ok (enabled v)
      | Some fd \<Rightarrow>
          (case efd_read fd of
             Ok n \<Rightarrow> Ok (enabled v)
           | Err e \<Rightarrow> if e = WouldBlock then Ok (enabled v) else Err e
           | Panic \<Rightarrow> Panic))"

section \<open>Invariant of the watched kick\<close>

text \<open>While the ring is started its kick descriptor is registered, under the ring's token, with every
  living instance on the list; while it is stopped it is registered with none of them.\<close>

definition kick_synced ::
  "('q, 'mem) queue_ops \<Rightarrow> event_bits \<Rightarrow> ('ep \<Rightarrow> nat \<Rightarrow> epoll_event option) \<Rightarrow> 'q vring \<times> 'ep world \<Rightarrow> bool" where
  "kick_synced qo eb regs vw \<longleftrightarrow>
     (let (v, w) = vw in
       distinct (map fst (epolls v)) \<and>
       (\<forall>fd e token ep. kick v = Some fd \<longrightarrow> (e, token) \<in> set (epolls v) \<longrightarrow> w e = Some ep \<longrightarrow>
          regs ep fd = (if is_started qo v then Some (ev_in eb, token) else None)))"

text \<open>A descriptor that no living instance of the list watches.\<close>

definition fresh_fd :: "('ep \<Rightarrow> nat \<Rightarrow> epoll_event option) \<Rightarrow> nat \<Rightarrow> 'q vring \<times> 'ep world \<Rightarrow> bool" where
  "fresh_fd regs fd vw \<longleftrightarrow>
     (let (v, w) = vw in \<forall>e token ep. (e, token) \<in> set (epolls v) \<longrightarrow> w e = Some ep \<longrightarrow> regs ep fd = None)"

section \<open>The interface of a ring towards its device\<close>

text \<open>A device takes the queue through \<open>lock\<close> only. \<open>may_start\<close> and \<open>may_enable\<close> name the control
  operations that can make a stopped or disabled ring available again.\<close>

locale controlled_ring =
  fixes lock :: "'s \<Rightarrow> 'q option"
    and started :: "'s \<Rightarrow> bool"
    and on :: "'s \<Rightarrow> bool"
    and step :: "'op \<Rightarrow> 's \<Rightarrow> 's"
    and may_start :: "'op \<Rightarrow> bool"
    and may_enable :: "'op \<Rightarrow> bool"
  assumes lock_iff: "lock s \<noteq> None \<longleftrightarrow> started s \<and> on s"
    and stays_stopped: "\<not> may_start x \<Longrightarrow> \<not> started s \<Longrightarrow> \<not> started (step x s)"
    and stays_off: "\<not> may_enable x \<Longrightarrow> \<not> on s \<Longrightarrow> \<not> on (step x s)"
begin

lemma stopped_never_locked:
  "\<not> started s \<Longrightarrow> list_all (\<lambda>x. \<not> may_start x) xs \<Longrightarrow> lock (fold step xs s) = None"
proof (induction xs arbitrary: s)
  case Nil
  then show ?case using lock_iff [of s] by auto
next
  case (Cons x xs)
  then show ?case using stays_stopped by simp
qed

lemma disabled_never_locked:
  "\<not> on s \<Longrightarrow> list_all (\<lambda>x. \<not> may_enable x) xs \<Longrightarrow> lock (fold step xs s) = None"
proof (induction xs arbitrary: s)
  case Nil
  then show ?case using lock_iff [of s] by auto
next
  case (Cons x xs)
  then show ?case using stays_off by simp
qed

end

section \<open>Lemmas\<close>

lemma queue_contractD:
  assumes "queue_contract qo"
  shows "q_ready qo (q_set_ready qo b q) = b"
    "q_next_avail qo (q_set_ready qo b q) = q_next_avail qo q"
    "q_next_avail qo (q_set_next_avail qo n q) = n"
    "q_ready qo (q_set_next_avail qo n q) = q_ready qo q"
    "q_ready qo (q_set_size qo n q) = q_ready qo q"
    "q_ready qo (q_set_next_used qo n q) = q_ready qo q"
    "q_ready qo (q_set_event_idx qo b q) = q_ready qo q"
    "q_ready qo (snd (q_try_set_desc_table_address qo a q)) = q_ready qo q"
    "q_ready qo (snd (q_try_set_avail_ring_address qo a q)) = q_ready qo q"
    "q_ready qo (snd (q_try_set_used_ring_address qo a q)) = q_ready qo q"
    "q_new qo m = Ok q \<Longrightarrow> \<not> q_ready qo q"
  using assms by (simp_all add: queue_contract_def)

lemma try_lock_queue_iff: "try_lock_queue qo v \<noteq> None \<longleftrightarrow> is_started qo v \<and> enabled v"
  by (auto simp: try_lock_queue_def is_started_def)

lemma on_epoll_other: "x \<noteq> e \<Longrightarrow> snd (on_epoll e m w) x = w x"
  by (auto simp: on_epoll_def split: option.splits prod.splits)

lemma on_epoll_alive: "w e = Some ep \<Longrightarrow> on_epoll e m w = (fst (m ep), w(e \<mapsto> snd (m ep)))"
  by (simp add: on_epoll_def case_prod_beta)

text \<open>What a successful update leaves behind at an instance.\<close>

definition updated_regs ::
  "event_bits \<Rightarrow> nat option \<Rightarrow> nat option \<Rightarrow> u64 \<Rightarrow> (nat \<Rightarrow> epoll_event option) \<Rightarrow> (nat \<Rightarrow> epoll_event option)" where
  "updated_regs eb old_kick new_kick token m =
     (let m' = (case old_kick of None \<Rightarrow> m | Some fd \<Rightarrow> m(fd := None))
      in (case new_kick of None \<Rightarrow> m' | Some fd \<Rightarrow> m'(fd \<mapsto> (ev_in eb, token))))"

definition updatable :: "nat option \<Rightarrow> nat option \<Rightarrow> (nat \<Rightarrow> epoll_event option) \<Rightarrow> bool" where
  "updatable old_kick new_kick m \<longleftrightarrow>
     (\<forall>fd. old_kick = Some fd \<longrightarrow> m fd \<noteq> None) \<and>
     (\<forall>fd. new_kick = Some fd \<longrightarrow> m fd = None \<or> old_kick = Some fd)"

text \<open>One instance: deleting the old descriptor and adding the new one.\<close>

lemma swap_at_epoll:
  assumes c: "epoll_contract ctl regs" and w: "w e = Some ep" and u: "updatable old_kick new_kick (regs ep)"
  obtains ep' where
    "bind_method (case old_kick of None \<Rightarrow> (\<lambda>w. (Ok (), w)) | Some fd \<Rightarrow> unregister_kick ctl eb e fd)
       (\<lambda>_. bind_method (case new_kick of None \<Rightarrow> (\<lambda>w. (Ok (), w)) | Some fd \<Rightarrow> register_kick ctl eb e fd token) k) w
     = k () (w(e \<mapsto> ep'))"
    "regs ep' = updated_regs eb old_kick new_kick token (regs ep)"
proof -
  obtain ep1 where 1: "(case old_kick of None \<Rightarrow> (\<lambda>w. (Ok (), w)) | Some fd \<Rightarrow> unregister_kick ctl eb e fd) w = (Ok (), w(e \<mapsto> ep1))"
    "regs ep1 = (case old_kick of None \<Rightarrow> regs ep | Some fd \<Rightarrow> (regs ep)(fd := None))"
  proof (cases old_kick)
    case None
    with w that [of ep] show ?thesis by (simp add: fun_upd_idem)
  next
    case (Some fd)
    with u have "regs ep fd \<noteq> None" by (simp add: updatable_def)
    with c w Some that [of "snd (ctl CtlDelete fd (ev_in eb, 0) ep)"] show ?thesis
      by (simp add: unregister_kick_def on_epoll_alive epoll_laws fun_upd_def)
  qed
  obtain ep2 where 2: "(case new_kick of None \<Rightarrow> (\<lambda>w. (Ok (), w)) | Some fd \<Rightarrow> register_kick ctl eb e fd token) (w(e \<mapsto> ep1)) = (Ok (), w(e \<mapsto> ep2))"
    "regs ep2 = (case new_kick of None \<Rightarrow> regs ep1 | Some fd \<Rightarrow> (regs ep1)(fd \<mapsto> (ev_in eb, token)))"
  proof (cases new_kick)
    case None
    with that [of ep1] show ?thesis by simp
  next
    case (Some fd)
    with u 1(2) have "regs ep1 fd = None" by (auto simp: updatable_def split: option.splits)
    with epoll_laws [OF c] have "fst (ctl CtlAdd fd (ev_in eb, token) ep1) = Ok ()"
      "regs (snd (ctl CtlAdd fd (ev_in eb, token) ep1)) = (regs ep1)(fd \<mapsto> (ev_in eb, token))"
      by auto
    with Some that [of "snd (ctl CtlAdd fd (ev_in eb, token) ep1)"] show ?thesis
      by (simp add: register_kick_def on_epoll_alive)
  qed
  show ?thesis
  proof (rule that)
    show "regs ep2 = updated_regs eb old_kick new_kick token (regs ep)"
      unfolding 2(2) 1(2) updated_regs_def Let_def ..
  qed (use 1(1) 2(1) in \<open>simp add: bind_method_def\<close>)
qed

text \<open>The whole list: every living instance is updated, no other one is touched.\<close>

definition epolls_updated ::
  "('ep \<Rightarrow> nat \<Rightarrow> epoll_event option) \<Rightarrow> event_bits \<Rightarrow> nat option \<Rightarrow> nat option \<Rightarrow> (nat \<times> u64) list
    \<Rightarrow> 'ep world \<Rightarrow> 'ep world \<Rightarrow> bool" where
  "epolls_updated regs eb old_kick new_kick es w w' \<longleftrightarrow>
     (\<forall>e. w' e = None \<longleftrightarrow> w e = None) \<and> (\<forall>e. e \<notin> fst ` set es \<longrightarrow> w' e = w e) \<and>
     (\<forall>e token ep ep'. (e, token) \<in> set es \<longrightarrow> w e = Some ep \<longrightarrow> w' e = Some ep' \<longrightarrow>
        regs ep' = updated_regs eb old_kick new_kick token (regs ep))"

definition all_updatable ::
  "('ep \<Rightarrow> nat \<Rightarrow> epoll_event option) \<Rightarrow> nat option \<Rightarrow> nat option \<Rightarrow> (nat \<times> u64) list \<Rightarrow> 'ep world \<Rightarrow> bool" where
  "all_updatable regs old_kick new_kick es w \<longleftrightarrow>
     (\<forall>e token ep. (e, token) \<in> set es \<longrightarrow> w e = Some ep \<longrightarrow> updatable old_kick new_kick (regs ep))"

lemma epolls_updated_dead:
  "w e = None \<Longrightarrow> epolls_updated regs eb old_kick new_kick es w w' \<Longrightarrow>
    epolls_updated regs eb old_kick new_kick ((e, token) # es) w w'"
  by (simp add: epolls_updated_def)

lemma epolls_updated_alive:
  assumes "w e = Some ep" "e \<notin> fst ` set es" "regs ep' = updated_regs eb old_kick new_kick token (regs ep)"
    and "epolls_updated regs eb old_kick new_kick es (w(e \<mapsto> ep')) w'"
  shows "epolls_updated regs eb old_kick new_kick ((e, token) # es) w w'"
proof -
  have "w' e = Some ep'" using assms(2,4) by (simp add: epolls_updated_def)
  moreover have "f \<noteq> e" if "(f, t) \<in> set es" for f t using that assms(2) by force
  ultimately show ?thesis using assms by (auto simp: epolls_updated_def split: if_splits)
qed

lemma all_updatable_alive:
  assumes "e \<notin> fst ` set es" "all_updatable regs old_kick new_kick ((e, token) # es) w"
  shows "all_updatable regs old_kick new_kick es (w(e \<mapsto> ep'))"
proof -
  have "f \<noteq> e" if "(f, t) \<in> set es" for f t using that assms(1) by force
  then show ?thesis using assms(2) by (auto simp: all_updatable_def)
qed

lemma update_epolls_ok:
  assumes c: "epoll_contract ctl regs"
  shows "distinct (map fst es) \<Longrightarrow> all_updatable regs old_kick new_kick es w \<Longrightarrow>
    \<exists>w'. update_epolls ctl eb old_kick new_kick es w = (Ok (), w') \<and>
         epolls_updated regs eb old_kick new_kick es w w'"
proof (induction es arbitrary: w)
  case Nil
  then show ?case by (simp add: epolls_updated_def)
next
  case (Cons x es)
  obtain e token where x: "x = (e, token)" by (cases x)
  have e: "e \<notin> fst ` set es" and d: "distinct (map fst es)" using Cons.prems(1) x by auto
  show ?case
  proof (cases "w e")
    case None
    have "all_updatable regs old_kick new_kick es w"
      using Cons.prems(2) by (simp add: all_updatable_def)
    from Cons.IH [OF d this] obtain w' where "update_epolls ctl eb old_kick new_kick es w = (Ok (), w')"
      "epolls_updated regs eb old_kick new_kick es w w'" by blast
    with epolls_updated_dead [where w = w and e = e and w' = w'] None show ?thesis unfolding x by simp
  next
    case (Some ep)
    have "updatable old_kick new_kick (regs ep)" using Cons.prems(2) x Some by (simp add: all_updatable_def)
    from c Some this obtain ep' where
        ep0: "bind_method (case old_kick of None \<Rightarrow> (\<lambda>w. (Ok (), w)) | Some fd \<Rightarrow> unregister_kick ctl eb e fd)
          (\<lambda>_. bind_method (case new_kick of None \<Rightarrow> (\<lambda>w. (Ok (), w)) | Some fd \<Rightarrow> register_kick ctl eb e fd token)
          (\<lambda>_. update_epolls ctl eb old_kick new_kick es)) w
          = update_epolls ctl eb old_kick new_kick es (w(e \<mapsto> ep'))"
      and regs': "regs ep' = updated_regs eb old_kick new_kick token (regs ep)"
      by (rule swap_at_epoll [where w = w and e = e and eb = eb and token = token and ep = ep and regs = regs
            and old_kick = old_kick and new_kick = new_kick and ctl = ctl
            and k = "\<lambda>_. update_epolls ctl eb old_kick new_kick es"])
    have step: "update_epolls ctl eb old_kick new_kick (x # es) w
        = update_epolls ctl eb old_kick new_kick es (w(e \<mapsto> ep'))"
      unfolding x update_epolls.simps ep0 using Some by simp
    have "all_updatable regs old_kick new_kick es (w(e \<mapsto> ep'))"
      using e Cons.prems(2) unfolding x by (rule all_updatable_alive)
    from Cons.IH [OF d this] obtain w' where w': "update_epolls ctl eb old_kick new_kick es (w(e \<mapsto> ep')) = (Ok (), w')"
      "epolls_updated regs eb old_kick new_kick es (w(e \<mapsto> ep')) w'" by blast
    show ?thesis
      unfolding step w'(1) using epolls_updated_alive [OF Some e regs' w'(2)] x by simp
  qed
qed

text \<open>The converse, which shows where a call fails: deleting a descriptor that an instance does not
  watch.\<close>

lemma update_epolls_absent:
  assumes "epoll_contract ctl regs" "w e = Some ep" "regs ep fd = None"
  shows "fst (update_epolls ctl eb (Some fd) new_kick ((e, token) # es) w) = Err NotFound"
  using assms by (simp add: unregister_kick_def on_epoll_alive bind_method_def epoll_laws)

text \<open>A change of the world that keeps every instance alive and its registrations outside \<open>fds\<close>.\<close>

definition touches :: "('ep \<Rightarrow> nat \<Rightarrow> epoll_event option) \<Rightarrow> nat set \<Rightarrow> 'ep world \<Rightarrow> 'ep world \<Rightarrow> bool" where
  "touches regs fds w w' \<longleftrightarrow> (\<forall>e. w' e = None \<longleftrightarrow> w e = None) \<and>
     (\<forall>e ep ep' fd. w e = Some ep \<longrightarrow> w' e = Some ep' \<longrightarrow> fd \<notin> fds \<longrightarrow> regs ep' fd = regs ep fd)"

lemma touches_refl [simp]: "touches regs fds w w"
  by (auto simp: touches_def)

lemma epolls_updated_touches:
  assumes "epolls_updated regs eb old_kick new_kick es w w'"
  shows "touches regs (set_option old_kick \<union> set_option new_kick) w w'"
  unfolding touches_def
proof (intro conjI allI impI)
  fix e ep ep' fd
  assume e: "w e = Some ep" "w' e = Some ep'" and fd: "fd \<notin> set_option old_kick \<union> set_option new_kick"
  show "regs ep' fd = regs ep fd"
  proof (cases "e \<in> fst ` set es")
    case True
    then obtain token where "(e, token) \<in> set es" by auto
    with assms e have "regs ep' = updated_regs eb old_kick new_kick token (regs ep)" by (auto simp: epolls_updated_def)
    with fd show ?thesis by (auto simp: updated_regs_def Let_def split: option.splits)
  next
    case False
    with assms e show ?thesis by (simp add: epolls_updated_def)
  qed
qed (use assms in \<open>simp add: epolls_updated_def\<close>)

lemma kick_synced_frame:
  assumes "touches regs fds w w'" "kick_synced qo eb regs (v, w)" "\<And>fd. kick v = Some fd \<Longrightarrow> fd \<notin> fds"
  shows "kick_synced qo eb regs (v, w')"
proof -
  have "regs ep' fd = (if is_started qo v then Some (ev_in eb, token) else None)"
    if "kick v = Some fd" "(e, token) \<in> set (epolls v)" "w' e = Some ep'" for fd e token ep'
  proof -
    obtain ep where "w e = Some ep" using assms(1) \<open>w' e = Some ep'\<close> by (metis not_Some_eq touches_def)
    with assms that show ?thesis by (auto simp: kick_synced_def touches_def)
  qed
  then show ?thesis using assms(2) by (auto simp: kick_synced_def)
qed

section \<open>The control operations keep the kick in step\<close>

lemma vring_stop_ok:
  assumes "epoll_contract ctl regs" "queue_contract qo" "kick_synced qo eb regs (v, w)"
    and "is_started qo v"
  shows "\<exists>w'. vring_stop qo ctl eb (v, w) = (Ok (), (v\<lparr>queue := q_set_ready qo False (queue v)\<rparr>, w')) \<and>
              kick_synced qo eb regs (v\<lparr>queue := q_set_ready qo False (queue v)\<rparr>, w') \<and>
              touches regs (set_option (kick v)) w w'"
proof (cases "kick v")
  case None
  with assms show ?thesis
    by (simp add: vring_stop_def kick_synced_def)
next
  case (Some fd)
  have "all_updatable regs (Some fd) None (epolls v) w"
    using assms(3,4) Some by (auto simp: kick_synced_def all_updatable_def updatable_def)
  moreover have "distinct (map fst (epolls v))" using assms(3) by (simp add: kick_synced_def)
  ultimately obtain w' where w': "update_epolls ctl eb (Some fd) None (epolls v) w = (Ok (), w')"
      "epolls_updated regs eb (Some fd) None (epolls v) w w'"
    using update_epolls_ok [OF assms(1)] by metis
  have "regs ep' fd = None" if a: "(e, t) \<in> set (epolls v)" "w' e = Some ep'" for e t ep'
  proof -
    obtain ep where "w e = Some ep" using a(2) w'(2) by (metis epolls_updated_def not_Some_eq)
    with a w'(2) show ?thesis by (auto simp: epolls_updated_def updated_regs_def)
  qed
  moreover have "touches regs (set_option (kick v)) w w'" using epolls_updated_touches [OF w'(2)] Some by simp
  ultimately show ?thesis using Some w'(1) assms(2,3)
    by (auto simp: vring_stop_def kick_synced_def is_started_def queue_contractD)
qed

lemma vring_start_ok:
  assumes "epoll_contract ctl regs" "queue_contract qo" "kick_synced qo eb regs (v, w)"
    and "\<not> is_started qo v"
  shows "\<exists>w'. vring_start qo ctl eb (v, w) = (Ok (), (v\<lparr>queue := q_set_ready qo True (queue v)\<rparr>, w')) \<and>
              kick_synced qo eb regs (v\<lparr>queue := q_set_ready qo True (queue v)\<rparr>, w') \<and>
              touches regs (set_option (kick v)) w w'"
proof -
  have "all_updatable regs None (kick v) (epolls v) w"
    using assms(3,4) by (auto simp: kick_synced_def all_updatable_def updatable_def)
  moreover have "distinct (map fst (epolls v))" using assms(3) by (simp add: kick_synced_def)
  ultimately obtain w' where w': "update_epolls ctl eb None (kick v) (epolls v) w = (Ok (), w')"
      "epolls_updated regs eb None (kick v) (epolls v) w w'"
    using update_epolls_ok [OF assms(1)] by metis
  have "regs ep' fd = Some (ev_in eb, t)" if a: "kick v = Some fd" "(e, t) \<in> set (epolls v)" "w' e = Some ep'" for e t ep' fd
  proof -
    obtain ep where "w e = Some ep" using a(3) w'(2) by (metis epolls_updated_def not_Some_eq)
    with a w'(2) show ?thesis by (auto simp: epolls_updated_def updated_regs_def)
  qed
  moreover have "touches regs (set_option (kick v)) w w'" using epolls_updated_touches [OF w'(2)] by simp
  ultimately show ?thesis using w'(1) assms(2,3)
    by (auto simp: vring_start_def kick_synced_def is_started_def queue_contractD)
qed

lemma set_kick_ok:
  assumes "epoll_contract ctl regs" "kick_synced qo eb regs (v, w)"
    and "\<And>fd. new_kick = Some fd \<Longrightarrow> fresh_fd regs fd (v, w)"
  shows "\<exists>w'. set_kick qo ctl eb new_kick (v, w) = (Ok (), (v\<lparr>kick := new_kick\<rparr>, w')) \<and>
              kick_synced qo eb regs (v\<lparr>kick := new_kick\<rparr>, w') \<and>
              touches regs (set_option (kick v) \<union> set_option new_kick) w w'"
proof (cases "is_started qo v")
  case False
  with assms(2,3) show ?thesis
    by (auto simp: set_kick_def kick_synced_def is_started_def fresh_fd_def)
next
  case True
  have "all_updatable regs (kick v) new_kick (epolls v) w"
    using assms(2,3) True by (auto simp: kick_synced_def all_updatable_def updatable_def fresh_fd_def)
  moreover have "distinct (map fst (epolls v))" using assms(2) by (simp add: kick_synced_def)
  ultimately obtain w' where w': "update_epolls ctl eb (kick v) new_kick (epolls v) w = (Ok (), w')"
      "epolls_updated regs eb (kick v) new_kick (epolls v) w w'"
    using update_epolls_ok [OF assms(1)] by metis
  have "regs ep' fd = Some (ev_in eb, t)" if a: "new_kick = Some fd" "(e, t) \<in> set (epolls v)" "w' e = Some ep'" for e t ep' fd
  proof -
    obtain ep where "w e = Some ep" using a(3) w'(2) by (metis epolls_updated_def not_Some_eq)
    with a w'(2) show ?thesis by (auto simp: epolls_updated_def updated_regs_def)
  qed
  moreover have "touches regs (set_option (kick v) \<union> set_option new_kick) w w'"
    using epolls_updated_touches [OF w'(2)] by simp
  ultimately show ?thesis using w'(1) assms(2) True
    by (auto simp: set_kick_def kick_synced_def is_started_def)
qed

text \<open>Stopping a stopped ring that still has its kick descriptor is an error as soon as one instance
  watches the ring.\<close>

lemma vring_stop_twice:
  assumes "epoll_contract ctl regs" "kick_synced qo eb regs (v, w)" "\<not> is_started qo v"
    and "kick v = Some fd" "epolls v = (e, token) # es" "w e = Some ep"
  shows "fst (vring_stop qo ctl eb (v, w)) = Err NotFound"
proof -
  have "regs ep fd = None" using assms(2-6) by (auto simp: kick_synced_def)
  with update_epolls_absent [of ctl regs w e ep fd eb None token es] assms show ?thesis
    by (auto simp: vring_stop_def split: prod.splits rust.splits)
qed

section \<open>Properties\<close>

text \<open>A queue that keeps the ready flag and the next available index, for the concrete runs.\<close>

definition flag_queue :: "(bool \<times> u16, 'mem) queue_ops" where
  "flag_queue = \<lparr>q_new = (\<lambda>_. Ok (False, 0)), q_ready = fst, q_set_ready = (\<lambda>b q. (b, snd q)),
     q_set_size = (\<lambda>_ q. q), q_next_avail = snd, q_set_next_avail = (\<lambda>n q. (fst q, n)),
     q_set_next_used = (\<lambda>_ q. q), q_set_event_idx = (\<lambda>_ q. q),
     q_try_set_desc_table_address = (\<lambda>_ q. (Ok (), q)), q_try_set_avail_ring_address = (\<lambda>_ q. (Ok (), q)),
     q_try_set_used_ring_address = (\<lambda>_ q. (Ok (), q)), q_used_idx = (\<lambda>_ _. Ok 0)\<rparr>"

lemma flag_queue_contract: "queue_contract flag_queue"
  by (auto simp: queue_contract_def flag_queue_def)

definition linux_event_bits :: event_bits where
  "linux_event_bits = \<lparr>ev_in = 1, ev_out = 4, ev_hang_up = 16, ev_read_hang_up = 0x2000, ev_all = 0x2015\<rparr>"

text \<open>C7: the kick of a started ring is watched by every living epoll instance of the ring, that of a stopped
  ring by none, and starting, stopping and changing the kick succeed and keep it so.\<close>

theorem kick_follows_ring:
  assumes "epoll_contract ctl regs" "queue_contract qo" "kick_synced qo eb regs (v, w)"
    and "\<And>fd. new_kick = Some fd \<Longrightarrow> fresh_fd regs fd (v, w)"
  shows "(let (r, vw) = (if is_started qo v then vring_stop qo ctl eb (v, w) else vring_start qo ctl eb (v, w))
          in r = Ok () \<and> kick_synced qo eb regs vw \<and> is_started qo (fst vw) = (\<not> is_started qo v)) \<and>
    (let (r, vw) = set_kick qo ctl eb new_kick (v, w)
     in r = Ok () \<and> kick_synced qo eb regs vw \<and> kick (fst vw) = new_kick)"
proof -
  have ready: "is_started qo (v\<lparr>queue := q_set_ready qo b (queue v)\<rparr>) = b" for b
    using assms(2) by (simp add: is_started_def queue_contractD)
  obtain w' where k: "set_kick qo ctl eb new_kick (v, w) = (Ok (), (v\<lparr>kick := new_kick\<rparr>, w'))"
      "kick_synced qo eb regs (v\<lparr>kick := new_kick\<rparr>, w')"
    using set_kick_ok [OF assms(1,3), of new_kick] assms(4) by blast
  show ?thesis
  proof (cases "is_started qo v")
    case True
    obtain w2 where "vring_stop qo ctl eb (v, w) = (Ok (), (v\<lparr>queue := q_set_ready qo False (queue v)\<rparr>, w2))"
      "kick_synced qo eb regs (v\<lparr>queue := q_set_ready qo False (queue v)\<rparr>, w2)"
      using vring_stop_ok [OF assms(1-3) True] by blast
    with k True ready [of False] show ?thesis by simp
  next
    case False
    obtain w2 where "vring_start qo ctl eb (v, w) = (Ok (), (v\<lparr>queue := q_set_ready qo True (queue v)\<rparr>, w2))"
      "kick_synced qo eb regs (v\<lparr>queue := q_set_ready qo True (queue v)\<rparr>, w2)"
      using vring_start_ok [OF assms(1-3) False] by blast
    with k False ready [of True] show ?thesis by simp
  qed
qed

theorem kick_follows_ring_witness:
  "let v = \<lparr>queue = (False, 0), enabled = True, kick = Some 7, call = None, err = None, epolls = [(0, 3)]\<rparr>;
       w = (\<lambda>e. if e = 0 then Some (\<lambda>_. None) else None);
       qo = flag_queue :: (bool \<times> u16, unit) queue_ops;
       (r, vw) = vring_start qo map_ctl linux_event_bits (v, w)
   in r = Ok () \<and> kick_synced qo linux_event_bits (\<lambda>ep. ep) vw \<and> is_started qo (fst vw)"
  using kick_follows_ring [OF epoll_contract_map_ctl flag_queue_contract [where 'a = unit], of linux_event_bits
      "\<lparr>queue = (False, 0), enabled = True, kick = Some 7, call = None, err = None, epolls = [(0, 3)]\<rparr>"
      "\<lambda>e. if e = 0 then Some (\<lambda>_. None) else None" None]
  by (simp add: kick_synced_def is_started_def flag_queue_def)

text \<open>Stopping a stopped ring that has kept its kick fails as soon as a living instance watches the ring; the
  caller of \<^verbatim>\<open>reset_device\<close> unwraps this error.\<close>

lemma stop_stopped_ring_fails:
  assumes "epoll_contract ctl regs" "kick_synced qo eb regs (v, w)" "\<not> is_started qo v"
    and "kick v = Some fd" "epolls v = (e, token) # es" "w e = Some ep"
  shows "fst (vring_stop qo ctl eb (v, w)) = Err NotFound"
  using assms by (rule vring_stop_twice)

lemma stop_stopped_ring_fails_witness:
  "fst (vring_stop flag_queue map_ctl linux_event_bits
     (\<lparr>queue = (False, 0), enabled = True, kick = Some 7, call = None, err = None, epolls = [(0, 3)]\<rparr>,
      (\<lambda>e. if e = 0 then Some (\<lambda>_. None) else None))) = Err NotFound"
  by (rule stop_stopped_ring_fails [OF epoll_contract_map_ctl, where e = 0 and token = 3 and es = "[]"
        and ep = "\<lambda>_. None" and fd = 7])
    (simp_all add: kick_synced_def is_started_def flag_queue_def)

end
