(* ===== verification/Bitmap.thy ===== *)
theory Bitmap
  imports Event_Manager
begin

text \<open>
  The dirty-page log of live migration, \<^verbatim>\<open>vhost-user/src/bitmap.rs\<close>. The frontend maps one log,
  a byte array with one bit per guest page; every memory region has a bitmap that can be replaced at
  run time (\<^verbatim>\<open>BitmapMmapRegion\<close>), whose inner \<^verbatim>\<open>AtomicBitmapMmap\<close> is a window of the shared log.
  Logs and inner cells are shared through \<^verbatim>\<open>Arc\<close>, so they live in an explicit store; a region's
  bitmap and all its slices refer to the same cell. The abstract view of a log is the set of dirty
  page numbers (\<open>dirty_pages\<close>); marking refines the union with the marked range.
\<close>

section \<open>Pages, words and bits\<close>

definition LOG_PAGE_SIZE :: nat where
  "LOG_PAGE_SIZE = 4096"

definition LOG_WORD_SIZE :: nat where
  "LOG_WORD_SIZE = 8"

definition page_number :: "nat \<Rightarrow> nat" where
  "page_number addr = addr div LOG_PAGE_SIZE"

definition page_word :: "nat \<Rightarrow> nat" where
  "page_word page = page div LOG_WORD_SIZE"

definition page_bit :: "nat \<Rightarrow> nat" where
  "page_bit page = page mod LOG_WORD_SIZE"

section \<open>The window of one region\<close>

record atomic_bitmap =
  logmem :: nat
  pages_before_region :: nat
  number_of_pages :: nat

text \<open>\<^verbatim>\<open>AtomicBitmapMmap::new\<close> for a region at \<open>start_addr\<close> of \<open>len\<close> bytes and the log number \<open>lg\<close>
  of \<open>log_len\<close> bytes. \<^verbatim>\<open>io_try_into\<close> from \<^verbatim>\<open>u64\<close> to the 64-bit \<^verbatim>\<open>usize\<close> cannot fail.\<close>

definition atomic_bitmap_new :: "u64 \<Rightarrow> u64 \<Rightarrow> nat \<Rightarrow> nat \<Rightarrow> (atomic_bitmap, io_error) rust" where
  "atomic_bitmap_new start_addr len lg log_len =
     (let region_start_addr = unat start_addr; region_len = unat len
      in if region_len = 0 then Err InvalidData
         else and_then (ok_or InvalidData (checked_add region_start_addr (region_len - 1))) (\<lambda>region_end_addr.
           if page_word (page_number region_end_addr) \<ge> log_len then Err InvalidData
           else Ok \<lparr>logmem = lg,
                    pages_before_region = page_number region_start_addr,
                    number_of_pages = page_number region_len\<rparr>))"

text \<open>\<^verbatim>\<open>Index for MmapLogReg\<close>: the access asserts that it is inside the mapping.\<close>

definition log_index :: "u8 list \<Rightarrow> nat \<Rightarrow> (u8, 'e) rust" where
  "log_index log i = (if i < length log then Ok (log ! i) else Panic)"

text \<open>The loop of \<^verbatim>\<open>mark_dirty\<close> over \<^verbatim>\<open>first_page..=last_page\<close> with its \<^verbatim>\<open>break\<close> and \<^verbatim>\<open>fetch_or\<close>.\<close>

function mark_pages :: "atomic_bitmap \<Rightarrow> nat \<Rightarrow> nat \<Rightarrow> u8 list \<Rightarrow> (u8 list, io_error) rust" where
  "mark_pages b page last_page log =
     (if page > last_page then Ok log
      else if page \<ge> number_of_pages b then Ok log
      else let p = pages_before_region b + page
           in and_then (log_index log (page_word p)) (\<lambda>w.
                mark_pages b (Suc page) last_page (log[page_word p := w OR push_bit (page_bit p) 1])))"
  by pat_completeness auto
termination
  by (relation "measure (\<lambda>(b, page, last_page, log). Suc last_page - page)") auto

declare mark_pages.simps [simp del]

definition atomic_mark_dirty :: "atomic_bitmap \<Rightarrow> nat \<Rightarrow> nat \<Rightarrow> u8 list \<Rightarrow> (u8 list, io_error) rust" where
  "atomic_mark_dirty b offset len log =
     (if len = 0 then Ok log
      else mark_pages b (page_number offset) (page_number (saturating_add offset (len - 1))) log)"

definition atomic_dirty_at :: "atomic_bitmap \<Rightarrow> nat \<Rightarrow> u8 list \<Rightarrow> (bool, io_error) rust" where
  "atomic_dirty_at b offset log =
     (let page = page_number offset
      in if page \<ge> number_of_pages b then Ok False
         else let p = pages_before_region b + page
              in and_then (log_index log (page_word p)) (\<lambda>w. Ok (w AND push_bit (page_bit p) 1 \<noteq> 0)))"

section \<open>Mapping the log\<close>

text \<open>\<^verbatim>\<open>MmapLogReg::from_file\<close>: the system call \<^verbatim>\<open>mmap\<close> is the parameter; it is given the length
  and the offset and returns the mapped bytes or an error.\<close>

definition mmap_log_from_file ::
  "(nat \<Rightarrow> nat \<Rightarrow> (u8 list, io_error) rust) \<Rightarrow> u64 \<Rightarrow> u64 \<Rightarrow> (u8 list, io_error) rust" where
  "mmap_log_from_file mmap offset len =
     (if unat offset \<ge> 2 ^ 63 then Err InvalidData
      else if unat len > 2 ^ 63 - 1 then Err InvalidData
      else mmap (unat len) (unat offset))"

section \<open>The replaceable bitmap of a region\<close>

record log_store =
  logs :: "nat \<Rightarrow> u8 list"
  inners :: "nat \<Rightarrow> atomic_bitmap option"

record bitmap_region =
  inner :: nat
  base_address :: nat

definition region_mark_dirty :: "bitmap_region \<Rightarrow> nat \<Rightarrow> nat \<Rightarrow> (log_store, unit, io_error) rust_method" where
  "region_mark_dirty r offset len s =
     (case inners s (inner r) of
        None \<Rightarrow> (Ok (), s)
      | Some bitmap \<Rightarrow>
          (case checked_add (base_address r) offset of
             None \<Rightarrow> (Ok (), s)
           | Some absolute_offset \<Rightarrow>
               (case atomic_mark_dirty bitmap absolute_offset len (logs s (logmem bitmap)) of
                  Ok log' \<Rightarrow> (Ok (), s\<lparr>logs := (logs s)(logmem bitmap := log')\<rparr>)
                | Err e \<Rightarrow> (Err e, s)
                | Panic \<Rightarrow> (Panic, s))))"

definition region_dirty_at :: "bitmap_region \<Rightarrow> nat \<Rightarrow> log_store \<Rightarrow> (bool, io_error) rust" where
  "region_dirty_at r offset s =
     (case inners s (inner r) of
        None \<Rightarrow> Ok False
      | Some bitmap \<Rightarrow>
          atomic_dirty_at bitmap (saturating_add (base_address r) offset) (logs s (logmem bitmap)))"

definition slice_at :: "bitmap_region \<Rightarrow> nat \<Rightarrow> bitmap_region" where
  "slice_at r offset = \<lparr>inner = inner r, base_address = saturating_add (base_address r) offset\<rparr>"

text \<open>\<^verbatim>\<open>BitmapReplace::replace\<close> writes the shared cell.\<close>

definition replace_bitmap :: "bitmap_region \<Rightarrow> atomic_bitmap \<Rightarrow> log_store \<Rightarrow> log_store" where
  "replace_bitmap r bitmap s = s\<lparr>inners := (inners s)(inner r \<mapsto> bitmap)\<rparr>"

text \<open>\<^verbatim>\<open>NewBitmap::with_len\<close>: the default region with an empty cell of its own, number \<open>cell\<close>.\<close>

definition with_len :: "nat \<Rightarrow> nat \<Rightarrow> log_store \<Rightarrow> bitmap_region \<times> log_store" where
  "with_len cell len s = (\<lparr>inner = cell, base_address = 0\<rparr>, s\<lparr>inners := (inners s)(cell := None)\<rparr>)"

text \<open>The unit bitmap: \<^verbatim>\<open>new\<close> is unsupported and \<^verbatim>\<open>replace\<close> panics.\<close>

definition unit_bitmap_new :: "(unit, io_error) rust" where
  "unit_bitmap_new = Err Unsupported"

definition unit_bitmap_replace :: "(unit, io_error) rust" where
  "unit_bitmap_replace = Panic"

section \<open>The abstract view and the invariant\<close>

definition dirty_pages :: "u8 list \<Rightarrow> nat set" where
  "dirty_pages log = {p. page_word p < length log \<and> bit (log ! page_word p) (page_bit p)}"

text \<open>The pages of the window that lie between two page numbers relative to the region.\<close>

definition window_pages :: "atomic_bitmap \<Rightarrow> nat \<Rightarrow> nat \<Rightarrow> nat set" where
  "window_pages b first_page last_page =
     (\<lambda>p. pages_before_region b + p) ` {p. first_page \<le> p \<and> p \<le> last_page \<and> p < number_of_pages b}"

definition fits :: "atomic_bitmap \<Rightarrow> u8 list \<Rightarrow> bool" where
  "fits b log \<longleftrightarrow> pages_before_region b + number_of_pages b \<le> LOG_WORD_SIZE * length log"

definition store_ok :: "log_store \<Rightarrow> bool" where
  "store_ok s \<longleftrightarrow> (\<forall>c b. inners s c = Some b \<longrightarrow> fits b (logs s (logmem b)))"

section \<open>The contract of a bitmap\<close>

text \<open>What the writers of guest memory rely on. \<open>tracked b s\<close> are the byte offsets the bitmap
  covers in the state; \<open>same o o'\<close> says that two offsets of \<open>b\<close> lie on one page.\<close>

locale dirty_bitmap =
  fixes mark :: "'b \<Rightarrow> nat \<Rightarrow> nat \<Rightarrow> ('s, unit, io_error) rust_method"
    and dirty :: "'b \<Rightarrow> nat \<Rightarrow> 's \<Rightarrow> (bool, io_error) rust"
    and slice :: "'b \<Rightarrow> nat \<Rightarrow> 'b"
    and tracked :: "'b \<Rightarrow> 's \<Rightarrow> nat set"
    and inv :: "'s \<Rightarrow> bool"
  assumes mark_total: "inv s \<Longrightarrow> fst (mark b off len s) = Ok ()"
    and mark_inv: "inv s \<Longrightarrow> inv (snd (mark b off len s))"
    and dirty_total: "inv s \<Longrightarrow> \<exists>d. dirty b off s = Ok d"
    and mark_sets: "inv s \<Longrightarrow> off \<le> x \<Longrightarrow> x < off + len \<Longrightarrow> x \<in> tracked b s \<Longrightarrow>
                      dirty b x (snd (mark b off len s)) = Ok True"
    and mark_keeps: "inv s \<Longrightarrow> dirty c x s = Ok True \<Longrightarrow> dirty c x (snd (mark b off len s)) = Ok True"
    and slice_dirty: "dirty (slice b k) x s = Ok True \<longleftrightarrow> dirty b (k + x) s = Ok True"
    and mark_tracked: "inv s \<Longrightarrow> tracked c (snd (mark b off len s)) = tracked c s"
begin

text \<open>A sequence of writes, each marked after it happened, through bitmaps of one store.\<close>

fun mark_all :: "('b \<times> nat \<times> nat) list \<Rightarrow> ('s, unit, io_error) rust_method" where
  "mark_all [] s = (Ok (), s)"
| "mark_all ((b, off, len) # ws) s = bind_method (mark b off len) (\<lambda>_. mark_all ws) s"

lemma mark_all_step:
  "inv s \<Longrightarrow> mark_all ((b, off, len) # ws) s = mark_all ws (snd (mark b off len s))"
  using mark_total [of s b off len] by (cases "mark b off len s") (auto simp: bind_method_def)

lemma mark_all_keeps:
  "inv s \<Longrightarrow> dirty c x s = Ok True \<Longrightarrow> dirty c x (snd (mark_all ws s)) = Ok True"
proof (induction ws arbitrary: s)
  case (Cons w ws)
  obtain b off len where "w = (b, off, len)" by (cases w) auto
  with Cons show ?case
    by (simp add: mark_all_step mark_inv mark_keeps del: mark_all.simps(2))
qed simp

lemma mark_all_sets:
  assumes "inv s" "(b, off, len) \<in> set ws" "off \<le> x" "x < off + len" "x \<in> tracked b s"
  shows "dirty b x (snd (mark_all ws s)) = Ok True"
  using assms
proof (induction ws arbitrary: s)
  case (Cons w ws)
  obtain c o' l where w: "w = (c, o', l)" by (cases w) auto
  note step = mark_all_step [OF Cons.prems(1), of c o' l ws] mark_inv [OF Cons.prems(1), of c o' l]
  show ?case
  proof (cases "w = (b, off, len)")
    case True
    with w step mark_sets Cons.prems show ?thesis by (simp add: mark_all_keeps del: mark_all.simps(2))
  next
    case False
    with w Cons.prems(2) have "(b, off, len) \<in> set ws" by auto
    with Cons w step show ?thesis by (simp add: mark_tracked del: mark_all.simps(2))
  qed
qed simp

end

text \<open>The offsets that a region's bitmap covers: those on the pages of its window.\<close>

definition region_tracked :: "bitmap_region \<Rightarrow> log_store \<Rightarrow> nat set" where
  "region_tracked r s =
     {x. base_address r + x \<le> usize_max \<and>
         (\<exists>b. inners s (inner r) = Some b \<and> page_number (base_address r + x) < number_of_pages b)}"

section \<open>Lemmas\<close>

lemma page_bit_lt: "page_bit p < 8"
  by (simp add: page_bit_def LOG_WORD_SIZE_def)

lemma page_word_bit_eq: "page_word p = page_word q \<Longrightarrow> page_bit p = page_bit q \<Longrightarrow> p = q"
  unfolding page_word_def page_bit_def by (metis div_mult_mod_eq)

lemma page_word_lt: "p < LOG_WORD_SIZE * n \<Longrightarrow> page_word p < n"
  by (simp add: page_word_def LOG_WORD_SIZE_def less_mult_imp_div_less mult.commute)

lemma page_number_mono: "a \<le> b \<Longrightarrow> page_number a \<le> page_number b"
  by (simp add: page_number_def div_le_mono)

lemma dirty_pages_set_bit:
  assumes "page_word p < length log"
  shows "dirty_pages (log[page_word p := (log ! page_word p) OR 2 ^ page_bit p]) = insert p (dirty_pages log)"
proof -
  have "bit (2 ^ page_bit p :: u8) k \<longleftrightarrow> k = page_bit p" for k
    using page_bit_lt [of p] by (auto simp: bit_simps)
  then show ?thesis
    using assms by (auto simp: dirty_pages_def nth_list_update bit_or_iff dest: page_word_bit_eq)
qed

text \<open>The loop marks exactly the pages of the window in the range and never leaves the mapping.\<close>

lemma window_pages_step:
  "page \<le> last_page \<Longrightarrow> page < number_of_pages b \<Longrightarrow>
    window_pages b page last_page = insert (pages_before_region b + page) (window_pages b (Suc page) last_page)"
  unfolding window_pages_def by (auto simp: image_iff Suc_le_eq)

lemma mark_pages_refines:
  "fits b log \<Longrightarrow>
    \<exists>log'. mark_pages b page last_page log = Ok log' \<and> length log' = length log \<and>
           dirty_pages log' = dirty_pages log \<union> window_pages b page last_page"
proof (induction b page last_page log rule: mark_pages.induct)
  case (1 b page last_page log)
  show ?case
  proof (cases "page \<le> last_page \<and> page < number_of_pages b")
    case True
    let ?p = "pages_before_region b + page"
    let ?log = "log[page_word ?p := log ! page_word ?p OR 2 ^ page_bit ?p]"
    have in_log: "page_word ?p < length log"
      using True 1(2) by (intro page_word_lt) (simp add: fits_def)
    then have idx: "log_index log (page_word ?p) = (Ok (log ! page_word ?p) :: (u8, io_error) rust)"
      by (simp add: log_index_def)
    have "fits b ?log" using 1(2) by (simp add: fits_def)
    then obtain log' where log': "mark_pages b (Suc page) last_page ?log = Ok log'" "length log' = length log"
        "dirty_pages log' = dirty_pages ?log \<union> window_pages b (Suc page) last_page"
      using 1(1) [of ?p "log ! page_word ?p"] True by auto
    have "mark_pages b page last_page log = Ok log'"
      using True idx log'(1) by (subst mark_pages.simps) (simp add: Let_def)
    with log' in_log True show ?thesis
      by (simp add: dirty_pages_set_bit window_pages_step)
  next
    case False
    then have "window_pages b page last_page = {}" by (auto simp: window_pages_def)
    moreover have "mark_pages b page last_page log = Ok log"
      using False by (subst mark_pages.simps) auto
    ultimately show ?thesis by simp
  qed
qed

lemma atomic_mark_dirty_refines:
  assumes "fits b log"
  obtains log' where "atomic_mark_dirty b off len log = Ok log'" "length log' = length log"
    "dirty_pages log' = dirty_pages log \<union>
       (if len = 0 then {} else window_pages b (page_number off) (page_number (saturating_add off (len - 1))))"
  using mark_pages_refines [OF assms, of "page_number off" "page_number (saturating_add off (len - 1))"]
  that [unfolded atomic_mark_dirty_def] by (cases "len = 0") auto

lemma atomic_dirty_at_iff:
  assumes "fits b log"
  shows "atomic_dirty_at b off log =
           Ok (page_number off < number_of_pages b \<and> pages_before_region b + page_number off \<in> dirty_pages log)"
proof (cases "page_number off < number_of_pages b")
  case True
  then have "page_word (pages_before_region b + page_number off) < length log"
    using assms by (intro page_word_lt) (simp add: fits_def)
  then show ?thesis
    using True page_bit_lt by (simp add: atomic_dirty_at_def log_index_def dirty_pages_def and_exp_eq_0_iff_not_bit Let_def)
qed (simp add: atomic_dirty_at_def)

lemma atomic_bitmap_new_fits:
  assumes "atomic_bitmap_new start len lg (length log) = Ok b"
  shows "fits b log"
proof -
  let ?s = "unat start" and ?l = "unat len"
  have l: "?l \<noteq> 0" and e: "page_word (page_number (?s + (?l - 1))) < length log"
    and b: "pages_before_region b = page_number ?s" "number_of_pages b = page_number ?l"
    using assms by (auto simp: atomic_bitmap_new_def Let_def rust_simps ok_or_def split: if_splits option.splits)
  have "page_number ?s + page_number ?l \<le> page_number (?s + (?l - 1)) + 1"
    using l unfolding page_number_def LOG_PAGE_SIZE_def by linarith
  moreover have "page_number (?s + (?l - 1)) < LOG_WORD_SIZE * length log"
    using e unfolding page_word_def LOG_WORD_SIZE_def by linarith
  ultimately show ?thesis using b by (simp add: fits_def)
qed

lemma fits_length: "fits b log \<Longrightarrow> length log' = length log \<Longrightarrow> fits b log'"
  by (simp add: fits_def)

text \<open>A marking through one cell of the store, seen from every other cell.\<close>

lemma region_mark_dirty_cases:
  assumes "store_ok s"
  obtains (ignored) "region_mark_dirty r off len s = (Ok (), s)"
      "inners s (inner r) = None \<or> base_address r + off > usize_max"
  | (marked) b log' where "inners s (inner r) = Some b" "base_address r + off \<le> usize_max"
      "region_mark_dirty r off len s = (Ok (), s\<lparr>logs := (logs s)(logmem b := log')\<rparr>)"
      "length log' = length (logs s (logmem b))"
      "dirty_pages log' = dirty_pages (logs s (logmem b)) \<union>
        (if len = 0 then {}
         else window_pages b (page_number (base_address r + off))
                (page_number (saturating_add (base_address r + off) (len - 1))))"
proof (cases "inners s (inner r)")
  case None
  then show ?thesis using ignored by (simp add: region_mark_dirty_def)
next
  case (Some b)
  show ?thesis
  proof (cases "base_address r + off \<le> usize_max")
    case True
    have "fits b (logs s (logmem b))" using assms Some by (simp add: store_ok_def)
    then obtain log' where "atomic_mark_dirty b (base_address r + off) len (logs s (logmem b)) = Ok log'"
      "length log' = length (logs s (logmem b))"
      "dirty_pages log' = dirty_pages (logs s (logmem b)) \<union>
        (if len = 0 then {}
         else window_pages b (page_number (base_address r + off))
                (page_number (saturating_add (base_address r + off) (len - 1))))"
      by (rule atomic_mark_dirty_refines)
    with Some True show ?thesis
      by (intro marked [of b log']) (simp_all add: region_mark_dirty_def checked_add_def)
  next
    case False
    with Some ignored show ?thesis by (simp add: region_mark_dirty_def checked_add_def)
  qed
qed

lemma store_ok_mark: "store_ok s \<Longrightarrow> store_ok (snd (region_mark_dirty r off len s))"
  by (rule region_mark_dirty_cases [of s r off len]) (auto simp: store_ok_def, metis fits_length)

lemma region_dirty_at_iff:
  assumes "store_ok s"
  shows "region_dirty_at r off s = Ok (case inners s (inner r) of None \<Rightarrow> False | Some b \<Rightarrow>
           (let p = page_number (saturating_add (base_address r) off)
            in p < number_of_pages b \<and> pages_before_region b + p \<in> dirty_pages (logs s (logmem b))))"
  using assms by (auto simp: region_dirty_at_def store_ok_def atomic_dirty_at_iff Let_def split: option.splits)

lemma region_mark_keeps:
  assumes "store_ok s" "region_dirty_at c x s = Ok True"
  shows "region_dirty_at c x (snd (region_mark_dirty r off len s)) = Ok True"
proof (rule region_mark_dirty_cases [OF assms(1), of r off len])
  fix b log'
  assume m: "region_mark_dirty r off len s = (Ok (), s\<lparr>logs := (logs s)(logmem b := log')\<rparr>)"
    and d: "dirty_pages log' = dirty_pages (logs s (logmem b)) \<union>
        (if len = 0 then {}
         else window_pages b (page_number (base_address r + off))
                (page_number (saturating_add (base_address r + off) (len - 1))))"
  have ok': "store_ok (s\<lparr>logs := (logs s)(logmem b := log')\<rparr>)"
    using store_ok_mark [OF assms(1), of r off len] m by simp
  show ?thesis
    using assms m d
    by (auto simp: region_dirty_at_iff ok' Let_def split: option.splits)
qed (use assms in auto)

lemma region_mark_sets:
  assumes "store_ok s" "off \<le> x" "x < off + len" "x \<in> region_tracked r s"
  shows "region_dirty_at r x (snd (region_mark_dirty r off len s)) = Ok True"
proof (rule region_mark_dirty_cases [OF assms(1), of r off len])
  assume "inners s (inner r) = None \<or> base_address r + off > usize_max"
  then show ?thesis using assms(2,4) by (auto simp: region_tracked_def)
next
  fix b log'
  assume i: "inners s (inner r) = Some b"
    and m: "region_mark_dirty r off len s = (Ok (), s\<lparr>logs := (logs s)(logmem b := log')\<rparr>)"
    and d: "dirty_pages log' = dirty_pages (logs s (logmem b)) \<union>
        (if len = 0 then {}
         else window_pages b (page_number (base_address r + off))
                (page_number (saturating_add (base_address r + off) (len - 1))))"
  have ok': "store_ok (s\<lparr>logs := (logs s)(logmem b := log')\<rparr>)"
    using store_ok_mark [OF assms(1), of r off len] m by simp
  have x: "base_address r + x \<le> usize_max" "page_number (base_address r + x) < number_of_pages b"
    using assms(4) i by (auto simp: region_tracked_def)
  then have sat: "saturating_add (base_address r) x = base_address r + x"
    by (simp add: saturating_add_def)
  have "page_number (base_address r + off) \<le> page_number (base_address r + x)"
    "page_number (base_address r + x) \<le> page_number (saturating_add (base_address r + off) (len - 1))"
    using assms(2,3) x(1) by (auto intro!: page_number_mono simp: saturating_add_def)
  then have "pages_before_region b + page_number (base_address r + x) \<in> dirty_pages log'"
    using d x(2) assms(2,3) by (auto simp: window_pages_def)
  then show ?thesis using i m x(2) sat by (simp add: region_dirty_at_iff ok' Let_def)
qed

lemma region_mark_tracked:
  "store_ok s \<Longrightarrow> region_tracked c (snd (region_mark_dirty r off len s)) = region_tracked c s"
  by (rule region_mark_dirty_cases [of s r off len]) (auto simp: region_tracked_def)

lemma saturating_add_assoc: "saturating_add (saturating_add a b) c = saturating_add a (b + c)"
  by (simp add: saturating_add_def min_def)

lemma slice_dirty_at: "region_dirty_at (slice_at r k) x s = region_dirty_at r (k + x) s"
  by (simp add: region_dirty_at_def slice_at_def saturating_add_assoc split: option.split)

interpretation mmap_bitmap: dirty_bitmap region_mark_dirty region_dirty_at slice_at region_tracked store_ok
proof unfold_locales
  fix s b off len
  assume "store_ok s"
  then show "fst (region_mark_dirty b off len s) = Ok ()"
    by (rule region_mark_dirty_cases [of s b off len]) auto
next
  fix s b off
  assume "store_ok s"
  then show "\<exists>d. region_dirty_at b off s = Ok d" by (simp add: region_dirty_at_iff)
qed (simp_all add: store_ok_mark region_mark_sets region_mark_keeps region_mark_tracked slice_dirty_at)

lemma store_ok_replace:
  "store_ok s \<Longrightarrow> fits b (logs s (logmem b)) \<Longrightarrow> store_ok (replace_bitmap r b s)"
  by (auto simp: store_ok_def replace_bitmap_def)

lemma store_ok_with_len: "store_ok s \<Longrightarrow> store_ok (snd (with_len cell len s))"
  by (auto simp: store_ok_def with_len_def)

section \<open>Properties\<close>

text \<open>C9: marking a range sets exactly the pages of the region's window that the range touches, leaves every
  other page of the log as it was, and never leaves the mapping.\<close>

theorem mark_dirty_exact:
  assumes "atomic_bitmap_new start len lg (length log) = Ok b"
  shows "\<exists>log'. atomic_mark_dirty b off n log = Ok log' \<and> length log' = length log \<and>
    dirty_pages log' = dirty_pages log \<union>
      (if n = 0 then {} else window_pages b (page_number off) (page_number (saturating_add off (n - 1))))"
  by (rule atomic_mark_dirty_refines [OF atomic_bitmap_new_fits [OF assms], of off n]) blast

theorem mark_dirty_exact_witness:
  "\<exists>b log'. atomic_bitmap_new 0 0x8000 3 1 = Ok b \<and> atomic_mark_dirty b 0x1000 0x1001 [0] = Ok log' \<and>
    dirty_pages log' = dirty_pages [0] \<union> window_pages b 1 2"
proof -
  let ?b = "\<lparr>logmem = 3, pages_before_region = 0, number_of_pages = 8\<rparr>"
  have n: "atomic_bitmap_new 0 0x8000 3 (length [0 :: u8]) = Ok ?b"
    by (simp add: atomic_bitmap_new_def page_number_def page_word_def LOG_PAGE_SIZE_def LOG_WORD_SIZE_def
        usize_max_def checked_add_def)
  from mark_dirty_exact [OF n, of "0x1000" "0x1001"] obtain log' where
    "atomic_mark_dirty ?b 0x1000 0x1001 [0] = Ok log'" "dirty_pages log' = dirty_pages [0] \<union> window_pages ?b 1 2"
    by (auto simp: page_number_def LOG_PAGE_SIZE_def saturating_add_def usize_max_def)
  with n show ?thesis by auto
qed

text \<open>A sequence of marked writes.\<close>

fun mark_writes :: "(bitmap_region \<times> nat \<times> nat) list \<Rightarrow> (log_store, unit, io_error) rust_method" where
  "mark_writes [] s = (Ok (), s)"
| "mark_writes ((b, off, len) # ws) s = bind_method (region_mark_dirty b off len) (\<lambda>_. mark_writes ws) s"

lemma mark_writes_all: "mark_writes ws s = mmap_bitmap.mark_all ws s"
proof (induction ws s rule: mark_writes.induct)
  case (2 b off len ws s)
  then show ?case by (simp add: bind_method_def split: prod.splits rust.splits)
qed simp

text \<open>After any sequence of writes, each marked through the bitmap of its region, every byte that was
  written and lies in the window of its region reads as dirty, whatever was written in between through
  other regions or slices that share a log.\<close>

lemma written_bytes_dirty:
  assumes "store_ok s" "(r, off, len) \<in> set ws" "off \<le> x" "x < off + len" "x \<in> region_tracked r s"
  shows "region_dirty_at r x (snd (mark_writes ws s)) = Ok True"
  unfolding mark_writes_all using assms by (rule mmap_bitmap.mark_all_sets)

lemma written_bytes_dirty_witness:
  "region_dirty_at \<lparr>inner = 0, base_address = 0\<rparr> 4100
     (snd (mark_writes [(\<lparr>inner = 0, base_address = 0\<rparr>, 4096, 10)]
       \<lparr>logs = (\<lambda>_. [0]), inners = (\<lambda>_. Some \<lparr>logmem = 0, pages_before_region = 0, number_of_pages = 8\<rparr>)\<rparr>)) = Ok True"
  by (rule written_bytes_dirty [where off = 4096 and len = 10])
    (simp_all add: store_ok_def fits_def LOG_WORD_SIZE_def region_tracked_def usize_max_def page_number_def LOG_PAGE_SIZE_def)

end
