(* ===== verification/Vhost_Device.thy ===== *)
theory Vhost_Device
  imports Vring Bitmap
begin

text \<open>
  The traits between the vhost-user protocol and a device: \<^verbatim>\<open>VirtioDevice\<close> (\<^verbatim>\<open>virtio/src/lib.rs\<close>),
  \<^verbatim>\<open>VhostUserDevice\<close> and the delegation \<^verbatim>\<open>VhostUserDeviceImplementer\<close> (\<^verbatim>\<open>vhost-user/src/backend.rs\<close>),
  which adds the protocol-features bit to what the device offers and takes it off again. A trait is a
  record of operations. Activating a device hands it the rings, which it shares with the handler, so
  activation acts on the device, the rings and the epoll instances; stopping and resetting end the worker
  threads, whose epoll instances are closed with them. The protocol-features bit comes from
  the crate \<^verbatim>\<open>vhost\<close> and is the parameter \<open>pf\<close>.
\<close>

section \<open>Traits\<close>

record guest_region =
  gr_start :: u64
  gr_len :: u64
  gr_bitmap :: bitmap_region

type_synonym guest_memory = "guest_region list"

type_synonym ('d, 'q, 'ep) with_rings = "'d \<times> 'q vring list \<times> 'ep world"

text \<open>\<open>read_config\<close> is given the offset and the length of the zeroed buffer and returns the buffer.\<close>

record ('v, 'q, 'ep) virtio_device_ops =
  vd_device_type :: "'v \<Rightarrow> (u32, unit) rust"
  vd_avail_features :: "'v \<Rightarrow> u64"
  vd_acked_features :: "'v \<Rightarrow> u64"
  vd_set_acked_features :: "u64 \<Rightarrow> 'v \<Rightarrow> 'v"
  vd_queues :: "'v \<Rightarrow> u16 list"
  vd_read_config :: "nat \<Rightarrow> nat \<Rightarrow> 'v \<Rightarrow> (u8 list, unit) rust"
  vd_write_config :: "nat \<Rightarrow> u8 list \<Rightarrow> ('v, unit, unit) rust_method"
  vd_activate :: "guest_memory \<Rightarrow> (('v, 'q, 'ep) with_rings, unit, unit) rust_method"
  vd_stop :: "('v \<times> 'ep world, unit, unit) rust_method"
  vd_reset :: "('v \<times> 'ep world, bool, unit) rust_method"

record ('d, 'q, 'ep) vhost_device_ops =
  dv_protocol_features :: "'d \<Rightarrow> u64"
  dv_avail_features :: "'d \<Rightarrow> u64"
  dv_acked_features :: "'d \<Rightarrow> u64"
  dv_set_acked_features :: "u64 \<Rightarrow> ('d, unit, unit) rust_method"
  dv_queues :: "'d \<Rightarrow> u16 list"
  dv_read_config :: "nat \<Rightarrow> nat \<Rightarrow> 'd \<Rightarrow> (u8 list, unit) rust"
  dv_write_config :: "nat \<Rightarrow> u8 list \<Rightarrow> ('d, unit, unit) rust_method"
  dv_activate :: "guest_memory \<Rightarrow> (('d, 'q, 'ep) with_rings, unit, unit) rust_method"
  dv_stop :: "('d \<times> 'ep world, unit, unit) rust_method"
  dv_reset :: "('d \<times> 'ep world, bool, unit) rust_method"
  dv_set_gpu_socket :: "nat \<Rightarrow> 'd \<Rightarrow> 'd"

section \<open>The delegation\<close>

definition impl_avail_features :: "u64 \<Rightarrow> ('v, 'q, 'ep) virtio_device_ops \<Rightarrow> 'v \<Rightarrow> u64" where
  "impl_avail_features pf vd v = vd_avail_features vd v OR pf"

definition impl_acked_features :: "u64 \<Rightarrow> ('v, 'q, 'ep) virtio_device_ops \<Rightarrow> 'v \<Rightarrow> u64" where
  "impl_acked_features pf vd v = vd_acked_features vd v OR pf"

definition impl_set_acked_features :: "u64 \<Rightarrow> ('v, 'q, 'ep) virtio_device_ops \<Rightarrow> u64 \<Rightarrow> ('v, unit, unit) rust_method" where
  "impl_set_acked_features pf vd acked_features v =
     (if acked_features AND pf \<noteq> pf then (Panic, v)
      else (Ok (), vd_set_acked_features vd (acked_features XOR pf) v))"

text \<open>\<^verbatim>\<open>impl VhostUserDevice for I\<close>: the implementer gives its protocol features and may hook up the gpu
  socket; the default ignores it.\<close>

definition implementer ::
  "u64 \<Rightarrow> ('v \<Rightarrow> u64) \<Rightarrow> (nat \<Rightarrow> 'v \<Rightarrow> 'v) \<Rightarrow> ('v, 'q, 'ep) virtio_device_ops \<Rightarrow> ('v, 'q, 'ep) vhost_device_ops" where
  "implementer pf protocol_features set_gpu_socket vd = \<lparr>
     dv_protocol_features = protocol_features,
     dv_avail_features = impl_avail_features pf vd,
     dv_acked_features = impl_acked_features pf vd,
     dv_set_acked_features = impl_set_acked_features pf vd,
     dv_queues = vd_queues vd,
     dv_read_config = vd_read_config vd,
     dv_write_config = vd_write_config vd,
     dv_activate = vd_activate vd,
     dv_stop = vd_stop vd,
     dv_reset = vd_reset vd,
     dv_set_gpu_socket = set_gpu_socket\<rparr>"

definition default_set_gpu_socket :: "nat \<Rightarrow> 'v \<Rightarrow> 'v" where
  "default_set_gpu_socket gpu_backend v = v"

section \<open>The contract of the features\<close>

text \<open>The invariant the trait asks for, and that the offer does not depend on what is acknowledged; \<open>ok\<close> describes
  the states the device can be in.\<close>

locale virtio_features =
  fixes vd :: "('v, 'q, 'ep) virtio_device_ops" and ok :: "'v \<Rightarrow> bool"
  assumes acked_offered: "ok v \<Longrightarrow> vd_acked_features vd (vd_set_acked_features vd f v) AND
                            vd_avail_features vd (vd_set_acked_features vd f v)
                          = vd_acked_features vd (vd_set_acked_features vd f v)"
    and acked_all: "ok v \<Longrightarrow> f AND vd_avail_features vd v = f \<Longrightarrow> vd_acked_features vd (vd_set_acked_features vd f v) = f"
    and offer_fixed: "ok v \<Longrightarrow> vd_avail_features vd (vd_set_acked_features vd f v) = vd_avail_features vd v"
    and stays_ok: "ok v \<Longrightarrow> ok (vd_set_acked_features vd f v)"
begin

text \<open>Through the delegation: features inside the offer and with the protocol bit are acknowledged as they
  are.\<close>

lemma impl_acked:
  assumes "f AND impl_avail_features pf vd v = f" "f AND pf = pf" "vd_avail_features vd v AND pf = 0" "ok v"
  shows "fst (impl_set_acked_features pf vd f v) = Ok ()"
    "impl_acked_features pf vd (snd (impl_set_acked_features pf vd f v)) = f"
    "impl_avail_features pf vd (snd (impl_set_acked_features pf vd f v)) = impl_avail_features pf vd v"
proof -
  have b1: "bit f i \<Longrightarrow> bit (vd_avail_features vd v) i \<or> bit pf i" for i
    using arg_cong [where f = "\<lambda>x. bit x i", OF assms(1)] by (auto simp: impl_avail_features_def bit_simps)
  have b2: "bit pf i \<Longrightarrow> bit f i" for i
    using arg_cong [where f = "\<lambda>x. bit x i", OF assms(2)] by (auto simp: bit_simps)
  have "(f XOR pf) AND vd_avail_features vd v = f XOR pf"
    by (rule bit_word_eqI) (use b1 b2 in \<open>auto simp: bit_simps\<close>)
  then have "vd_acked_features vd (vd_set_acked_features vd (f XOR pf) v) = f XOR pf" by (rule acked_all [OF assms(4)])
  moreover have "(f XOR pf) OR pf = f"
    by (rule bit_word_eqI) (use b2 in \<open>auto simp: bit_simps\<close>)
  ultimately show "impl_acked_features pf vd (snd (impl_set_acked_features pf vd f v)) = f"
    using assms(2) by (simp add: impl_acked_features_def impl_set_acked_features_def)
  show "fst (impl_set_acked_features pf vd f v) = Ok ()" using assms(2) by (simp add: impl_set_acked_features_def)
  show "impl_avail_features pf vd (snd (impl_set_acked_features pf vd f v)) = impl_avail_features pf vd v"
    by (simp add: impl_avail_features_def impl_set_acked_features_def offer_fixed assms(4))
qed

end

end
