(* ===== verification/Vhost_User_Handler.thy ===== *)
theory Vhost_User_Handler
  imports Vhost_Device
begin

text \<open>
  The handler of the vhost-user requests, \<^verbatim>\<open>vhost-user/src/handler.rs\<close>: its state and every request as
  a function on it, with the panics of the unwrapped ring operations. The memory map is the list of
  its regions; mapping a region and building, extending and cutting a map are the crate \<^verbatim>\<open>vm_memory\<close>,
  the parameter \<open>he_mem\<close>. The world of epoll instances and the dirty-page logs are part of the state,
  since rings and bitmaps act on them. The requests of the feature \<^verbatim>\<open>postcopy\<close>, which is off by default, are in \<open>Vhost_Postcopy\<close>.
\<close>

section \<open>State and environment\<close>

datatype vhost_user_error =
  InvalidParam | InvalidOperation string | BackendInternalError | InactiveFeature u64 | ReqHandlerError io_error
  | Disconnected | PartialMessage | SocketBroken io_error

record addr_mapping =
  am_vmm_addr :: u64
  am_size :: u64
  am_gpa_base :: u64

record vhost_user_memory_region =
  mr_guest_phys_addr :: u64
  mr_memory_size :: u64
  mr_user_addr :: u64
  mr_mmap_offset :: u64

record mem_ops =
  mo_mmap_region :: "vhost_user_memory_region \<Rightarrow> nat \<Rightarrow> (guest_region, vhost_user_error) rust"
  mo_from_regions :: "guest_region list \<Rightarrow> (guest_memory, unit) rust"
  mo_insert_region :: "guest_region \<Rightarrow> guest_memory \<Rightarrow> (guest_memory, unit) rust"
  mo_remove_region :: "u64 \<Rightarrow> u64 \<Rightarrow> guest_memory \<Rightarrow> (guest_memory, unit) rust"

text \<open>\<open>he_new_log\<close> is the number under which the next mapped log is kept; \<open>he_debug\<close> is as in the gpu.\<close>

record ('d, 'q, 'ep) handler_env =
  he_queue :: "('q, guest_memory) queue_ops"
  he_ctl :: "'ep epoll_ctl"
  he_bits :: event_bits
  he_device :: "('d, 'q, 'ep) vhost_device_ops"
  he_mem :: mem_ops
  he_mmap :: "nat \<Rightarrow> nat \<Rightarrow> nat \<Rightarrow> (u8 list, io_error) rust"
  he_protocol_features :: u64
  he_event_idx :: nat
  he_reply_ack :: u64
  he_shared_object :: u64
  he_debug :: bool

record ('d, 'q, 'ep) handler =
  h_device :: 'd
  h_device_activated :: bool
  h_memory_updated :: bool
  h_requested_queues :: "u16 list"
  h_owned :: bool
  h_features_acked :: bool
  h_acked_features :: u64
  h_acked_protocol_features :: u64
  h_mappings :: "addr_mapping list"
  h_atomic_mem :: guest_memory
  h_vrings :: "'q vring list"
  h_world :: "'ep world"
  h_store :: log_store
  h_next_log :: nat

type_synonym ('d, 'q, 'ep, 'a) request_method = "(('d, 'q, 'ep) handler, 'a, vhost_user_error) rust_method"

datatype handler_error = CreateVring nat | MissingMemoryMapping

fun new_vrings :: "('q, guest_memory) queue_ops \<Rightarrow> u16 list \<Rightarrow> ('q vring list, nat) rust" where
  "new_vrings qo [] = Ok []"
| "new_vrings qo (n # ns) = and_then (vring_new qo n) (\<lambda>v. and_then (new_vrings qo ns) (\<lambda>vs. Ok (v # vs)))"

definition handler_new ::
  "('d, 'q, 'ep) handler_env \<Rightarrow> 'd \<Rightarrow> guest_memory \<Rightarrow> 'ep world \<Rightarrow> log_store \<Rightarrow> (('d, 'q, 'ep) handler, handler_error) rust" where
  "handler_new env d mem w st =
     and_then (map_err CreateVring (new_vrings (he_queue env) (dv_queues (he_device env) d))) (\<lambda>vs.
       Ok \<lparr>h_device = d, h_device_activated = False, h_memory_updated = False,
           h_requested_queues = dv_queues (he_device env) d, h_owned = False, h_features_acked = False,
           h_acked_features = 0, h_acked_protocol_features = 0, h_mappings = [], h_atomic_mem = mem,
           h_vrings = vs, h_world = w, h_store = st, h_next_log = 0\<rparr>)"

section \<open>Helpers\<close>

text \<open>Sums of \<^verbatim>\<open>u64\<close>: they wrap, or panic when the build checks overflow.\<close>

definition u64_add :: "bool \<Rightarrow> u64 \<Rightarrow> u64 \<Rightarrow> (u64, 'e) rust" where
  "u64_add dbg a b = (if dbg \<and> unat a + unat b \<ge> 2 ^ 64 then Panic else Ok (a + b))"

fun vmm_va_to_gpa :: "bool \<Rightarrow> addr_mapping list \<Rightarrow> u64 \<Rightarrow> (u64, handler_error) rust" where
  "vmm_va_to_gpa dbg [] vmm_va = Err MissingMemoryMapping"
| "vmm_va_to_gpa dbg (m # ms) vmm_va =
     (if vmm_va \<ge> am_vmm_addr m
      then and_then (u64_add dbg (am_vmm_addr m) (am_size m)) (\<lambda>end_addr.
             if vmm_va < end_addr then u64_add dbg (vmm_va - am_vmm_addr m) (am_gpa_base m)
             else vmm_va_to_gpa dbg ms vmm_va)
      else vmm_va_to_gpa dbg ms vmm_va)"

text \<open>A ring operation through the table of rings, and its unwrapped form.\<close>

definition with_vring ::
  "nat \<Rightarrow> ('q vring \<times> 'ep world, 'a, 'e) rust_method \<Rightarrow> (('d, 'q, 'ep) handler, 'a, 'e) rust_method" where
  "with_vring i f h =
     (let (r, v, w) = f (h_vrings h ! i, h_world h)
      in (r, h\<lparr>h_vrings := (h_vrings h)[i := v], h_world := w\<rparr>))"

definition unwrapped :: "('s, 'a, 'e) rust_method \<Rightarrow> ('s, 'a, 'f) rust_method" where
  "unwrapped m s = (let (r, s') = m s in (unwrap r, s'))"

definition on_queue :: "nat \<Rightarrow> ('q \<Rightarrow> 'q) \<Rightarrow> ('d, 'q, 'ep) handler \<Rightarrow> ('d, 'q, 'ep) handler" where
  "on_queue i f h = h\<lparr>h_vrings := (h_vrings h)[i := (h_vrings h ! i)\<lparr>queue := f (queue (h_vrings h ! i))\<rparr>]\<rparr>"

definition on_vring :: "nat \<Rightarrow> ('q vring \<Rightarrow> 'q vring) \<Rightarrow> ('d, 'q, 'ep) handler \<Rightarrow> ('d, 'q, 'ep) handler" where
  "on_vring i f h = h\<lparr>h_vrings := (h_vrings h)[i := f (h_vrings h ! i)]\<rparr>"

text \<open>\<^verbatim>\<open>self.vrings.get(index).ok_or(InvalidParam)?\<close> in front of the rest of a request.\<close>

definition indexed :: "nat \<Rightarrow> ('d, 'q, 'ep, 'a) request_method \<Rightarrow> ('d, 'q, 'ep, 'a) request_method" where
  "indexed i m h = (if i < length (h_vrings h) then m h else (Err InvalidParam, h))"

definition activate_device :: "('d, 'q, 'ep) handler_env \<Rightarrow> ('d, 'q, 'ep, unit) request_method" where
  "activate_device env h =
     (let h1 = h\<lparr>h_device_activated := True\<rparr>;
          (r, d, vs, w) = dv_activate (he_device env) (h_atomic_mem h1) (h_device h1, h_vrings h1, h_world h1)
      in (map_err (\<lambda>_. BackendInternalError) r, h1\<lparr>h_device := d, h_vrings := vs, h_world := w\<rparr>))"

definition initialize_vring :: "('d, 'q, 'ep) handler_env \<Rightarrow> nat \<Rightarrow> ('d, 'q, 'ep, unit) request_method" where
  "initialize_vring env i h =
     (if i \<ge> length (h_vrings h) then (Panic, h)
      else if \<not> is_started (he_queue env) (h_vrings h ! i) \<and> has_kick_event (h_vrings h ! i)
      then bind_method (unwrapped (with_vring i (vring_start (he_queue env) (he_ctl env) (he_bits env)))) (\<lambda>_ h.
             if \<not> h_device_activated h \<and> h_memory_updated h then activate_device env h else (Ok (), h)) h
      else (Ok (), h))"

definition check_feature :: "u64 \<Rightarrow> ('d, 'q, 'ep, unit) request_method" where
  "check_feature feat h = (if h_acked_features h AND feat \<noteq> 0 then (Ok (), h) else (Err (InactiveFeature feat), h))"

section \<open>Requests\<close>

definition set_owner :: "('d, 'q, 'ep, unit) request_method" where
  "set_owner h = (if h_owned h then (Err (InvalidOperation ''already claimed''), h) else (Ok (), h\<lparr>h_owned := True\<rparr>))"

definition reset_owner :: "('d, 'q, 'ep, unit) request_method" where
  "reset_owner h =
     (Ok (), h\<lparr>h_owned := False, h_features_acked := False, h_acked_features := 0, h_acked_protocol_features := 0\<rparr>)"

text \<open>The loop of \<^verbatim>\<open>reset_device\<close> over the rings from index \<open>i\<close> on.\<close>

fun reset_vrings :: "('d, 'q, 'ep) handler_env \<Rightarrow> nat list \<Rightarrow> ('d, 'q, 'ep, unit) request_method" where
  "reset_vrings env [] h = (Ok (), h)"
| "reset_vrings env (i # is) h =
     bind_method (unwrapped (with_vring i (vring_stop (he_queue env) (he_ctl env) (he_bits env))))
       (\<lambda>_. reset_vrings env is) (on_vring i (set_enabled False) h)"

definition reset_device :: "('d, 'q, 'ep) handler_env \<Rightarrow> ('d, 'q, 'ep, unit) request_method" where
  "reset_device env h =
     bind_method (reset_vrings env [0..<length (h_vrings h)]) (\<lambda>_ h.
       let h1 = h\<lparr>h_features_acked := False, h_acked_features := 0\<rparr>;
           (r, d, w) = dv_reset (he_device env) (h_device h1, h_world h1)
       in (map_ok (\<lambda>_. ()) (unwrap r), h1\<lparr>h_device := d, h_world := w\<rparr>)) h"

definition get_features :: "('d, 'q, 'ep) handler_env \<Rightarrow> ('d, 'q, 'ep, u64) request_method" where
  "get_features env h = (Ok (dv_avail_features (he_device env) (h_device h)), h)"

definition set_features :: "('d, 'q, 'ep) handler_env \<Rightarrow> u64 \<Rightarrow> ('d, 'q, 'ep, unit) request_method" where
  "set_features env features h =
     (if features AND NOT (dv_avail_features (he_device env) (h_device h)) \<noteq> 0 then (Err InvalidParam, h)
      else let h1 = h\<lparr>h_acked_features := features, h_features_acked := True\<rparr>;
               h2 = (if h_acked_features h1 AND he_protocol_features env = 0
                     then h1\<lparr>h_vrings := map (set_enabled True) (h_vrings h1)\<rparr> else h1);
               event_idx = (h_acked_features h2 AND push_bit (he_event_idx env) 1 \<noteq> 0);
               h3 = h2\<lparr>h_vrings := map (\<lambda>v. v\<lparr>queue := q_set_event_idx (he_queue env) event_idx (queue v)\<rparr>) (h_vrings h2)\<rparr>;
               (r, d) = dv_set_acked_features (he_device env) (h_acked_features h3) (h_device h3)
           in (unwrap r, h3\<lparr>h_device := d\<rparr>))"

text \<open>The loop of \<^verbatim>\<open>set_mem_table\<close>.\<close>

definition mapping_of :: "vhost_user_memory_region \<Rightarrow> addr_mapping" where
  "mapping_of r = \<lparr>am_vmm_addr = mr_user_addr r, am_size = mr_memory_size r, am_gpa_base = mr_guest_phys_addr r\<rparr>"

fun map_regions ::
  "mem_ops \<Rightarrow> (vhost_user_memory_region \<times> nat) list \<Rightarrow> (guest_region list \<times> addr_mapping list, vhost_user_error) rust" where
  "map_regions mo [] = Ok ([], [])"
| "map_regions mo ((r, file) # rs) =
     and_then (mo_mmap_region mo r file) (\<lambda>g.
     and_then (map_regions mo rs) (\<lambda>(gs, ms). Ok (g # gs, mapping_of r # ms)))"

definition vm_memory_error :: "unit \<Rightarrow> vhost_user_error" where
  "vm_memory_error _ = ReqHandlerError (OtherIo 0)"

definition set_mem_table ::
  "('d, 'q, 'ep) handler_env \<Rightarrow> vhost_user_memory_region list \<Rightarrow> nat list \<Rightarrow> ('d, 'q, 'ep, unit) request_method" where
  "set_mem_table env ctx files h =
     (case map_regions (he_mem env) (zip ctx files) of
        Err e \<Rightarrow> (Err e, h)
      | Panic \<Rightarrow> (Panic, h)
      | Ok (regions, ms) \<Rightarrow>
          (case mo_from_regions (he_mem env) regions of
             Err e \<Rightarrow> (Err (vm_memory_error e), h)
           | Panic \<Rightarrow> (Panic, h)
           | Ok mem \<Rightarrow> (Ok (), h\<lparr>h_atomic_mem := mem, h_memory_updated := True, h_mappings := ms\<rparr>)))"

definition set_vring_num :: "('d, 'q, 'ep) handler_env \<Rightarrow> u32 \<Rightarrow> u32 \<Rightarrow> ('d, 'q, 'ep, unit) request_method" where
  "set_vring_num env index num = indexed (unat index) (\<lambda>h.
     if unat index \<ge> length (h_requested_queues h) \<and> num \<noteq> 0 then (Panic, h)
     else if num = 0 \<or> num > ucast (h_requested_queues h ! unat index) then (Err InvalidParam, h)
     else (Ok (), on_queue (unat index) (q_set_size (he_queue env) (ucast num)) h))"

text \<open>\<^verbatim>\<open>set_vring_addr\<close> translates the three addresses first and then changes the queue.\<close>

definition set_ring_addresses ::
  "('d, 'q, 'ep) handler_env \<Rightarrow> u32 \<Rightarrow> u64 \<Rightarrow> u64 \<Rightarrow> u64 \<Rightarrow> ('d, 'q, 'ep, unit) request_method" where
  "set_ring_addresses env index desc_table avail_ring used_ring = indexed (unat index) (\<lambda>h.
     let (r, v) = set_queue_info (he_queue env) desc_table avail_ring used_ring (h_vrings h ! unat index);
         h1 = h\<lparr>h_vrings := (h_vrings h)[unat index := v]\<rparr>
     in case r of
          Err _ \<Rightarrow> (Err InvalidParam, h1)
        | Panic \<Rightarrow> (Panic, h1)
        | Ok _ \<Rightarrow>
            (case q_used_idx (he_queue env) (h_atomic_mem h1) (queue v) of
               Err _ \<Rightarrow> (Err BackendInternalError, h1)
             | Panic \<Rightarrow> (Panic, h1)
             | Ok idx \<Rightarrow> (Ok (), on_queue (unat index) (q_set_next_used (he_queue env) idx) h1)))"

definition set_vring_addr ::
  "('d, 'q, 'ep) handler_env \<Rightarrow> u32 \<Rightarrow> u64 \<Rightarrow> u64 \<Rightarrow> u64 \<Rightarrow> ('d, 'q, 'ep, unit) request_method" where
  "set_vring_addr env index descriptor used available h =
     (if h_mappings h = [] then (Err InvalidParam, h)
      else let translate = (\<lambda>a. map_err (\<lambda>_. ReqHandlerError (OtherIo 0)) (vmm_va_to_gpa (he_debug env) (h_mappings h) a))
           in case and_then (translate descriptor) (\<lambda>d. and_then (translate available) (\<lambda>a.
                   and_then (translate used) (\<lambda>u. Ok (d, a, u)))) of
                Err e \<Rightarrow> (Err e, h)
              | Panic \<Rightarrow> (Panic, h)
              | Ok (desc_table, avail_ring, used_ring) \<Rightarrow> set_ring_addresses env index desc_table avail_ring used_ring h)"

definition set_vring_base :: "('d, 'q, 'ep) handler_env \<Rightarrow> u32 \<Rightarrow> u32 \<Rightarrow> ('d, 'q, 'ep, unit) request_method" where
  "set_vring_base env index base = indexed (unat index) (\<lambda>h.
     (Ok (), on_queue (unat index) (q_set_next_avail (he_queue env) (ucast base)) h))"

definition get_vring_base :: "('d, 'q, 'ep) handler_env \<Rightarrow> u32 \<Rightarrow> ('d, 'q, 'ep, u32 \<times> u32) request_method" where
  "get_vring_base env index = indexed (unat index)
     (bind_method (unwrapped (with_vring (unat index) (vring_stop (he_queue env) (he_ctl env) (he_bits env)))) (\<lambda>_ h.
        let next_avail = q_next_avail (he_queue env) (queue (h_vrings h ! unat index))
        in bind_method (unwrapped (with_vring (unat index) (set_kick (he_queue env) (he_ctl env) (he_bits env) None)))
             (\<lambda>_ h. (Ok (index, ucast next_avail), on_vring (unat index) (set_call None) h)) h))"

definition set_vring_kick :: "('d, 'q, 'ep) handler_env \<Rightarrow> u8 \<Rightarrow> nat option \<Rightarrow> ('d, 'q, 'ep, unit) request_method" where
  "set_vring_kick env index file = indexed (unat index)
     (bind_method (unwrapped (with_vring (unat index) (set_kick (he_queue env) (he_ctl env) (he_bits env) file)))
        (\<lambda>_. initialize_vring env (unat index)))"

definition set_vring_call :: "('d, 'q, 'ep) handler_env \<Rightarrow> u8 \<Rightarrow> nat option \<Rightarrow> ('d, 'q, 'ep, unit) request_method" where
  "set_vring_call env index file = indexed (unat index) (\<lambda>h.
     initialize_vring env (unat index) (on_vring (unat index) (set_call file) h))"

definition set_vring_err :: "u8 \<Rightarrow> nat option \<Rightarrow> ('d, 'q, 'ep, unit) request_method" where
  "set_vring_err index file = indexed (unat index) (\<lambda>h. (Ok (), on_vring (unat index) (set_err file) h))"

definition get_protocol_features :: "('d, 'q, 'ep) handler_env \<Rightarrow> ('d, 'q, 'ep, u64) request_method" where
  "get_protocol_features env h = (Ok (dv_protocol_features (he_device env) (h_device h)), h)"

definition set_protocol_features :: "u64 \<Rightarrow> ('d, 'q, 'ep, unit) request_method" where
  "set_protocol_features features h = (Ok (), h\<lparr>h_acked_protocol_features := features\<rparr>)"

definition get_queue_num :: "('d, 'q, 'ep, u64) request_method" where
  "get_queue_num h = (Ok (of_nat (length (h_requested_queues h))), h)"

definition set_vring_enable :: "('d, 'q, 'ep) handler_env \<Rightarrow> u32 \<Rightarrow> bool \<Rightarrow> ('d, 'q, 'ep, unit) request_method" where
  "set_vring_enable env index enable =
     bind_method (check_feature (he_protocol_features env)) (\<lambda>_.
       indexed (unat index) (\<lambda>h. (Ok (), on_vring (unat index) (set_enabled enable) h)))"

definition get_config :: "('d, 'q, 'ep) handler_env \<Rightarrow> u32 \<Rightarrow> u32 \<Rightarrow> ('d, 'q, 'ep, u8 list) request_method" where
  "get_config env offset sz h =
     (map_err (\<lambda>_. BackendInternalError) (dv_read_config (he_device env) (unat offset) (unat sz) (h_device h)), h)"

definition set_config :: "('d, 'q, 'ep) handler_env \<Rightarrow> u32 \<Rightarrow> u8 list \<Rightarrow> ('d, 'q, 'ep, unit) request_method" where
  "set_config env offset buf h =
     (let (r, d) = dv_write_config (he_device env) (unat offset) buf (h_device h)
      in (map_err (\<lambda>_. BackendInternalError) r, h\<lparr>h_device := d\<rparr>))"

text \<open>The flags that are set on the backend connection, whose state is outside: reply-ack, shared objects.\<close>

definition backend_req_flags :: "('d, 'q, 'ep) handler_env \<Rightarrow> ('d, 'q, 'ep) handler \<Rightarrow> bool \<times> bool" where
  "backend_req_flags env h =
     (h_acked_protocol_features h AND he_reply_ack env \<noteq> 0, h_acked_protocol_features h AND he_shared_object env \<noteq> 0)"

definition set_gpu_socket :: "('d, 'q, 'ep) handler_env \<Rightarrow> nat \<Rightarrow> ('d, 'q, 'ep, unit) request_method" where
  "set_gpu_socket env gpu_backend h = (Ok (), h\<lparr>h_device := dv_set_gpu_socket (he_device env) gpu_backend (h_device h)\<rparr>)"

definition inflight_fd :: "('d, 'q, 'ep, 'a) request_method" where
  "inflight_fd h = (Err (InvalidOperation ''not supported''), h)"

definition MAX_MEM_SLOTS :: u64 where
  "MAX_MEM_SLOTS = 509"

definition get_max_mem_slots :: "('d, 'q, 'ep, u64) request_method" where
  "get_max_mem_slots h = (Ok MAX_MEM_SLOTS, h)"

definition add_mem_region ::
  "('d, 'q, 'ep) handler_env \<Rightarrow> vhost_user_memory_region \<Rightarrow> nat \<Rightarrow> ('d, 'q, 'ep, unit) request_method" where
  "add_mem_region env region file h =
     (case mo_mmap_region (he_mem env) region file of
        Err e \<Rightarrow> (Err e, h)
      | Panic \<Rightarrow> (Panic, h)
      | Ok guest_region \<Rightarrow>
          (case mo_insert_region (he_mem env) guest_region (h_atomic_mem h) of
             Err e \<Rightarrow> (Err (vm_memory_error e), h)
           | Panic \<Rightarrow> (Panic, h)
           | Ok mem \<Rightarrow> (Ok (), h\<lparr>h_atomic_mem := mem, h_mappings := h_mappings h @ [mapping_of region]\<rparr>)))"

definition remove_mem_region ::
  "('d, 'q, 'ep) handler_env \<Rightarrow> vhost_user_memory_region \<Rightarrow> ('d, 'q, 'ep, unit) request_method" where
  "remove_mem_region env region h =
     (case mo_remove_region (he_mem env) (mr_guest_phys_addr region) (mr_memory_size region) (h_atomic_mem h) of
        Err e \<Rightarrow> (Err (vm_memory_error e), h)
      | Panic \<Rightarrow> (Panic, h)
      | Ok mem \<Rightarrow>
          (Ok (), h\<lparr>h_atomic_mem := mem,
             h_mappings := filter (\<lambda>m. am_gpa_base m \<noteq> mr_guest_phys_addr region) (h_mappings h)\<rparr>))"

text \<open>\<^verbatim>\<open>set_device_state_fd\<close> and \<^verbatim>\<open>check_device_state\<close> are \<^verbatim>\<open>todo!()\<close>.\<close>

definition device_state_todo :: "('d, 'q, 'ep, 'a) request_method" where
  "device_state_todo h = (Panic, h)"

text \<open>\<^verbatim>\<open>set_log_base\<close> for a bitmap that can be replaced: map the log, build all the bitmaps, then replace
  them. The log gets the next free number.\<close>

fun new_bitmaps :: "nat \<Rightarrow> nat \<Rightarrow> guest_region list \<Rightarrow> ((guest_region \<times> atomic_bitmap) list, io_error) rust" where
  "new_bitmaps lg log_len [] = Ok []"
| "new_bitmaps lg log_len (g # gs) =
     and_then (atomic_bitmap_new (gr_start g) (gr_len g) lg log_len) (\<lambda>b.
     and_then (new_bitmaps lg log_len gs) (\<lambda>bs. Ok ((g, b) # bs)))"

fun replace_bitmaps :: "(guest_region \<times> atomic_bitmap) list \<Rightarrow> log_store \<Rightarrow> log_store" where
  "replace_bitmaps [] s = s"
| "replace_bitmaps ((g, b) # bs) s = replace_bitmaps bs (replace_bitmap (gr_bitmap g) b s)"

definition set_log_base ::
  "('d, 'q, 'ep) handler_env \<Rightarrow> nat \<Rightarrow> u64 \<Rightarrow> u64 \<Rightarrow> ('d, 'q, 'ep, unit) request_method" where
  "set_log_base env file mmap_offset mmap_size h =
     (case mmap_log_from_file (he_mmap env file) mmap_offset mmap_size of
        Err e \<Rightarrow> (Err (ReqHandlerError e), h)
      | Panic \<Rightarrow> (Panic, h)
      | Ok log \<Rightarrow>
          (let lg = h_next_log h;
               h1 = h\<lparr>h_next_log := Suc lg, h_store := (h_store h)\<lparr>logs := (logs (h_store h))(lg := log)\<rparr>\<rparr>
           in case new_bitmaps lg (length log) (h_atomic_mem h1) of
                Err e \<Rightarrow> (Err (ReqHandlerError e), h1)
              | Panic \<Rightarrow> (Panic, h1)
              | Ok bitmaps \<Rightarrow> (Ok (), h1\<lparr>h_store := replace_bitmaps bitmaps (h_store h1)\<rparr>)))"

definition handler_drop :: "('d, 'q, 'ep) handler_env \<Rightarrow> ('d, 'q, 'ep) handler \<Rightarrow> (unit, unit) rust \<times> 'd \<times> 'ep world" where
  "handler_drop env h = dv_stop (he_device env) (h_device h, h_world h)"

section \<open>The request loop\<close>

datatype request =
    SetOwner | ResetOwner | ResetDevice | GetFeatures | SetFeatures u64
  | SetMemTable "vhost_user_memory_region list" "nat list"
  | SetVringNum u32 u32 | SetVringAddr u32 u64 u64 u64 | SetVringBase u32 u32 | GetVringBase u32
  | SetVringKick u8 "nat option" | SetVringCall u8 "nat option" | SetVringErr u8 "nat option"
  | GetProtocolFeatures | SetProtocolFeatures u64 | GetQueueNum | SetVringEnable u32 bool
  | GetConfig u32 u32 | SetConfig u32 "u8 list" | SetBackendReqFd | SetGpuSocket nat
  | GetInflightFd | SetInflightFd | GetMaxMemSlots
  | AddMemRegion vhost_user_memory_region nat | RemMemRegion vhost_user_memory_region
  | SetDeviceStateFd | CheckDeviceState | SetLogBase nat u64 u64

datatype reply = ReplyUnit | ReplyU64 u64 | ReplyVringState u32 u32 | ReplyConfig "u8 list"

definition replies :: "('a \<Rightarrow> reply) \<Rightarrow> ('d, 'q, 'ep, 'a) request_method \<Rightarrow> ('d, 'q, 'ep, reply) request_method" where
  "replies f m h = (let (r, h') = m h in (map_ok f r, h'))"

abbreviation unit_reply :: "('d, 'q, 'ep, unit) request_method \<Rightarrow> ('d, 'q, 'ep, reply) request_method" where
  "unit_reply \<equiv> replies (\<lambda>_. ReplyUnit)"

fun handle :: "('d, 'q, 'ep) handler_env \<Rightarrow> request \<Rightarrow> ('d, 'q, 'ep, reply) request_method" where
  "handle env SetOwner = unit_reply set_owner"
| "handle env ResetOwner = unit_reply reset_owner"
| "handle env ResetDevice = unit_reply (reset_device env)"
| "handle env GetFeatures = replies ReplyU64 (get_features env)"
| "handle env (SetFeatures f) = unit_reply (set_features env f)"
| "handle env (SetMemTable ctx files) = unit_reply (set_mem_table env ctx files)"
| "handle env (SetVringNum i n) = unit_reply (set_vring_num env i n)"
| "handle env (SetVringAddr i d u a) = unit_reply (set_vring_addr env i d u a)"
| "handle env (SetVringBase i b) = unit_reply (set_vring_base env i b)"
| "handle env (GetVringBase i) = replies (\<lambda>(i, n). ReplyVringState i n) (get_vring_base env i)"
| "handle env (SetVringKick i f) = unit_reply (set_vring_kick env i f)"
| "handle env (SetVringCall i f) = unit_reply (set_vring_call env i f)"
| "handle env (SetVringErr i f) = unit_reply (set_vring_err i f)"
| "handle env GetProtocolFeatures = replies ReplyU64 (get_protocol_features env)"
| "handle env (SetProtocolFeatures f) = unit_reply (set_protocol_features f)"
| "handle env GetQueueNum = replies ReplyU64 get_queue_num"
| "handle env (SetVringEnable i b) = unit_reply (set_vring_enable env i b)"
| "handle env (GetConfig off n) = replies ReplyConfig (get_config env off n)"
| "handle env (SetConfig off buf) = unit_reply (set_config env off buf)"
| "handle env SetBackendReqFd = unit_reply (return_method ())"
| "handle env (SetGpuSocket b) = unit_reply (set_gpu_socket env b)"
| "handle env GetInflightFd = inflight_fd"
| "handle env SetInflightFd = inflight_fd"
| "handle env GetMaxMemSlots = replies ReplyU64 get_max_mem_slots"
| "handle env (AddMemRegion r f) = unit_reply (add_mem_region env r f)"
| "handle env (RemMemRegion r) = unit_reply (remove_mem_region env r)"
| "handle env SetDeviceStateFd = device_state_todo"
| "handle env CheckDeviceState = device_state_todo"
| "handle env (SetLogBase f off n) = unit_reply (set_log_base env f off n)"

definition request_step :: "('d, 'q, 'ep) handler_env \<Rightarrow> request \<Rightarrow> ('d, 'q, 'ep) handler \<Rightarrow> ('d, 'q, 'ep) handler" where
  "request_step env x h = snd (handle env x h)"

section \<open>Address translation\<close>

text \<open>The mapping the loop picks: the first that contains the address.\<close>

definition contains_va :: "addr_mapping \<Rightarrow> u64 \<Rightarrow> bool" where
  "contains_va m va \<longleftrightarrow> unat (am_vmm_addr m) \<le> unat va \<and> unat va < unat (am_vmm_addr m) + unat (am_size m)"

definition mapping_sound :: "addr_mapping \<Rightarrow> bool" where
  "mapping_sound m \<longleftrightarrow> unat (am_vmm_addr m) + unat (am_size m) < 2 ^ 64 \<and> unat (am_gpa_base m) + unat (am_size m) < 2 ^ 64"

lemma u64_add_ok: "unat a + unat b < 2 ^ 64 \<Longrightarrow> u64_add dbg a b = Ok (a + b)"
  by (simp add: u64_add_def)

lemma unat_u64_add: "unat (a :: u64) + unat b < 2 ^ 64 \<Longrightarrow> unat (a + b) = unat a + unat b"
  by (simp add: unat_word_ariths)

lemma vmm_va_to_gpa_step:
  assumes "mapping_sound m"
  shows "vmm_va_to_gpa dbg (m # ms) va =
    (if contains_va m va then Ok (va - am_vmm_addr m + am_gpa_base m) else vmm_va_to_gpa dbg ms va)"
proof -
  have e: "u64_add dbg (am_vmm_addr m) (am_size m) = (Ok (am_vmm_addr m + am_size m) :: (u64, handler_error) rust)"
    using assms by (intro u64_add_ok) (simp add: mapping_sound_def)
  have s: "unat (am_vmm_addr m + am_size m) = unat (am_vmm_addr m) + unat (am_size m)"
    using assms by (intro unat_u64_add) (simp add: mapping_sound_def)
  show ?thesis
  proof (cases "contains_va m va")
    case True
    then have le: "am_vmm_addr m \<le> va" by (simp add: contains_va_def word_le_nat_alt)
    then have "unat (va - am_vmm_addr m) = unat va - unat (am_vmm_addr m)" by (simp add: unat_sub)
    with True assms have "unat (va - am_vmm_addr m) + unat (am_gpa_base m) < 2 ^ 64"
      unfolding contains_va_def mapping_sound_def by linarith
    from u64_add_ok [OF this, of dbg] True le e s show ?thesis
      by (simp add: contains_va_def word_less_nat_alt)
  next
    case False
    with e s show ?thesis by (auto simp: contains_va_def word_less_nat_alt word_le_nat_alt)
  qed
qed

lemma vmm_va_to_gpa_find:
  assumes "list_all mapping_sound ms"
  shows "vmm_va_to_gpa dbg ms va =
    (case find (\<lambda>m. contains_va m va) ms of
       None \<Rightarrow> Err MissingMemoryMapping
     | Some m \<Rightarrow> Ok (va - am_vmm_addr m + am_gpa_base m))"
  using assms by (induction ms) (simp_all add: vmm_va_to_gpa_step del: vmm_va_to_gpa.simps(2))

lemma translated_offset:
  assumes "mapping_sound m" "contains_va m va"
  shows "unat (va - am_vmm_addr m + am_gpa_base m) = unat (am_gpa_base m) + (unat va - unat (am_vmm_addr m))"
proof -
  have le: "am_vmm_addr m \<le> va" using assms(2) by (simp add: contains_va_def word_le_nat_alt)
  have "unat (va - am_vmm_addr m) + unat (am_gpa_base m) < 2 ^ 64"
    using assms le unfolding contains_va_def mapping_sound_def unat_sub [OF le] by linarith
  from unat_u64_add [OF this] le show ?thesis by (simp add: unat_sub)
qed

section \<open>Rejected requests\<close>

text \<open>The requests whose refusal changes nothing; the others may have set some addresses of a queue, started a
  ring, mapped a log or handed a value to the device before they fail.\<close>

fun all_or_nothing :: "request \<Rightarrow> bool" where
  "all_or_nothing (SetVringAddr _ _ _ _) = False"
| "all_or_nothing (SetVringKick _ _) = False"
| "all_or_nothing (SetVringCall _ _) = False"
| "all_or_nothing (SetConfig _ _) = False"
| "all_or_nothing (SetLogBase _ _ _) = False"
| "all_or_nothing _ = True"

definition refusal_inert :: "('s, 'a, 'e) rust_method \<Rightarrow> bool" where
  "refusal_inert m \<longleftrightarrow> (\<forall>s e. fst (m s) = Err e \<longrightarrow> snd (m s) = s)"

lemma refusal_inert_replies: "refusal_inert m \<Longrightarrow> refusal_inert (replies f m)"
  by (auto simp: refusal_inert_def replies_def map_ok_def split: prod.splits rust.splits) (metis fst_conv snd_conv)

lemma refusal_inert_indexed: "(\<And>s e. fst (m s) \<noteq> Err e) \<Longrightarrow> refusal_inert (indexed i m)"
  by (simp add: refusal_inert_def indexed_def)

lemma unwrapped_no_Err: "fst (unwrapped m s) \<noteq> Err e"
  by (simp add: unwrapped_def unwrap_def split: prod.split rust.split)

lemma bind_no_Err: "(\<And>s e. fst (m s) \<noteq> Err e) \<Longrightarrow> (\<And>a s e. fst (f a s) \<noteq> Err e) \<Longrightarrow> fst (bind_method m f s) \<noteq> Err e"
  by (auto simp: bind_method_def split: prod.splits rust.splits) (metis fst_conv)+

lemma reset_vrings_no_Err: "fst (reset_vrings env is h) \<noteq> Err e"
  by (induction "is" arbitrary: h e) (simp_all add: bind_no_Err unwrapped_no_Err)

lemma reset_device_no_Err: "fst (reset_device env h) \<noteq> Err e"
  unfolding reset_device_def
  by (rule bind_no_Err) (simp_all add: reset_vrings_no_Err Let_def map_ok_def unwrap_def split: prod.split rust.split)

lemma get_vring_base_inert: "refusal_inert (get_vring_base env j)"
  unfolding get_vring_base_def Let_def
  by (intro refusal_inert_indexed bind_no_Err unwrapped_no_Err) simp

lemma set_features_inert: "refusal_inert (set_features env f)"
  by (auto simp: refusal_inert_def set_features_def Let_def unwrap_def split: prod.splits rust.splits)

lemma set_vring_enable_inert: "refusal_inert (set_vring_enable env j b)"
  by (simp add: refusal_inert_def set_vring_enable_def bind_method_def check_feature_def indexed_def)

lemma simple_requests_inert:
  "refusal_inert set_owner" "refusal_inert reset_owner" "refusal_inert (reset_device env)" "refusal_inert (get_features env)"
  "refusal_inert (set_mem_table env ctx files)" "refusal_inert (set_vring_num env j n)" "refusal_inert (set_vring_base env j n)"
  "refusal_inert (set_vring_err k file)" "refusal_inert (get_protocol_features env)" "refusal_inert (set_protocol_features f)"
  "refusal_inert get_queue_num" "refusal_inert (get_config env off m)" "refusal_inert (set_gpu_socket env b)"
  "refusal_inert inflight_fd" "refusal_inert get_max_mem_slots" "refusal_inert (add_mem_region env g fl)"
  "refusal_inert (remove_mem_region env g)" "refusal_inert device_state_todo" "refusal_inert (return_method a)"
  by (simp_all add: refusal_inert_def set_owner_def reset_owner_def reset_device_no_Err get_features_def set_mem_table_def
      set_vring_num_def indexed_def set_vring_base_def set_vring_err_def get_protocol_features_def set_protocol_features_def
      get_queue_num_def get_config_def set_gpu_socket_def inflight_fd_def get_max_mem_slots_def add_mem_region_def
      remove_mem_region_def device_state_todo_def return_method_def split: rust.split)

lemma all_or_nothing_inert: "all_or_nothing x \<Longrightarrow> refusal_inert (handle env x)"
  by (cases x; simp; (intro refusal_inert_replies)?;
      (intro simple_requests_inert get_vring_base_inert set_features_inert set_vring_enable_inert)?)

section \<open>Activation\<close>

text \<open>The handler with another activation routine.\<close>

definition with_activation ::
  "(guest_memory \<Rightarrow> (('d, 'q, 'ep) with_rings, unit, unit) rust_method) \<Rightarrow> ('d, 'q, 'ep) handler_env \<Rightarrow> ('d, 'q, 'ep) handler_env" where
  "with_activation f env = env\<lparr>he_device := (he_device env)\<lparr>dv_activate := f\<rparr>\<rparr>"

lemma with_activation_simps [simp]:
  "he_queue (with_activation f env) = he_queue env" "he_ctl (with_activation f env) = he_ctl env"
  "he_bits (with_activation f env) = he_bits env" "he_mem (with_activation f env) = he_mem env"
  "he_mmap (with_activation f env) = he_mmap env" "he_protocol_features (with_activation f env) = he_protocol_features env"
  "he_event_idx (with_activation f env) = he_event_idx env" "he_debug (with_activation f env) = he_debug env"
  "dv_reset (he_device (with_activation f env)) = dv_reset (he_device env)"
  "dv_avail_features (he_device (with_activation f env)) = dv_avail_features (he_device env)"
  "dv_set_acked_features (he_device (with_activation f env)) = dv_set_acked_features (he_device env)"
  "dv_protocol_features (he_device (with_activation f env)) = dv_protocol_features (he_device env)"
  "dv_read_config (he_device (with_activation f env)) = dv_read_config (he_device env)"
  "dv_write_config (he_device (with_activation f env)) = dv_write_config (he_device env)"
  "dv_set_gpu_socket (he_device (with_activation f env)) = dv_set_gpu_socket (he_device env)"
  by (simp_all add: with_activation_def)

lemma reset_vrings_activation [simp]: "reset_vrings (with_activation f env) is h = reset_vrings env is h"
  by (induction "is" arbitrary: h) (simp_all add: bind_method_def unwrapped_def split: prod.split rust.split)

lemma initialize_vring_activation:
  assumes "h_device_activated h"
  shows "initialize_vring (with_activation f env) j h = initialize_vring env j h"
  using assms by (auto simp: initialize_vring_def bind_method_def unwrapped_def with_vring_def unwrap_def split: prod.split rust.split)

lemma activated_with_vring: "h_device_activated (snd (unwrapped (with_vring j f) h)) = h_device_activated h"
  by (simp add: unwrapped_def with_vring_def case_prod_beta)

lemma set_vring_kick_activation:
  assumes "h_device_activated h"
  shows "set_vring_kick (with_activation f env) j file h = set_vring_kick env j file h"
proof -
  let ?k = "unwrapped (with_vring (unat j) (set_kick (he_queue env) (he_ctl env) (he_bits env) file))
    :: ('a, 'b, 'c, unit) request_method"
  obtain r h1 where k: "?k h = (r, h1)" by force
  have "h_device_activated (snd (?k h))" using assms by (simp only: activated_with_vring)
  then have "h_device_activated h1" by (simp add: k)
  from initialize_vring_activation [OF this] show ?thesis
    by (cases r) (simp_all add: set_vring_kick_def indexed_def bind_method_def k)
qed

lemma set_vring_call_activation:
  assumes "h_device_activated h"
  shows "set_vring_call (with_activation f env) j file h = set_vring_call env j file h"
  using assms by (simp add: set_vring_call_def indexed_def initialize_vring_activation on_vring_def)

lemma reset_vrings_activation_fun: "reset_vrings (with_activation f env) = reset_vrings env"
  by (intro ext) simp

lemma with_activation_requests:
  "reset_device (with_activation f env) = reset_device env" "get_features (with_activation f env) = get_features env"
  "set_features (with_activation f env) = set_features env" "set_mem_table (with_activation f env) = set_mem_table env"
  "set_vring_num (with_activation f env) = set_vring_num env" "set_vring_addr (with_activation f env) = set_vring_addr env"
  "set_vring_base (with_activation f env) = set_vring_base env" "get_vring_base (with_activation f env) = get_vring_base env"
  "get_protocol_features (with_activation f env) = get_protocol_features env"
  "set_vring_enable (with_activation f env) = set_vring_enable env" "get_config (with_activation f env) = get_config env"
  "set_config (with_activation f env) = set_config env" "set_gpu_socket (with_activation f env) = set_gpu_socket env"
  "add_mem_region (with_activation f env) = add_mem_region env" "remove_mem_region (with_activation f env) = remove_mem_region env"
  "set_log_base (with_activation f env) = set_log_base env"
  unfolding reset_device_def get_features_def set_features_def set_mem_table_def set_vring_num_def set_vring_addr_def
      set_ring_addresses_def set_vring_base_def get_vring_base_def get_protocol_features_def set_vring_enable_def get_config_def
      set_config_def set_gpu_socket_def add_mem_region_def remove_mem_region_def set_log_base_def
      with_activation_simps reset_vrings_activation_fun
  by (rule refl)+

lemma handle_activation:
  assumes "h_device_activated h"
  shows "handle (with_activation f env) x h = handle env x h"
  by (cases x)
    (simp_all add: replies_def with_activation_requests set_vring_kick_activation [OF assms] set_vring_call_activation [OF assms])

text \<open>The flag is never cleared.\<close>

lemma activated_requests:
  "h_device_activated (snd (set_owner h)) = h_device_activated h"
  "h_device_activated (snd (reset_owner h)) = h_device_activated h"
  "h_device_activated (snd (get_features env h)) = h_device_activated h"
  "h_device_activated (snd (set_features env fs h)) = h_device_activated h"
  "h_device_activated (snd (set_mem_table env ctx files h)) = h_device_activated h"
  "h_device_activated (snd (set_vring_num env j n h)) = h_device_activated h"
  "h_device_activated (snd (set_vring_base env j n h)) = h_device_activated h"
  "h_device_activated (snd (set_vring_err k file h)) = h_device_activated h"
  "h_device_activated (snd (get_protocol_features env h)) = h_device_activated h"
  "h_device_activated (snd (set_protocol_features fs h)) = h_device_activated h"
  "h_device_activated (snd (get_queue_num h)) = h_device_activated h"
  "h_device_activated (snd (set_vring_enable env j b h)) = h_device_activated h"
  "h_device_activated (snd (get_config env off m h)) = h_device_activated h"
  "h_device_activated (snd (set_config env off buf h)) = h_device_activated h"
  "h_device_activated (snd (set_gpu_socket env sk h)) = h_device_activated h"
  "h_device_activated (snd (inflight_fd h)) = h_device_activated h"
  "h_device_activated (snd (get_max_mem_slots h)) = h_device_activated h"
  "h_device_activated (snd (add_mem_region env g fl h)) = h_device_activated h"
  "h_device_activated (snd (remove_mem_region env g h)) = h_device_activated h"
  "h_device_activated (snd (device_state_todo h)) = h_device_activated h"
  "h_device_activated (snd (set_log_base env fl o2 n2 h)) = h_device_activated h"
  "h_device_activated (snd (return_method a h)) = h_device_activated h"
  by (simp_all add: set_owner_def reset_owner_def get_features_def set_features_def set_mem_table_def get_protocol_features_def
      set_vring_num_def set_vring_base_def set_vring_err_def set_vring_enable_def indexed_def on_queue_def on_vring_def
      set_protocol_features_def get_queue_num_def get_config_def set_config_def set_gpu_socket_def inflight_fd_def
      get_max_mem_slots_def add_mem_region_def remove_mem_region_def device_state_todo_def set_log_base_def check_feature_def
      bind_method_def return_method_def Let_def case_prod_beta split: rust.split)

lemma activated_bind:
  assumes "\<And>h. h_device_activated h \<Longrightarrow> h_device_activated (snd (m h))"
    and "\<And>a h. h_device_activated h \<Longrightarrow> h_device_activated (snd (f a h))" "h_device_activated h"
  shows "h_device_activated (snd (bind_method m f h))"
proof -
  obtain r h1 where m: "m h = (r, h1)" by force
  then have "h_device_activated h1" using assms(1) [OF assms(3)] by simp
  then show ?thesis using assms(2) [of h1] by (cases r) (simp_all add: bind_method_def m)
qed

lemma activated_ring_requests:
  assumes "h_device_activated h"
  shows "h_device_activated (snd (reset_device env h))" "h_device_activated (snd (set_vring_addr env j d u a h))"
    "h_device_activated (snd (get_vring_base env j h))" "h_device_activated (snd (set_vring_kick env k file h))"
    "h_device_activated (snd (set_vring_call env k file h))"
proof -
  have i: "h_device_activated h \<Longrightarrow> h_device_activated (snd (initialize_vring env i h))" for i h
    unfolding initialize_vring_def
    by (auto intro!: activated_bind simp: activated_with_vring activate_device_def Let_def case_prod_beta)
  have r: "h_device_activated h \<Longrightarrow> h_device_activated (snd (reset_vrings env is h))" for "is" h
  proof (induction "is" arbitrary: h)
    case (Cons x xs)
    then show ?case unfolding reset_vrings.simps
      by (intro activated_bind) (simp_all add: activated_with_vring on_vring_def)
  qed simp
  show "h_device_activated (snd (reset_device env h))"
    unfolding reset_device_def by (intro activated_bind r) (simp_all add: assms Let_def case_prod_beta)
  have "h_device_activated (snd (set_ring_addresses env j x y z h))" for x y z
    using assms by (auto simp: set_ring_addresses_def indexed_def on_queue_def Let_def split: prod.split rust.split)
  then show "h_device_activated (snd (set_vring_addr env j d u a h))"
    using assms by (auto simp: set_vring_addr_def Let_def split: rust.split)
  show "h_device_activated (snd (get_vring_base env j h))"
    using assms unfolding get_vring_base_def indexed_def Let_def
    by (auto intro!: activated_bind simp: activated_with_vring on_vring_def)
  show "h_device_activated (snd (set_vring_kick env k file h))"
    using assms i unfolding set_vring_kick_def indexed_def by (auto intro!: activated_bind simp: activated_with_vring)
  show "h_device_activated (snd (set_vring_call env k file h))"
    using assms i [of "on_vring (unat k) (set_call file) h"] by (simp add: set_vring_call_def indexed_def on_vring_def)
qed

lemma activated_stays: "h_device_activated h \<Longrightarrow> h_device_activated (request_step env x h)"
  unfolding request_step_def
  by (cases x) (simp_all add: replies_def case_prod_beta activated_requests activated_ring_requests)

section \<open>Properties\<close>

text \<open>A device that does nothing, and a handler for it with two rings, for the concrete runs.\<close>

definition idle_device :: "(unit, 'q, 'ep) vhost_device_ops" where
  "idle_device = \<lparr>dv_protocol_features = (\<lambda>_. 0), dv_avail_features = (\<lambda>_. 0x40000000), dv_acked_features = (\<lambda>_. 0),
     dv_set_acked_features = (\<lambda>_ d. (Ok (), d)), dv_queues = (\<lambda>_. [256, 256]), dv_read_config = (\<lambda>_ _ _. Err ()),
     dv_write_config = (\<lambda>_ _ d. (Err (), d)), dv_activate = (\<lambda>_ s. (Ok (), s)), dv_stop = (\<lambda>d. (Ok (), d)),
     dv_reset = (\<lambda>d. (Ok False, d)), dv_set_gpu_socket = (\<lambda>_ d. d)\<rparr>"

definition plain_memory :: mem_ops where
  "plain_memory = \<lparr>mo_mmap_region = (\<lambda>r _. Ok \<lparr>gr_start = mr_guest_phys_addr r, gr_len = mr_memory_size r,
       gr_bitmap = \<lparr>inner = 0, base_address = 0\<rparr>\<rparr>), mo_from_regions = Ok, mo_insert_region = (\<lambda>g m. Ok (m @ [g])),
     mo_remove_region = (\<lambda>a n m. Ok (filter (\<lambda>g. gr_start g \<noteq> a) m))\<rparr>"

definition plain_env :: "('d, bool \<times> u16, nat \<Rightarrow> epoll_event option) vhost_device_ops
    \<Rightarrow> ('d, bool \<times> u16, nat \<Rightarrow> epoll_event option) handler_env" where
  "plain_env dv = \<lparr>he_queue = flag_queue, he_ctl = map_ctl, he_bits = linux_event_bits, he_device = dv, he_mem = plain_memory,
     he_mmap = (\<lambda>_ n _. Ok (replicate n 0)), he_protocol_features = 0x40000000, he_event_idx = 29, he_reply_ack = 8,
     he_shared_object = 0x40000, he_debug = True\<rparr>"

definition started_handler :: "'d \<Rightarrow> ('d, bool \<times> u16, nat \<Rightarrow> epoll_event option) handler" where
  "started_handler d = \<lparr>h_device = d, h_device_activated = True, h_memory_updated = True, h_requested_queues = [256, 256],
     h_owned = True, h_features_acked = True, h_acked_features = 0x40000000, h_acked_protocol_features = 0, h_mappings = [],
     h_atomic_mem = [], h_vrings = [\<lparr>queue = (True, 9), enabled = True, kick = Some 7, call = Some 8, err = None, epolls = [(0, 1)]\<rparr>,
       \<lparr>queue = (False, 0), enabled = False, kick = None, call = None, err = None, epolls = [(0, 2)]\<rparr>],
     h_world = (\<lambda>e. if e = 0 then Some ((\<lambda>_. None)(7 \<mapsto> (1, 1))) else None),
     h_store = \<lparr>logs = (\<lambda>_. []), inners = (\<lambda>_. None)\<rparr>, h_next_log = 0\<rparr>"

text \<open>C19: with mappings that do not wrap around, an address of the frontend is translated through the first mapping
  that contains it, keeping its offset, and only an address outside all of them is refused.\<close>

theorem va_translation:
  assumes "list_all mapping_sound ms"
  shows "case vmm_va_to_gpa dbg ms va of
      Ok gpa \<Rightarrow> \<exists>xs m ys. ms = xs @ m # ys \<and> list_all (\<lambda>x. \<not> contains_va x va) xs \<and> contains_va m va \<and>
        unat gpa = unat (am_gpa_base m) + (unat va - unat (am_vmm_addr m))
    | Err e \<Rightarrow> e = MissingMemoryMapping \<and> list_all (\<lambda>m. \<not> contains_va m va) ms
    | Panic \<Rightarrow> False"
proof (cases "find (\<lambda>m. contains_va m va) ms")
  case None
  then have "list_all (\<lambda>m. \<not> contains_va m va) ms" by (simp add: find_None_iff list_all_iff)
  with None show ?thesis by (simp add: vmm_va_to_gpa_find [OF assms])
next
  case (Some m)
  then obtain i where i: "i < length ms" "contains_va (ms ! i) va" "m = ms ! i" "\<forall>j<i. \<not> contains_va (ms ! j) va"
    by (auto simp: find_Some_iff)
  have "mapping_sound m" using assms i by (simp add: list_all_length)
  from translated_offset [OF this] i have "unat (va - am_vmm_addr m + am_gpa_base m) = unat (am_gpa_base m) + (unat va - unat (am_vmm_addr m))"
    by simp
  moreover have "ms = take i ms @ m # drop (Suc i) ms" using i by (simp add: id_take_nth_drop)
  moreover have "list_all (\<lambda>x. \<not> contains_va x va) (take i ms)" using i by (simp add: list_all_length)
  ultimately show ?thesis using Some i(2,3) vmm_va_to_gpa_find [OF assms, of dbg va] by auto
qed

theorem va_translation_witness:
  "\<exists>gpa. vmm_va_to_gpa True [\<lparr>am_vmm_addr = 0x7f0000000000, am_size = 0x1000, am_gpa_base = 0x10000\<rparr>] 0x7f0000000010 = Ok gpa \<and>
    unat gpa = 0x10010"
  using va_translation [where ms = "[\<lparr>am_vmm_addr = 0x7f0000000000, am_size = 0x1000, am_gpa_base = 0x10000\<rparr>]" and dbg = True
      and va = "0x7f0000000010"]
  by (simp add: mapping_sound_def u64_add_def)

text \<open>C27: a request that is answered with an error has changed nothing, except for the five that act in several steps.\<close>

theorem refused_requests_change_nothing:
  assumes "all_or_nothing x" "fst (handle env x h) = Err e"
  shows "request_step env x h = h"
  using all_or_nothing_inert [OF assms(1), of env] assms(2) by (simp add: refusal_inert_def request_step_def)

theorem refused_requests_change_nothing_witness:
  "request_step (plain_env idle_device) (SetVringNum 0 0) (started_handler ()) = started_handler ()"
  by (rule refused_requests_change_nothing [where e = InvalidParam])
    (simp_all add: replies_def set_vring_num_def indexed_def started_handler_def)



end
