(* ===== verification/Vhost_User_Rings.thy ===== *)
theory Vhost_User_Rings
  imports Vhost_User_Handler
begin

text \<open>
  What the requests of the handler do to the rings: which of them can start a ring, which can enable it, and
  that all others keep a stopped or disabled ring out of the reach of the device. The handler with its requests
  is an instance of the interface \<open>controlled_ring\<close>, for every device that only watches the rings it is given.
\<close>

section \<open>Rings under the requests\<close>

text \<open>Whether ring \<open>i\<close> is started, and whether it is enabled.\<close>

definition ring_started :: "('d, 'q, 'ep) handler_env \<Rightarrow> nat \<Rightarrow> ('d, 'q, 'ep) handler \<Rightarrow> bool" where
  "ring_started env i h \<longleftrightarrow> i < length (h_vrings h) \<and> is_started (he_queue env) (h_vrings h ! i)"

definition ring_enabled :: "nat \<Rightarrow> ('d, 'q, 'ep) handler \<Rightarrow> bool" where
  "ring_enabled i h \<longleftrightarrow> i < length (h_vrings h) \<and> enabled (h_vrings h ! i)"

definition ring_lock :: "('d, 'q, 'ep) handler_env \<Rightarrow> nat \<Rightarrow> ('d, 'q, 'ep) handler \<Rightarrow> 'q option" where
  "ring_lock env i h = (if i < length (h_vrings h) then try_lock_queue (he_queue env) (h_vrings h ! i) else None)"

text \<open>A request that may make \<open>P\<close> false but never true.\<close>

definition never_sets :: "('s \<Rightarrow> bool) \<Rightarrow> ('s, 'a, 'e) rust_method \<Rightarrow> bool" where
  "never_sets P m \<longleftrightarrow> (\<forall>s. P (snd (m s)) \<longrightarrow> P s)"

lemma never_sets_bind:
  "never_sets P m \<Longrightarrow> (\<And>a. never_sets P (f a)) \<Longrightarrow> never_sets P (bind_method m f)"
proof (unfold never_sets_def, intro allI impI)
  fix s assume m: "\<forall>s. P (snd (m s)) \<longrightarrow> P s" and f: "\<And>a. \<forall>s. P (snd (f a s)) \<longrightarrow> P s"
    and p: "P (snd (bind_method m f s))"
  obtain r s' where ms: "m s = (r, s')" by force
  have "P s'" using p f by (cases r) (auto simp: bind_method_def ms)
  with m ms show "P s" by (metis snd_conv)
qed

lemma never_sets_unwrapped: "never_sets P m \<Longrightarrow> never_sets P (unwrapped m)"
  by (auto simp: never_sets_def unwrapped_def split: prod.splits)

lemma never_sets_replies: "never_sets P m \<Longrightarrow> never_sets P (replies f m)"
  by (auto simp: never_sets_def replies_def split: prod.splits)

lemma never_sets_indexed: "never_sets P m \<Longrightarrow> never_sets P (indexed i m)"
  by (auto simp: never_sets_def indexed_def)

lemma never_sets_return: "never_sets P (return_method a)"
  by (simp add: never_sets_def return_method_def)

lemma never_sets_after: "never_sets P m \<Longrightarrow> (\<And>s. P (g s) \<Longrightarrow> P s) \<Longrightarrow> never_sets P (\<lambda>s. m (g s))"
  unfolding never_sets_def by blast

lemma never_setsD: "never_sets P m \<Longrightarrow> P (snd (m s)) \<Longrightarrow> P s"
  unfolding never_sets_def by (erule allE [of _ s]) (erule mp)

lemma never_sets_if:
  assumes "never_sets P m" "never_sets P m'"
  shows "never_sets P (\<lambda>s. if c s then m s else m' s)"
  unfolding never_sets_def
proof (intro allI impI)
  fix s
  assume p: "P (snd (if c s then m s else m' s))"
  show "P s"
  proof (cases "c s")
    case True
    then show ?thesis using p by (intro never_setsD [OF assms(1), of s]) simp
  next
    case False
    then show ?thesis using p by (intro never_setsD [OF assms(2), of s]) simp
  qed
qed

lemma never_sets_value: "never_sets P (\<lambda>s. (r s, s))"
  by (simp add: never_sets_def)

lemmas never_sets_intros = never_sets_bind never_sets_unwrapped never_sets_replies never_sets_indexed never_sets_return

text \<open>What a device may do to the rings it is given: watch them, nothing else.\<close>

definition only_watches :: "('d, 'q, 'ep) vhost_device_ops \<Rightarrow> bool" where
  "only_watches dv \<longleftrightarrow> (\<forall>mem d vs w r d' vs' w'. dv_activate dv mem (d, vs, w) = (r, d', vs', w') \<longrightarrow>
     length vs' = length vs \<and> (\<forall>i<length vs. \<exists>es. vs' ! i = (vs ! i)\<lparr>epolls := es\<rparr>))"

lemma epolls_self [simp]: "\<exists>es. v = v\<lparr>epolls := es\<rparr>"
  by (rule exI [of _ "epolls v"]) simp

lemma only_watchesD:
  assumes "only_watches dv" "dv_activate dv mem (d, vs, w) = (r, d', vs', w')"
  shows "length vs' = length vs" "i < length vs \<Longrightarrow> queue (vs' ! i) = queue (vs ! i)"
    "i < length vs \<Longrightarrow> enabled (vs' ! i) = enabled (vs ! i)" "i < length vs \<Longrightarrow> kick (vs' ! i) = kick (vs ! i)"
proof -
  have l: "length vs' = length vs \<and> (\<forall>i<length vs. \<exists>es. vs' ! i = (vs ! i)\<lparr>epolls := es\<rparr>)"
    using assms unfolding only_watches_def by blast
  then show "length vs' = length vs" by blast
  assume "i < length vs"
  with l obtain es where "vs' ! i = (vs ! i)\<lparr>epolls := es\<rparr>" by blast
  then show "queue (vs' ! i) = queue (vs ! i)" "enabled (vs' ! i) = enabled (vs ! i)" "kick (vs' ! i) = kick (vs ! i)"
    by simp_all
qed

lemma never_sets_activate:
  assumes "only_watches (he_device env)"
  shows "never_sets (ring_started env i) (activate_device env)" "never_sets (ring_enabled i) (activate_device env)"
proof -
  note w = only_watchesD [OF assms]
  show "never_sets (ring_started env i) (activate_device env)"
    by (auto simp: never_sets_def activate_device_def ring_started_def is_started_def Let_def w split: prod.splits)
  show "never_sets (ring_enabled i) (activate_device env)"
    by (auto simp: never_sets_def activate_device_def ring_enabled_def Let_def w split: prod.splits)
qed

lemma ring_started_upd:
  "ring_started env i (h\<lparr>h_vrings := (h_vrings h)[j := v]\<rparr>) \<longleftrightarrow>
    i < length (h_vrings h) \<and> is_started (he_queue env) (if i = j then v else h_vrings h ! i)"
  by (auto simp: ring_started_def)

lemma ring_enabled_upd:
  "ring_enabled i (h\<lparr>h_vrings := (h_vrings h)[j := v]\<rparr>) \<longleftrightarrow>
    i < length (h_vrings h) \<and> enabled (if i = j then v else h_vrings h ! i)"
  by (auto simp: ring_enabled_def)

lemma vring_stop_flags:
  assumes "queue_contract qo" "vring_stop qo ctl eb (v, w) = (r, v', w')"
  shows "is_started qo v' \<Longrightarrow> is_started qo v" "enabled v' = enabled v" "kick v' = kick v" "epolls v' = epolls v"
  using assms by (auto simp: vring_stop_def is_started_def queue_contractD Let_def split: prod.splits rust.splits option.splits)

lemma vring_start_flags:
  assumes "vring_start qo ctl eb (v, w) = (r, v', w')"
  shows "enabled v' = enabled v" "kick v' = kick v"
  using assms by (auto simp: vring_start_def Let_def split: prod.splits)

lemma set_kick_flags:
  assumes "set_kick qo ctl eb new_kick (v, w) = (r, v', w')"
  shows "queue v' = queue v" "enabled v' = enabled v" "kick v' = new_kick"
  using assms by (auto simp: set_kick_def Let_def split: prod.splits if_splits)

lemma with_vring_result:
  "f (h_vrings h ! j, h_world h) = (r, v', w') \<Longrightarrow>
    with_vring j f h = (r, h\<lparr>h_vrings := (h_vrings h)[j := v'], h_world := w'\<rparr>)"
  by (simp add: with_vring_def)

lemma never_starts_with_vring:
  assumes "\<And>v w r v' w'. i = j \<Longrightarrow> f (v, w) = (r, v', w') \<Longrightarrow> is_started (he_queue env) v' \<Longrightarrow> is_started (he_queue env) v"
  shows "never_sets (ring_started env i) (with_vring j f)"
  unfolding never_sets_def
proof (intro allI impI)
  fix h
  assume a: "ring_started env i (snd (with_vring j f h))"
  obtain r v' w' where f: "f (h_vrings h ! j, h_world h) = (r, v', w')" by (metis surj_pair)
  with a assms [OF _ f] show "ring_started env i h"
    by (cases "i = j") (auto simp: with_vring_result [of f, OF f] ring_started_def)
qed

lemma never_enables_with_vring:
  assumes "\<And>v w r v' w'. i = j \<Longrightarrow> f (v, w) = (r, v', w') \<Longrightarrow> enabled v' \<Longrightarrow> enabled v"
  shows "never_sets (ring_enabled i) (with_vring j f)"
  unfolding never_sets_def
proof (intro allI impI)
  fix h
  assume a: "ring_enabled i (snd (with_vring j f h))"
  obtain r v' w' where f: "f (h_vrings h ! j, h_world h) = (r, v', w')" by (metis surj_pair)
  with a assms [OF _ f] show "ring_enabled i h"
    by (cases "i = j") (auto simp: with_vring_result [of f, OF f] ring_enabled_def)
qed

text \<open>The requests that can start or enable ring \<open>i\<close>.\<close>

fun may_start :: "nat \<Rightarrow> request \<Rightarrow> bool" where
  "may_start i (SetVringKick j _) = (unat j = i)"
| "may_start i (SetVringCall j _) = (unat j = i)"
| "may_start i _ = False"

fun may_enable :: "u64 \<Rightarrow> nat \<Rightarrow> request \<Rightarrow> bool" where
  "may_enable pf i (SetVringEnable j b) = (unat j = i \<and> b)"
| "may_enable pf i (SetFeatures f) = (f AND pf = 0)"
| "may_enable pf i _ = False"

text \<open>A request that leaves rings alone, or changes them without starting or enabling any.\<close>

lemma never_sets_id: "(\<And>h. h_vrings (snd (m h)) = h_vrings h) \<Longrightarrow> never_sets (ring_started env i) m"
  "(\<And>h. h_vrings (snd (m h)) = h_vrings h) \<Longrightarrow> never_sets (ring_enabled i) m"
  by (simp_all add: never_sets_def ring_started_def ring_enabled_def)

lemma ring_started_on_vring:
  "ring_started env i (on_vring j f h) \<longleftrightarrow>
    i < length (h_vrings h) \<and> is_started (he_queue env) (if i = j then f (h_vrings h ! j) else h_vrings h ! i)"
  by (auto simp: on_vring_def ring_started_def)

lemma ring_enabled_on_vring:
  "ring_enabled i (on_vring j f h) \<longleftrightarrow>
    i < length (h_vrings h) \<and> enabled (if i = j then f (h_vrings h ! j) else h_vrings h ! i)"
  by (auto simp: on_vring_def ring_enabled_def)

lemma ring_flags_set_enabled:
  "ring_started env i (on_vring j (set_enabled b) h) = ring_started env i h"
  "ring_enabled i (on_vring j (set_enabled False) h) = (ring_enabled i h \<and> i \<noteq> j)"
  unfolding ring_started_on_vring ring_enabled_on_vring
  by (auto simp: ring_started_def ring_enabled_def is_started_def set_enabled_def)

lemma on_queue_vring: "on_queue i f = on_vring i (\<lambda>v. v\<lparr>queue := f (queue v)\<rparr>)"
  by (rule ext) (simp add: on_queue_def on_vring_def)

lemma bind_method_keeps:
  assumes "\<And>s. P (snd (m s)) = P s" "\<And>a s. P (snd (f a s)) = P s"
  shows "P (snd (bind_method m f s)) = P s"
proof -
  obtain r s' where ms: "m s = (r, s')" by force
  then have "P s' = P s" using assms(1) [of s] by simp
  then show ?thesis using assms(2) by (cases r) (simp_all add: bind_method_def ms)
qed

lemma set_queue_info_flags:
  assumes "queue_contract qo"
  shows "is_started qo (snd (set_queue_info qo a b c v)) = is_started qo v"
    "enabled (snd (set_queue_info qo a b c v)) = enabled v" "kick (snd (set_queue_info qo a b c v)) = kick v"
    "epolls (snd (set_queue_info qo a b c v)) = epolls v"
proof -
  note q = queue_contractD [OF assms]
  have "q_ready qo (snd (bind_method (q_try_set_desc_table_address qo a)
      (\<lambda>_. bind_method (q_try_set_avail_ring_address qo b) (\<lambda>_. q_try_set_used_ring_address qo c)) (queue v))) = q_ready qo (queue v)"
    by (rule bind_method_keeps [where P = "q_ready qo"], rule q, rule bind_method_keeps [where P = "q_ready qo"]) (rule q)+
  then show "is_started qo (snd (set_queue_info qo a b c v)) = is_started qo v"
    by (simp add: set_queue_info_def is_started_def case_prod_beta)
qed (simp_all add: set_queue_info_def case_prod_beta)

lemma reset_vrings_Cons:
  "reset_vrings env (i # is) = (\<lambda>h. bind_method (unwrapped (with_vring i (vring_stop (he_queue env) (he_ctl env) (he_bits env))))
     (\<lambda>_. reset_vrings env is) (on_vring i (set_enabled False) h))"
  by (rule ext) simp

lemma never_sets_reset_vrings:
  assumes "queue_contract (he_queue env)"
  shows "never_sets (ring_started env i) (reset_vrings env is)" "never_sets (ring_enabled i) (reset_vrings env is)"
proof (induction "is")
  case (Cons j js)
  case 1
  show ?case unfolding reset_vrings_Cons
    by (rule never_sets_after [where g = "on_vring j (set_enabled False)"], intro never_sets_intros never_starts_with_vring Cons.IH)
      (auto dest: vring_stop_flags(1) [OF assms] simp: ring_flags_set_enabled)
  case 2
  show ?case unfolding reset_vrings_Cons
    by (rule never_sets_after [where g = "on_vring j (set_enabled False)"], intro never_sets_intros never_enables_with_vring Cons.IH)
      (auto dest: vring_stop_flags(2) [OF assms] simp: ring_flags_set_enabled)
qed (simp_all add: never_sets_def)

text \<open>The rest of \<open>initialize_vring\<close> after the start.\<close>

lemma initialize_vring_alt:
  "initialize_vring env j = (\<lambda>h. if j \<ge> length (h_vrings h) then (Panic, h) else
     if \<not> is_started (he_queue env) (h_vrings h ! j) \<and> has_kick_event (h_vrings h ! j)
     then bind_method (unwrapped (with_vring j (vring_start (he_queue env) (he_ctl env) (he_bits env)))) (\<lambda>_ h.
       if \<not> h_device_activated h \<and> h_memory_updated h then activate_device env h else (Ok (), h)) h
     else (Ok (), h))"
  by (rule ext) (simp add: initialize_vring_def)

lemma never_sets_initialize:
  assumes "only_watches (he_device env)"
  shows "i \<noteq> j \<Longrightarrow> never_sets (ring_started env i) (initialize_vring env j)"
    "never_sets (ring_enabled i) (initialize_vring env j)"
  unfolding initialize_vring_alt
  apply (intro never_sets_if never_sets_value never_sets_intros never_starts_with_vring never_sets_activate [OF assms], simp)
  apply (intro never_sets_if never_sets_value never_sets_intros never_enables_with_vring never_sets_activate [OF assms])
  apply (drule vring_start_flags(1), simp)
  done

lemma never_sets_update:
  assumes "\<And>h. h_vrings (g h) = h_vrings h"
  shows "never_sets (ring_started env i) (\<lambda>h. (r h, g h))" "never_sets (ring_enabled i) (\<lambda>h. (r h, g h))"
  by (simp_all add: never_sets_def ring_started_def ring_enabled_def assms)

lemma never_starts_on_vring:
  assumes "\<And>v. is_started (he_queue env) (f v) = is_started (he_queue env) v"
  shows "never_sets (ring_started env i) (\<lambda>h. (r h, on_vring j f h))"
  unfolding never_sets_def
  by (auto simp: ring_started_on_vring assms) (auto simp: ring_started_def split: if_splits)

lemma never_enables_on_vring:
  assumes "\<And>v. enabled (f v) = enabled v"
  shows "never_sets (ring_enabled i) (\<lambda>h. (r h, on_vring j f h))"
  unfolding never_sets_def
  by (auto simp: ring_enabled_on_vring assms) (auto simp: ring_enabled_def split: if_splits)

lemmas never_sets_on_vring = never_starts_on_vring never_enables_on_vring

text \<open>A ring that differs from \<open>v\<close> in its queue only, but not in the ready flag.\<close>

definition same_flags :: "('q, 'mem) queue_ops \<Rightarrow> 'q vring \<Rightarrow> 'q vring \<Rightarrow> bool" where
  "same_flags qo v v' \<longleftrightarrow> is_started qo v' = is_started qo v \<and> enabled v' = enabled v \<and> kick v' = kick v \<and> epolls v' = epolls v"

lemma set_ring_addresses_shape:
  assumes "queue_contract (he_queue env)" "unat j < length (h_vrings h)"
  shows "\<exists>r v. set_ring_addresses env j d a u h = (r, h\<lparr>h_vrings := (h_vrings h)[unat j := v]\<rparr>) \<and>
    same_flags (he_queue env) (h_vrings h ! unat j) v"
proof -
  obtain r v where rv: "set_queue_info (he_queue env) d a u (h_vrings h ! unat j) = (r, v)" by force
  have f: "same_flags (he_queue env) (h_vrings h ! unat j) v"
    using set_queue_info_flags [OF assms(1), of d a u "h_vrings h ! unat j"] rv by (simp add: same_flags_def)
  have g: "same_flags (he_queue env) (h_vrings h ! unat j) (v\<lparr>queue := q_set_next_used (he_queue env) n (queue v)\<rparr>)" for n
    using f queue_contractD(6) [OF assms(1)] by (simp add: same_flags_def is_started_def)
  show ?thesis
  proof (cases "\<exists>n. r = Ok () \<and> q_used_idx (he_queue env) (h_atomic_mem h) (queue v) = Ok n")
    case True
    then obtain n where "r = Ok ()" "q_used_idx (he_queue env) (h_atomic_mem h) (queue v) = Ok n" by blast
    then have "set_ring_addresses env j d a u h
        = (Ok (), h\<lparr>h_vrings := (h_vrings h)[unat j := v\<lparr>queue := q_set_next_used (he_queue env) n (queue v)\<rparr>]\<rparr>)"
      using assms(2) by (simp add: set_ring_addresses_def indexed_def rv on_queue_def)
    with g show ?thesis by blast
  next
    case False
    then have "\<exists>r. set_ring_addresses env j d a u h = (r, h\<lparr>h_vrings := (h_vrings h)[unat j := v]\<rparr>)"
      using assms(2) by (auto simp: set_ring_addresses_def indexed_def rv Let_def split: rust.split)
    with f show ?thesis by blast
  qed
qed

lemma set_vring_addr_shape:
  assumes "queue_contract (he_queue env)"
  shows "snd (set_vring_addr env j d u a h) = h \<or>
    (\<exists>v. unat j < length (h_vrings h) \<and> same_flags (he_queue env) (h_vrings h ! unat j) v \<and>
      snd (set_vring_addr env j d u a h) = h\<lparr>h_vrings := (h_vrings h)[unat j := v]\<rparr>)"
proof -
  have "snd (set_ring_addresses env j x y z h) = h" if "\<not> unat j < length (h_vrings h)" for x y z
    using that by (simp add: set_ring_addresses_def indexed_def)
  moreover have "\<exists>v. snd (set_ring_addresses env j x y z h) = h\<lparr>h_vrings := (h_vrings h)[unat j := v]\<rparr> \<and>
      same_flags (he_queue env) (h_vrings h ! unat j) v" if "unat j < length (h_vrings h)" for x y z
    using set_ring_addresses_shape [OF assms that, of x y z] by force
  moreover have "snd (set_vring_addr env j d u a h) = h \<or>
      (\<exists>x y z. snd (set_vring_addr env j d u a h) = snd (set_ring_addresses env j x y z h))"
    by (auto simp: set_vring_addr_def Let_def split: rust.split)
  ultimately show ?thesis by metis
qed

lemma ring_flags_same:
  assumes "same_flags (he_queue env) (h_vrings h ! j) v"
  shows "ring_started env i (h\<lparr>h_vrings := (h_vrings h)[j := v]\<rparr>) = ring_started env i h"
    "ring_enabled i (h\<lparr>h_vrings := (h_vrings h)[j := v]\<rparr>) = ring_enabled i h"
  using assms unfolding ring_started_upd ring_enabled_upd
  by (auto simp: ring_started_def ring_enabled_def same_flags_def split: if_splits)

lemma never_sets_set_vring_addr:
  assumes "queue_contract (he_queue env)"
  shows "never_sets (ring_started env i) (set_vring_addr env j d u a)" "never_sets (ring_enabled i) (set_vring_addr env j d u a)"
proof -
  have "ring_started env i (snd (set_vring_addr env j d u a h)) = ring_started env i h \<and>
     ring_enabled i (snd (set_vring_addr env j d u a h)) = ring_enabled i h" for h
    using set_vring_addr_shape [OF assms, of j d u a h] ring_flags_same [of env h "unat j"] by auto
  then show "never_sets (ring_started env i) (set_vring_addr env j d u a)" "never_sets (ring_enabled i) (set_vring_addr env j d u a)"
    unfolding never_sets_def by simp_all
qed

lemma never_sets_set_features:
  assumes "queue_contract (he_queue env)"
  shows "never_sets (ring_started env i) (set_features env f)"
    "f AND he_protocol_features env \<noteq> 0 \<Longrightarrow> never_sets (ring_enabled i) (set_features env f)"
  unfolding never_sets_def
  by (auto simp: set_features_def Let_def ring_started_def ring_enabled_def is_started_def set_enabled_def queue_contractD [OF assms]
      split: prod.splits)

text \<open>The requests that do not look at the rings.\<close>

lemma keeps_vrings:
  "h_vrings (snd (set_owner h)) = h_vrings h"
  "h_vrings (snd (reset_owner h)) = h_vrings h"
  "h_vrings (snd (get_features env h)) = h_vrings h"
  "h_vrings (snd (set_mem_table env ctx files h)) = h_vrings h"
  "h_vrings (snd (get_protocol_features env h)) = h_vrings h"
  "h_vrings (snd (set_protocol_features f h)) = h_vrings h"
  "h_vrings (snd (get_queue_num h)) = h_vrings h"
  "h_vrings (snd (get_config env off n h)) = h_vrings h"
  "h_vrings (snd (set_config env off buf h)) = h_vrings h"
  "h_vrings (snd (set_gpu_socket env b h)) = h_vrings h"
  "h_vrings (snd (inflight_fd h)) = h_vrings h"
  "h_vrings (snd (get_max_mem_slots h)) = h_vrings h"
  "h_vrings (snd (add_mem_region env g fl h)) = h_vrings h"
  "h_vrings (snd (remove_mem_region env g h)) = h_vrings h"
  "h_vrings (snd (device_state_todo h)) = h_vrings h"
  "h_vrings (snd (set_log_base env fl o2 n2 h)) = h_vrings h"
  "h_vrings (snd (check_feature f h)) = h_vrings h"
  by (simp_all add: set_owner_def reset_owner_def get_features_def set_mem_table_def get_protocol_features_def
      set_protocol_features_def get_queue_num_def get_config_def set_config_def set_gpu_socket_def inflight_fd_def
      get_max_mem_slots_def add_mem_region_def remove_mem_region_def device_state_todo_def set_log_base_def check_feature_def
      Let_def case_prod_beta split: rust.split)

lemmas never_sets_keeps = keeps_vrings [THEN never_sets_id(1)] keeps_vrings [THEN never_sets_id(2)]

lemma never_sets_reset_device:
  assumes "queue_contract (he_queue env)"
  shows "never_sets (ring_started env i) (reset_device env)" "never_sets (ring_enabled i) (reset_device env)"
proof -
  let ?rest = "\<lambda>(_ :: unit) h. let h1 = h\<lparr>h_features_acked := False, h_acked_features := 0\<rparr>;
       (r, d, w) = dv_reset (he_device env) (h_device h1, h_world h1) in (map_ok (\<lambda>_. ()) (unwrap r), h1\<lparr>h_device := d, h_world := w\<rparr>)"
  have v: "h_vrings (snd (?rest a h)) = h_vrings h" for a h by (simp add: Let_def case_prod_beta)
  have "never_sets (ring_started env i) (bind_method (reset_vrings env is) ?rest)"
    "never_sets (ring_enabled i) (bind_method (reset_vrings env is) ?rest)" for "is"
    by (intro never_sets_bind never_sets_reset_vrings [OF assms] never_sets_id v)+
  from never_setsD [OF this(1)] never_setsD [OF this(2)]
  show "never_sets (ring_started env i) (reset_device env)" "never_sets (ring_enabled i) (reset_device env)"
    unfolding never_sets_def reset_device_def by blast+
qed

lemma never_sets_param: "(\<And>c. never_sets P (F c)) \<Longrightarrow> never_sets P (\<lambda>s. F (g s) s)"
  unfolding never_sets_def by blast

lemma never_sets_get_vring_base:
  assumes "queue_contract (he_queue env)"
  shows "never_sets (ring_started env i) (get_vring_base env j)" "never_sets (ring_enabled i) (get_vring_base env j)"
proof -
  let ?stop = "unwrapped (with_vring (unat j) (vring_stop (he_queue env) (he_ctl env) (he_bits env)))"
  let ?unkick = "unwrapped (with_vring (unat j) (set_kick (he_queue env) (he_ctl env) (he_bits env) None))"
  let ?done = "\<lambda>n (_ :: unit) h. (Ok (j, ucast n), on_vring (unat j) (set_call None) h)"
  let ?next = "\<lambda>h. q_next_avail (he_queue env) (queue (h_vrings h ! unat j))"
  have "never_sets (ring_started env i) (\<lambda>h. bind_method ?unkick (?done (?next h)) h)"
    by (rule never_sets_param [where g = ?next], intro never_sets_intros never_starts_with_vring never_sets_on_vring)
      (auto dest: set_kick_flags(1) simp: is_started_def set_call_def)
  moreover have "never_sets (ring_enabled i) (\<lambda>h. bind_method ?unkick (?done (?next h)) h)"
    by (rule never_sets_param [where g = ?next], intro never_sets_intros never_enables_with_vring never_sets_on_vring)
      (auto dest: set_kick_flags(2) simp: is_started_def set_call_def)
  ultimately show "never_sets (ring_started env i) (get_vring_base env j)" "never_sets (ring_enabled i) (get_vring_base env j)"
    unfolding get_vring_base_def Let_def
    by (intro never_sets_intros never_starts_with_vring never_enables_with_vring;
        auto dest: vring_stop_flags [OF assms])+
qed

lemma never_sets_set_vring_kick:
  assumes "only_watches (he_device env)"
  shows "unat j \<noteq> i \<Longrightarrow> never_sets (ring_started env i) (set_vring_kick env j file)"
    "never_sets (ring_enabled i) (set_vring_kick env j file)"
  unfolding set_vring_kick_def
  by (intro never_sets_intros never_starts_with_vring never_enables_with_vring never_sets_initialize [OF assms];
      auto dest: set_kick_flags)+

lemma never_sets_set_vring_call:
  assumes "only_watches (he_device env)"
  shows "unat j \<noteq> i \<Longrightarrow> never_sets (ring_started env i) (set_vring_call env j file)"
    "never_sets (ring_enabled i) (set_vring_call env j file)"
proof -
  have c: "ring_started env i (on_vring (unat j) (set_call file) h) = ring_started env i h"
    "ring_enabled i (on_vring (unat j) (set_call file) h) = ring_enabled i h" for h
    unfolding ring_started_on_vring ring_enabled_on_vring
    by (auto simp: ring_started_def ring_enabled_def is_started_def set_call_def)
  show "unat j \<noteq> i \<Longrightarrow> never_sets (ring_started env i) (set_vring_call env j file)"
    "never_sets (ring_enabled i) (set_vring_call env j file)"
    unfolding set_vring_call_def
    by (intro never_sets_indexed never_sets_after [where g = "on_vring (unat j) (set_call file)"] never_sets_initialize [OF assms];
        simp add: c)+
qed

lemma never_sets_set_vring_enable:
  shows "never_sets (ring_started env i) (set_vring_enable env j b)"
    "\<not> (unat j = i \<and> b) \<Longrightarrow> never_sets (ring_enabled i) (set_vring_enable env j b)"
proof -
  have "ring_enabled i (on_vring (unat j) (set_enabled b) h) \<Longrightarrow> ring_enabled i h" if "\<not> (unat j = i \<and> b)" for h
    using that unfolding ring_enabled_on_vring by (auto simp: ring_enabled_def set_enabled_def split: if_splits)
  then show "never_sets (ring_started env i) (set_vring_enable env j b)"
    "\<not> (unat j = i \<and> b) \<Longrightarrow> never_sets (ring_enabled i) (set_vring_enable env j b)"
    unfolding set_vring_enable_def
    by (intro never_sets_intros never_sets_keeps; simp add: never_sets_def ring_flags_set_enabled; blast)+
qed

lemma never_sets_set_vring_num:
  assumes "queue_contract (he_queue env)"
  shows "never_sets (ring_started env i) (set_vring_num env j n)" "never_sets (ring_enabled i) (set_vring_num env j n)"
  unfolding set_vring_num_def on_queue_vring
  by (intro never_sets_indexed never_sets_if never_sets_value never_sets_on_vring; simp add: is_started_def queue_contractD [OF assms])+

lemma never_sets_set_vring_base:
  assumes "queue_contract (he_queue env)"
  shows "never_sets (ring_started env i) (set_vring_base env j n)" "never_sets (ring_enabled i) (set_vring_base env j n)"
  unfolding set_vring_base_def on_queue_vring
  by (intro never_sets_indexed never_sets_on_vring; simp add: is_started_def queue_contractD [OF assms])+

lemma never_sets_set_vring_err:
  shows "never_sets (ring_started env i) (set_vring_err j file)" "never_sets (ring_enabled i) (set_vring_err j file)"
  unfolding set_vring_err_def
  by (intro never_sets_indexed never_sets_on_vring; simp add: is_started_def set_err_def)+

lemmas never_sets_ring_requests =
  never_sets_set_features never_sets_reset_device never_sets_get_vring_base never_sets_set_vring_kick never_sets_set_vring_call
  never_sets_set_vring_enable never_sets_set_vring_num never_sets_set_vring_base never_sets_set_vring_err never_sets_set_vring_addr

lemma never_sets_requests:
  assumes q: "queue_contract (he_queue env)" and d: "only_watches (he_device env)"
  shows "\<not> may_start i x \<Longrightarrow> never_sets (ring_started env i) (handle env x)"
    "\<not> may_enable (he_protocol_features env) i x \<Longrightarrow> never_sets (ring_enabled i) (handle env x)"
  by (cases x; simp; (intro never_sets_replies)?; (intro never_sets_keeps never_sets_return never_sets_ring_requests q d)?; simp?)+

text \<open>The handler keeps the contract of a ring towards its device.\<close>

lemma ring_lock_iff: "ring_lock env i h \<noteq> None \<longleftrightarrow> ring_started env i h \<and> ring_enabled i h"
  using try_lock_queue_iff [of "he_queue env" "h_vrings h ! i"]
  by (auto simp: ring_lock_def ring_started_def ring_enabled_def)

lemma controlled_ring_handler:
  assumes "queue_contract (he_queue env)" "only_watches (he_device env)"
  shows "controlled_ring (ring_lock env i) (ring_started env i) (ring_enabled i) (request_step env)
    (may_start i) (may_enable (he_protocol_features env) i)"
proof
  show "ring_lock env i h \<noteq> None \<longleftrightarrow> ring_started env i h \<and> ring_enabled i h" for h
    by (rule ring_lock_iff)
  show "\<not> may_start i x \<Longrightarrow> \<not> ring_started env i h \<Longrightarrow> \<not> ring_started env i (request_step env x h)" for x h
    using never_setsD [OF never_sets_requests(1) [OF assms]] unfolding request_step_def by blast
  show "\<not> may_enable (he_protocol_features env) i x \<Longrightarrow> \<not> ring_enabled i h \<Longrightarrow> \<not> ring_enabled i (request_step env x h)" for x h
    using never_setsD [OF never_sets_requests(2) [OF assms]] unfolding request_step_def by blast
qed

lemma bind_method_OkE:
  assumes "bind_method m f s = (Ok b, s'')"
  obtains a s' where "m s = (Ok a, s')" "f a s' = (Ok b, s'')"
  using assms by (auto simp: bind_method_def split: prod.splits rust.splits)

lemma get_vring_base_OkE:
  assumes "queue_contract (he_queue env)" "get_vring_base env j h = (Ok x, h')"
  obtains v w where "unat j < length (h_vrings h)"
    "h' = h\<lparr>h_vrings := (h_vrings h)[unat j := v], h_world := w\<rparr>"
    "\<not> is_started (he_queue env) v" "kick v = None" "call v = None" "enabled v = enabled (h_vrings h ! unat j)"
    "x = (j, ucast (q_next_avail (he_queue env) (queue (h_vrings h ! unat j))))"
proof -
  let ?qo = "he_queue env" and ?v = "h_vrings h ! unat j"
  note q = queue_contractD [OF assms(1)]
  have i: "unat j < length (h_vrings h)"
    using assms(2) by (auto simp: get_vring_base_def indexed_def split: if_splits)
  obtain r v1 w1 where s: "vring_stop ?qo (he_ctl env) (he_bits env) (?v, h_world h) = (r, v1, w1)" by (metis surj_pair)
  have r: "r = Ok ()" and v1: "v1 = ?v\<lparr>queue := q_set_ready ?qo False (queue ?v)\<rparr>"
  proof -
    show "r = Ok ()" using assms(2) i s
      by (cases r) (auto simp: get_vring_base_def indexed_def bind_method_def unwrapped_def with_vring_def)
    then show "v1 = ?v\<lparr>queue := q_set_ready ?qo False (queue ?v)\<rparr>" using s
      by (auto simp: vring_stop_def Let_def split: prod.splits rust.splits)
  qed
  obtain r2 v2 w2 where k: "set_kick ?qo (he_ctl env) (he_bits env) None (v1, w1) = (r2, v2, w2)" by (metis surj_pair)
  have "\<not> is_started ?qo v1" using q v1 by (simp add: is_started_def)
  then have k2: "r2 = Ok ()" "v2 = v1\<lparr>kick := None\<rparr>" using k by (auto simp: set_kick_def is_started_def Let_def)
  have "h' = h\<lparr>h_vrings := (h_vrings h)[unat j := set_call None v2], h_world := w2\<rparr> \<and>
      x = (j, ucast (q_next_avail ?qo (queue v1)))"
    using assms(2) i s k r k2(1)
    by (auto simp: get_vring_base_def indexed_def bind_method_def unwrapped_def with_vring_def Let_def on_vring_def)
  with that [where v = "set_call None v2" and w = w2] i k2(2) v1 q show thesis by (simp add: set_call_def is_started_def)
qed

section \<open>Properties\<close>

text \<open>C36: after a successful \<^verbatim>\<open>GET_VRING_BASE\<close> the ring stays out of the device's reach, whatever requests follow,
  until a kick or a call descriptor is set for it; a disabled ring stays so until it is enabled or features without
  the protocol bit are set.\<close>

theorem stopped_ring_unavailable:
  assumes "queue_contract (he_queue env)" "only_watches (he_device env)"
    and "fst (handle env (GetVringBase j) h) = Ok x" "list_all (\<lambda>y. \<not> may_start (unat j) y) xs"
    and "\<not> ring_enabled i h" "list_all (\<lambda>y. \<not> may_enable (he_protocol_features env) i y) ys"
  shows "ring_lock env (unat j) (fold (request_step env) xs (request_step env (GetVringBase j) h)) = None \<and>
    ring_lock env i (fold (request_step env) ys h) = None"
proof -
  note c = controlled_ring_handler [OF assms(1,2)]
  obtain b h' where b: "get_vring_base env j h = (Ok b, h')"
    using assms(3) by (cases "get_vring_base env j h"; cases "fst (get_vring_base env j h)") (auto simp: replies_def)
  then have "\<not> ring_started env (unat j) (request_step env (GetVringBase j) h)"
    by (auto simp: request_step_def replies_def ring_started_def elim!: get_vring_base_OkE [OF assms(1)])
  with assms(4) have "ring_lock env (unat j) (fold (request_step env) xs (request_step env (GetVringBase j) h)) = None"
    by (intro controlled_ring.stopped_never_locked [OF c])
  moreover have "ring_lock env i (fold (request_step env) ys h) = None"
    using assms(5,6) by (rule controlled_ring.disabled_never_locked [OF c])
  ultimately show ?thesis ..
qed

theorem stopped_ring_unavailable_witness:
  "let env = plain_env idle_device; h = started_handler () in
    ring_lock env 0 h \<noteq> None \<and>
    ring_lock env 0 (fold (request_step env) [SetVringEnable 0 True, SetVringErr 0 None]
      (request_step env (GetVringBase 0) h)) = None"
proof -
  let ?env = "plain_env idle_device :: (unit, bool \<times> u16, nat \<Rightarrow> epoll_event option) handler_env"
  let ?h = "started_handler ()"
  have q: "queue_contract (he_queue ?env)" by (simp add: plain_env_def flag_queue_contract)
  have d: "only_watches (he_device ?env)" by (auto simp: plain_env_def only_watches_def idle_device_def)
  have "fst (handle ?env (GetVringBase 0) ?h) = Ok (ReplyVringState 0 9)"
    by (simp add: replies_def get_vring_base_def indexed_def started_handler_def bind_method_def unwrapped_def with_vring_def
        vring_stop_def set_kick_def is_started_def unregister_kick_def on_epoll_def plain_env_def flag_queue_def)
  moreover have "\<not> ring_enabled 1 ?h" by (simp add: ring_enabled_def started_handler_def)
  moreover have "ring_lock ?env 0 ?h \<noteq> None"
    by (simp add: ring_lock_def started_handler_def try_lock_queue_def plain_env_def flag_queue_def)
  ultimately show ?thesis
    using stopped_ring_unavailable [OF q d, of 0 ?h "ReplyVringState 0 9" "[SetVringEnable 0 True, SetVringErr 0 None]" 1 "[]"]
    by (simp add: Let_def)
qed

end
