(* ===== verification/Vhost_User_Session.thy ===== *)
theory Vhost_User_Session
  imports Vhost_User_Rings
begin

text \<open>
  Sessions of a conforming frontend. The rings of a handler share epoll instances, so their kick descriptors are
  in step together (\<open>rings_synced\<close>). \<open>conforming\<close> says which requests a frontend may send in which state; the
  locale \<open>vhost_backend\<close> says what the libraries and the device owe the handler. Under it no request of a
  conforming session panics and all rings stay in step, although ring operations are unwrapped all over the
  handler. The devices of the repository interpret the locale in their own theories.
\<close>

section \<open>All rings in step\<close>

definition settled :: "('q, 'mem) queue_ops \<Rightarrow> 'q vring \<Rightarrow> bool" where
  "settled qo v \<longleftrightarrow> is_started qo v \<or> kick v = None"

text \<open>Stopping also succeeds on a stopped ring whose watchers are all gone.\<close>

definition stoppable :: "('q, 'mem) queue_ops \<Rightarrow> 'ep world \<Rightarrow> 'q vring \<Rightarrow> bool" where
  "stoppable qo w v \<longleftrightarrow> settled qo v \<or> list_all (\<lambda>(e, _). w e = None) (epolls v)"

definition other_kicks :: "'q vring list \<Rightarrow> nat \<Rightarrow> nat set" where
  "other_kicks vs i = {fd. \<exists>j<length vs. j \<noteq> i \<and> kick (vs ! j) = Some fd}"

definition rings_synced ::
  "('q, 'mem) queue_ops \<Rightarrow> event_bits \<Rightarrow> ('ep \<Rightarrow> nat \<Rightarrow> epoll_event option) \<Rightarrow> 'q vring list \<Rightarrow> 'ep world \<Rightarrow> bool" where
  "rings_synced qo eb regs vs w \<longleftrightarrow>
     (\<forall>i<length vs. kick_synced qo eb regs (vs ! i, w) \<and> set_option (kick (vs ! i)) \<inter> other_kicks vs i = {})"

lemma rings_syncedD:
  assumes "rings_synced qo eb regs vs w" "i < length vs"
  shows "kick_synced qo eb regs (vs ! i, w)" "set_option (kick (vs ! i)) \<inter> other_kicks vs i = {}"
  using assms by (simp_all add: rings_synced_def)

lemma other_kicks_update: "j < length vs \<Longrightarrow> j \<noteq> i \<Longrightarrow> other_kicks (vs[i := v]) j \<subseteq> other_kicks vs j \<union> set_option (kick v)"
  by (cases "i < length vs") (auto simp: other_kicks_def nth_list_update split: if_splits)

lemma other_kicks_same: "other_kicks (vs[i := v]) i = other_kicks vs i"
  by (auto simp: other_kicks_def)

text \<open>A step of ring \<open>i\<close> that touches only descriptors no other ring uses.\<close>

lemma rings_synced_update:
  assumes "rings_synced qo eb regs vs w" "i < length vs" "kick_synced qo eb regs (v, w')" "touches regs fds w w'"
    and "fds \<inter> other_kicks vs i = {}" "set_option (kick v) \<inter> other_kicks vs i = {}"
  shows "rings_synced qo eb regs (vs[i := v]) w'"
  unfolding rings_synced_def
proof (intro allI impI)
  fix j assume "j < length (vs[i := v])"
  then have j: "j < length vs" by simp
  show "kick_synced qo eb regs (vs[i := v] ! j, w') \<and> set_option (kick (vs[i := v] ! j)) \<inter> other_kicks (vs[i := v]) j = {}"
  proof (cases "j = i")
    case True
    with assms j show ?thesis by (simp add: other_kicks_same)
  next
    case False
    have o: "fd \<in> other_kicks vs i" if "kick (vs ! j) = Some fd" for fd
      using that False j by (auto simp: other_kicks_def)
    have "kick_synced qo eb regs (vs ! j, w')"
      using rings_syncedD(1) [OF assms(1) j] o assms(5) by (intro kick_synced_frame [OF assms(4)]) auto
    moreover have "set_option (kick (vs ! j)) \<inter> other_kicks (vs[i := v]) j = {}"
      using rings_syncedD(2) [OF assms(1) j] other_kicks_update [OF j False, of v] o assms(6) by fastforce
    ultimately show ?thesis using False by simp
  qed
qed

text \<open>A ring that is watched the same way.\<close>

definition same_watch :: "('q, 'mem) queue_ops \<Rightarrow> 'q vring \<Rightarrow> 'q vring \<Rightarrow> bool" where
  "same_watch qo v v' \<longleftrightarrow> is_started qo v' = is_started qo v \<and> kick v' = kick v \<and> epolls v' = epolls v"

lemma same_flags_watch: "same_flags qo v v' \<Longrightarrow> same_watch qo v v'"
  by (simp add: same_flags_def same_watch_def)

lemma kick_synced_same_watch:
  assumes "same_watch qo v v'" "kick_synced qo eb regs (v, w)"
  shows "kick_synced qo eb regs (v', w)"
  using assms by (simp add: same_watch_def kick_synced_def)

lemma rings_synced_same_watch:
  assumes "rings_synced qo eb regs vs w" "i < length vs" "same_watch qo (vs ! i) v"
  shows "rings_synced qo eb regs (vs[i := v]) w"
proof (rule rings_synced_update [OF assms(1,2), where fds = "{}"])
  show "kick_synced qo eb regs (v, w)"
    using assms(3) rings_syncedD(1) [OF assms(1,2)] by (rule kick_synced_same_watch)
  show "set_option (kick v) \<inter> other_kicks vs i = {}"
    using rings_syncedD(2) [OF assms(1,2)] assms(3) by (simp add: same_watch_def)
qed simp_all

lemma rings_synced_map:
  assumes "rings_synced qo eb regs vs w" "\<And>v. same_watch qo v (g v)"
  shows "rings_synced qo eb regs (map g vs) w"
proof -
  have "kick (g v) = kick v" for v using assms(2) by (simp add: same_watch_def)
  then have "other_kicks (map g vs) i = other_kicks vs i" for i
    unfolding other_kicks_def by (auto intro!: Collect_cong)
  with assms(1) \<open>\<And>v. kick (g v) = kick v\<close> show ?thesis
    by (simp add: rings_synced_def kick_synced_same_watch [OF assms(2)])
qed

text \<open>Closing instances.\<close>

lemma rings_synced_shrink:
  assumes "rings_synced qo eb regs vs w" "\<And>e. w' e = None \<or> w' e = w e"
  shows "rings_synced qo eb regs vs w'"
proof -
  have "w e = Some ep" if "w' e = Some ep" for e ep using assms(2) [of e] that by auto
  with assms(1) show ?thesis by (fastforce simp: rings_synced_def kick_synced_def)
qed

lemma update_epolls_dead:
  "list_all (\<lambda>(e, _). w e = None) es \<Longrightarrow> update_epolls ctl eb old_kick new_kick es w = (Ok (), w)"
  by (induction es) auto

text \<open>The three ring operations on one ring of the table.\<close>

lemma table_stop:
  assumes "epoll_contract ctl regs" "queue_contract qo" "rings_synced qo eb regs vs w" "i < length vs" "stoppable qo w (vs ! i)"
  shows "\<exists>w'. vring_stop qo ctl eb (vs ! i, w) = (Ok (), ((vs ! i)\<lparr>queue := q_set_ready qo False (queue (vs ! i))\<rparr>, w')) \<and>
    rings_synced qo eb regs (vs[i := (vs ! i)\<lparr>queue := q_set_ready qo False (queue (vs ! i))\<rparr>]) w' \<and>
    (\<forall>e. w' e = None \<longleftrightarrow> w e = None)"
proof (cases "is_started qo (vs ! i)")
  case True
  note s = rings_syncedD [OF assms(3,4)]
  obtain w' where "vring_stop qo ctl eb (vs ! i, w) = (Ok (), ((vs ! i)\<lparr>queue := q_set_ready qo False (queue (vs ! i))\<rparr>, w'))"
      "kick_synced qo eb regs ((vs ! i)\<lparr>queue := q_set_ready qo False (queue (vs ! i))\<rparr>, w')" "touches regs (set_option (kick (vs ! i))) w w'"
    using vring_stop_ok [OF assms(1,2) s(1) True] by blast
  with rings_synced_update [OF assms(3,4) this(2,3)] s(2) show ?thesis by (simp add: touches_def)
next
  case False
  note s = rings_syncedD [OF assms(3,4)]
  from False assms(5) have k: "kick (vs ! i) = None \<or> list_all (\<lambda>(e, _). w e = None) (epolls (vs ! i))"
    by (simp add: stoppable_def settled_def)
  then have "kick_synced qo eb regs ((vs ! i)\<lparr>queue := q_set_ready qo False (queue (vs ! i))\<rparr>, w)"
    using s(1) by (auto simp: kick_synced_def list_all_iff)
  from rings_synced_update [OF assms(3,4) this, of "{}"] s(2)
  have "rings_synced qo eb regs (vs[i := (vs ! i)\<lparr>queue := q_set_ready qo False (queue (vs ! i))\<rparr>]) w" by simp
  moreover have "vring_stop qo ctl eb (vs ! i, w) = (Ok (), ((vs ! i)\<lparr>queue := q_set_ready qo False (queue (vs ! i))\<rparr>, w))"
    using k by (auto simp: vring_stop_def update_epolls_dead split: option.split)
  ultimately show ?thesis by blast
qed

lemma table_start:
  assumes "epoll_contract ctl regs" "queue_contract qo" "rings_synced qo eb regs vs w" "i < length vs" "\<not> is_started qo (vs ! i)"
  shows "\<exists>w'. vring_start qo ctl eb (vs ! i, w) = (Ok (), ((vs ! i)\<lparr>queue := q_set_ready qo True (queue (vs ! i))\<rparr>, w')) \<and>
    rings_synced qo eb regs (vs[i := (vs ! i)\<lparr>queue := q_set_ready qo True (queue (vs ! i))\<rparr>]) w'"
proof -
  note s = rings_syncedD [OF assms(3,4)]
  obtain w' where "vring_start qo ctl eb (vs ! i, w) = (Ok (), ((vs ! i)\<lparr>queue := q_set_ready qo True (queue (vs ! i))\<rparr>, w'))"
      "kick_synced qo eb regs ((vs ! i)\<lparr>queue := q_set_ready qo True (queue (vs ! i))\<rparr>, w')" "touches regs (set_option (kick (vs ! i))) w w'"
    using vring_start_ok [OF assms(1,2) s(1) assms(5)] by blast
  with rings_synced_update [OF assms(3,4) this(2,3)] s(2) show ?thesis by simp
qed

lemma table_kick:
  assumes "epoll_contract ctl regs" "rings_synced qo eb regs vs w" "i < length vs"
    and "\<And>fd. new_kick = Some fd \<Longrightarrow> fresh_fd regs fd (vs ! i, w) \<and> fd \<notin> other_kicks vs i"
  shows "\<exists>w'. set_kick qo ctl eb new_kick (vs ! i, w) = (Ok (), ((vs ! i)\<lparr>kick := new_kick\<rparr>, w')) \<and>
    rings_synced qo eb regs (vs[i := (vs ! i)\<lparr>kick := new_kick\<rparr>]) w'"
proof -
  note s = rings_syncedD [OF assms(2,3)]
  obtain w' where k: "set_kick qo ctl eb new_kick (vs ! i, w) = (Ok (), ((vs ! i)\<lparr>kick := new_kick\<rparr>, w'))"
      "kick_synced qo eb regs ((vs ! i)\<lparr>kick := new_kick\<rparr>, w')" "touches regs (set_option (kick (vs ! i)) \<union> set_option new_kick) w w'"
    using set_kick_ok [OF assms(1) s(1), of new_kick] assms(4) by blast
  have "set_option new_kick \<inter> other_kicks vs i = {}" using assms(4) by (cases new_kick) auto
  with rings_synced_update [OF assms(2,3) k(2,3)] s(2) k(1) show ?thesis by auto
qed

section \<open>A conforming frontend\<close>

text \<open>The libraries the handler calls into do not panic.\<close>

definition calm_env :: "('d, 'q, 'ep) handler_env \<Rightarrow> bool" where
  "calm_env env \<longleftrightarrow>
     (\<forall>a q. fst (q_try_set_desc_table_address (he_queue env) a q) \<noteq> Panic) \<and>
     (\<forall>a q. fst (q_try_set_avail_ring_address (he_queue env) a q) \<noteq> Panic) \<and>
     (\<forall>a q. fst (q_try_set_used_ring_address (he_queue env) a q) \<noteq> Panic) \<and>
     (\<forall>m q. q_used_idx (he_queue env) m q \<noteq> Panic) \<and>
     (\<forall>r f. mo_mmap_region (he_mem env) r f \<noteq> Panic) \<and>
     (\<forall>rs. mo_from_regions (he_mem env) rs \<noteq> Panic) \<and>
     (\<forall>g m. mo_insert_region (he_mem env) g m \<noteq> Panic) \<and>
     (\<forall>a n m. mo_remove_region (he_mem env) a n m \<noteq> Panic) \<and>
     (\<forall>f off n. he_mmap env f off n \<noteq> Panic)"

text \<open>A kick descriptor that the ring's epoll instances do not watch yet and no other ring uses.\<close>

definition new_kick_fd :: "('ep \<Rightarrow> nat \<Rightarrow> epoll_event option) \<Rightarrow> nat \<Rightarrow> nat \<Rightarrow> ('d, 'q, 'ep) handler \<Rightarrow> bool" where
  "new_kick_fd regs fd i h \<longleftrightarrow> fresh_fd regs fd (h_vrings h ! i, h_world h) \<and> fd \<notin> other_kicks (h_vrings h) i"

text \<open>When the request for ring \<open>i\<close> would activate the device, the other rings must be started or have no kick:
  activation registers every kick it finds.\<close>

definition ready_to_activate :: "('d, 'q, 'ep) handler_env \<Rightarrow> nat \<Rightarrow> ('d, 'q, 'ep) handler \<Rightarrow> bool" where
  "ready_to_activate env i h \<longleftrightarrow> h_device_activated h \<or> \<not> h_memory_updated h \<or>
     (\<forall>j<length (h_vrings h). j \<noteq> i \<longrightarrow> settled (he_queue env) (h_vrings h ! j))"

fun conforming ::
  "('d, 'q, 'ep) handler_env \<Rightarrow> ('ep \<Rightarrow> nat \<Rightarrow> epoll_event option) \<Rightarrow> request \<Rightarrow> ('d, 'q, 'ep) handler \<Rightarrow> bool" where
  "conforming env regs ResetDevice h \<longleftrightarrow>
     list_all (stoppable (he_queue env) (h_world h)) (h_vrings h) \<and> (\<forall>w. is_ok (fst (dv_reset (he_device env) (h_device h, w))))"
| "conforming env regs (SetFeatures f) h \<longleftrightarrow>
     f AND NOT (dv_avail_features (he_device env) (h_device h)) \<noteq> 0 \<or> f AND he_protocol_features env = he_protocol_features env"
| "conforming env regs (SetVringAddr _ _ _ _) h \<longleftrightarrow> he_debug env \<longrightarrow> list_all mapping_sound (h_mappings h)"
| "conforming env regs (GetVringBase j) h \<longleftrightarrow>
     unat j < length (h_vrings h) \<longrightarrow> stoppable (he_queue env) (h_world h) (h_vrings h ! unat j)"
| "conforming env regs (SetVringKick j file) h \<longleftrightarrow>
     unat j < length (h_vrings h) \<longrightarrow>
       (\<forall>fd. file = Some fd \<longrightarrow> new_kick_fd regs fd (unat j) h) \<and> ready_to_activate env (unat j) h"
| "conforming env regs (SetVringCall j file) h \<longleftrightarrow> unat j < length (h_vrings h) \<longrightarrow> ready_to_activate env (unat j) h"
| "conforming env regs (GetConfig off n) h \<longleftrightarrow> dv_read_config (he_device env) (unat off) (unat n) (h_device h) \<noteq> Panic"
| "conforming env regs SetDeviceStateFd h \<longleftrightarrow> False"
| "conforming env regs CheckDeviceState h \<longleftrightarrow> False"
| "conforming env regs _ h \<longleftrightarrow> True"

text \<open>The states a conforming frontend can bring the handler into.\<close>

inductive session ::
  "('d, 'q, 'ep) handler_env \<Rightarrow> ('ep \<Rightarrow> nat \<Rightarrow> epoll_event option) \<Rightarrow> ('d, 'q, 'ep) handler \<Rightarrow> ('d, 'q, 'ep) handler \<Rightarrow> bool"
  for env regs h0 where
  session_start: "session env regs h0 h0"
| session_step: "session env regs h0 h \<Longrightarrow> conforming env regs x h \<Longrightarrow> session env regs h0 (request_step env x h)"

abbreviation put_ring :: "nat \<Rightarrow> 'q vring \<Rightarrow> 'ep world \<Rightarrow> ('d, 'q, 'ep) handler \<Rightarrow> ('d, 'q, 'ep) handler" where
  "put_ring i v w h \<equiv> h\<lparr>h_vrings := (h_vrings h)[i := v], h_world := w\<rparr>"

abbreviation readied :: "('d, 'q, 'ep) handler_env \<Rightarrow> bool \<Rightarrow> 'q vring \<Rightarrow> 'q vring" where
  "readied env b v \<equiv> v\<lparr>queue := q_set_ready (he_queue env) b (queue v)\<rparr>"

text \<open>The interface between the handler and a backend: what the libraries and the device must guarantee. \<open>fresh\<close>
  describes a device that has not been activated, \<open>nq\<close> is its number of queues.\<close>

locale vhost_backend =
  fixes env :: "('d, 'q, 'ep) handler_env"
    and regs :: "'ep \<Rightarrow> nat \<Rightarrow> epoll_event option"
    and fresh :: "'d \<Rightarrow> bool"
    and nq :: nat
  assumes epoll: "epoll_contract (he_ctl env) regs"
    and virtq: "queue_contract (he_queue env)"
    and calm: "calm_env env"
    and queues_fresh: "fresh d \<Longrightarrow> length (dv_queues (he_device env) d) = nq"
    and activate_safe: "fresh d \<Longrightarrow> length vs = nq \<Longrightarrow> rings_synced (he_queue env) (he_bits env) regs vs w \<Longrightarrow>
      list_all (settled (he_queue env)) vs \<Longrightarrow> dv_activate (he_device env) mem (d, vs, w) = (r, d', vs', w') \<Longrightarrow>
      r \<noteq> Panic \<and> length vs' = nq \<and> rings_synced (he_queue env) (he_bits env) regs vs' w'"
    and set_acked_safe: "f AND he_protocol_features env = he_protocol_features env \<Longrightarrow>
      fst (dv_set_acked_features (he_device env) f d) = Ok ()"
    and set_acked_fresh: "fresh d \<Longrightarrow> fresh (snd (dv_set_acked_features (he_device env) f d))"
    and write_config_safe: "fst (dv_write_config (he_device env) off buf d) \<noteq> Panic"
    and write_config_fresh: "fresh d \<Longrightarrow> fresh (snd (dv_write_config (he_device env) off buf d))"
    and reset_fresh: "fresh d \<Longrightarrow> fresh (fst (snd (dv_reset (he_device env) (d, w))))"
    and reset_world: "dv_reset (he_device env) (d, w) = (rb, d', w') \<Longrightarrow> w' e = None \<or> w' e = w e"
    and socket_fresh: "fresh d \<Longrightarrow> fresh (dv_set_gpu_socket (he_device env) b d)"
begin

text \<open>The invariant of the handler: all rings in step, one ring per queue, and the device untouched until it is
  activated.\<close>

definition backend_inv :: "('d, 'q, 'ep) handler \<Rightarrow> bool" where
  "backend_inv h \<longleftrightarrow> rings_synced (he_queue env) (he_bits env) regs (h_vrings h) (h_world h) \<and>
     length (h_vrings h) = nq \<and> length (h_requested_queues h) = nq \<and> (\<not> h_device_activated h \<longrightarrow> fresh (h_device h))"

definition safe :: "('d, 'q, 'ep, 'a) request_method \<Rightarrow> ('d, 'q, 'ep) handler \<Rightarrow> bool" where
  "safe m h \<longleftrightarrow> fst (m h) \<noteq> Panic \<and> backend_inv (snd (m h))"

lemma safe_replies: "safe m h \<Longrightarrow> safe (replies f m) h"
  by (auto simp: safe_def replies_def map_ok_def split: prod.splits rust.splits)

lemma safe_indexed: "backend_inv h \<Longrightarrow> (i < nq \<Longrightarrow> safe m h) \<Longrightarrow> safe (indexed i m) h"
  by (simp add: safe_def indexed_def backend_inv_def)

lemma inv_same_watch:
  assumes "backend_inv h" "i < nq" "same_watch (he_queue env) (h_vrings h ! i) v"
  shows "backend_inv (h\<lparr>h_vrings := (h_vrings h)[i := v]\<rparr>)"
  using assms by (simp add: backend_inv_def rings_synced_same_watch)

lemma inv_on_vring:
  assumes "backend_inv h" "i < nq" "same_watch (he_queue env) (h_vrings h ! i) (f (h_vrings h ! i))"
  shows "backend_inv (on_vring i f h)"
  unfolding on_vring_def using assms by (rule inv_same_watch)

lemma stop_ring:
  assumes "backend_inv h" "i < nq" "stoppable (he_queue env) (h_world h) (h_vrings h ! i)"
  obtains w where
    "unwrapped (with_vring i (vring_stop (he_queue env) (he_ctl env) (he_bits env))) h = (Ok (), put_ring i (readied env False (h_vrings h ! i)) w h)"
    "backend_inv (put_ring i (readied env False (h_vrings h ! i)) w h)" "\<And>e. w e = None \<longleftrightarrow> h_world h e = None"
proof -
  obtain w where "vring_stop (he_queue env) (he_ctl env) (he_bits env) (h_vrings h ! i, h_world h) = (Ok (), readied env False (h_vrings h ! i), w)"
    "rings_synced (he_queue env) (he_bits env) regs ((h_vrings h)[i := readied env False (h_vrings h ! i)]) w"
    "\<forall>e. w e = None \<longleftrightarrow> h_world h e = None"
    using table_stop [OF epoll virtq, of "he_bits env" "h_vrings h" "h_world h" i] assms by (auto simp: backend_inv_def)
  with assms(1) show thesis by (intro that [of w]) (simp_all add: unwrapped_def with_vring_def backend_inv_def)
qed

lemma start_ring:
  assumes "backend_inv h" "i < nq" "\<not> is_started (he_queue env) (h_vrings h ! i)"
  obtains w where
    "unwrapped (with_vring i (vring_start (he_queue env) (he_ctl env) (he_bits env))) h = (Ok (), put_ring i (readied env True (h_vrings h ! i)) w h)"
    "backend_inv (put_ring i (readied env True (h_vrings h ! i)) w h)"
proof -
  obtain w where "vring_start (he_queue env) (he_ctl env) (he_bits env) (h_vrings h ! i, h_world h) = (Ok (), readied env True (h_vrings h ! i), w)"
    "rings_synced (he_queue env) (he_bits env) regs ((h_vrings h)[i := readied env True (h_vrings h ! i)]) w"
    using table_start [OF epoll virtq, of "he_bits env" "h_vrings h" "h_world h" i] assms by (auto simp: backend_inv_def)
  with assms(1) show thesis by (intro that [of w]) (simp_all add: unwrapped_def with_vring_def backend_inv_def)
qed

lemma kick_ring:
  assumes "backend_inv h" "i < nq" "\<And>fd. file = Some fd \<Longrightarrow> new_kick_fd regs fd i h"
  obtains w where
    "unwrapped (with_vring i (set_kick (he_queue env) (he_ctl env) (he_bits env) file)) h = (Ok (), put_ring i ((h_vrings h ! i)\<lparr>kick := file\<rparr>) w h)"
    "backend_inv (put_ring i ((h_vrings h ! i)\<lparr>kick := file\<rparr>) w h)"
proof -
  obtain w where "set_kick (he_queue env) (he_ctl env) (he_bits env) file (h_vrings h ! i, h_world h) = (Ok (), (h_vrings h ! i)\<lparr>kick := file\<rparr>, w)"
    "rings_synced (he_queue env) (he_bits env) regs ((h_vrings h)[i := (h_vrings h ! i)\<lparr>kick := file\<rparr>]) w"
    using table_kick [OF epoll, of "he_queue env" "he_bits env" "h_vrings h" "h_world h" i] assms
    by (auto simp: backend_inv_def new_kick_fd_def)
  with assms(1) show thesis by (intro that [of w]) (simp_all add: unwrapped_def with_vring_def backend_inv_def)
qed

text \<open>The requests one by one. First those that leave the rings alone.\<close>

lemma inv_frame:
  assumes "backend_inv h" "h_vrings h' = h_vrings h" "h_world h' = h_world h" "h_requested_queues h' = h_requested_queues h"
    and "h_device_activated h' = h_device_activated h" "fresh (h_device h) \<Longrightarrow> fresh (h_device h')"
  shows "backend_inv h'"
  using assms by (auto simp: backend_inv_def)

lemma safe_activate:
  assumes "backend_inv h" "\<not> h_device_activated h" "list_all (settled (he_queue env)) (h_vrings h)"
  shows "safe (activate_device env) h"
proof -
  obtain r d vs w where a: "dv_activate (he_device env) (h_atomic_mem h) (h_device h, h_vrings h, h_world h) = (r, d, vs, w)"
    by (metis surj_pair)
  have "r \<noteq> Panic \<and> length vs = nq \<and> rings_synced (he_queue env) (he_bits env) regs vs w"
    using assms activate_safe [OF _ _ _ assms(3) a] by (auto simp: backend_inv_def)
  with assms(1) a show ?thesis
    by (auto simp: safe_def activate_device_def backend_inv_def map_err_def split: rust.split)
qed

lemma safe_initialize:
  assumes "backend_inv h" "i < nq" "ready_to_activate env i h"
  shows "safe (initialize_vring env i) h"
proof (cases "\<not> is_started (he_queue env) (h_vrings h ! i) \<and> has_kick_event (h_vrings h ! i)")
  case False
  with assms show ?thesis by (auto simp: safe_def initialize_vring_def backend_inv_def)
next
  case True
  let ?v = "readied env True (h_vrings h ! i)"
  have l: "length (h_vrings h) = nq" using assms(1) by (simp add: backend_inv_def)
  obtain w where s: "unwrapped (with_vring i (vring_start (he_queue env) (he_ctl env) (he_bits env))) h
        = (Ok () :: (unit, vhost_user_error) rust, put_ring i ?v w h)" and inv: "backend_inv (put_ring i ?v w h)"
    using True start_ring [OF assms(1,2)] by metis
  have "list_all (settled (he_queue env)) ((h_vrings h)[i := ?v])" if "\<not> h_device_activated h" "h_memory_updated h"
    using assms(2,3) that l queue_contractD(1) [OF virtq]
    by (auto simp: list_all_length nth_list_update ready_to_activate_def settled_def is_started_def)
  then have "safe (activate_device env) (put_ring i ?v w h)" if "\<not> h_device_activated h" "h_memory_updated h"
    using that inv by (intro safe_activate) simp_all
  then show ?thesis
    using True assms(2) l inv by (auto simp: safe_def initialize_vring_def bind_method_def s)
qed

lemma safe_set_vring_kick:
  assumes "backend_inv h" "conforming env regs (SetVringKick j file) h"
  shows "safe (set_vring_kick env j file) h"
  unfolding set_vring_kick_def
proof (rule safe_indexed [OF assms(1)])
  assume j: "unat j < nq"
  with assms have c: "\<And>fd. file = Some fd \<Longrightarrow> new_kick_fd regs fd (unat j) h" "ready_to_activate env (unat j) h"
    by (auto simp: backend_inv_def)
  obtain w where k: "unwrapped (with_vring (unat j) (set_kick (he_queue env) (he_ctl env) (he_bits env) file)) h
      = (Ok () :: (unit, vhost_user_error) rust, put_ring (unat j) ((h_vrings h ! unat j)\<lparr>kick := file\<rparr>) w h)"
    and inv: "backend_inv (put_ring (unat j) ((h_vrings h ! unat j)\<lparr>kick := file\<rparr>) w h)"
    using kick_ring [OF assms(1) j c(1)] by metis
  have "ready_to_activate env (unat j) (put_ring (unat j) ((h_vrings h ! unat j)\<lparr>kick := file\<rparr>) w h)"
    using c(2) by (auto simp: ready_to_activate_def)
  with safe_initialize [OF inv j] k
  show "safe (bind_method (unwrapped (with_vring (unat j) (set_kick (he_queue env) (he_ctl env) (he_bits env) file)))
      (\<lambda>_. initialize_vring env (unat j))) h"
    by (simp add: safe_def bind_method_def)
qed

lemma safe_set_vring_call:
  assumes "backend_inv h" "conforming env regs (SetVringCall j file) h"
  shows "safe (set_vring_call env j file) h"
  unfolding set_vring_call_def
proof (rule safe_indexed [OF assms(1)])
  assume j: "unat j < nq"
  have "backend_inv (on_vring (unat j) (set_call file) h)"
    using assms(1) j by (rule inv_on_vring) (simp add: same_watch_def set_call_def is_started_def)
  moreover have "ready_to_activate env (unat j) (on_vring (unat j) (set_call file) h)"
    using assms j by (auto simp: ready_to_activate_def on_vring_def backend_inv_def)
  ultimately show "safe (\<lambda>h. initialize_vring env (unat j) (on_vring (unat j) (set_call file) h)) h"
    using safe_initialize j by (simp add: safe_def)
qed

lemma safe_get_vring_base:
  assumes "backend_inv h" "conforming env regs (GetVringBase j) h"
  shows "safe (get_vring_base env j) h"
  unfolding get_vring_base_def Let_def
proof (rule safe_indexed [OF assms(1)])
  assume j: "unat j < nq"
  let ?i = "unat j" and ?qo = "he_queue env"
  have "stoppable ?qo (h_world h) (h_vrings h ! ?i)" using assms j by (simp add: backend_inv_def)
  then obtain w where s: "unwrapped (with_vring ?i (vring_stop ?qo (he_ctl env) (he_bits env))) h
      = (Ok () :: (unit, vhost_user_error) rust, put_ring ?i (readied env False (h_vrings h ! ?i)) w h)"
    and inv: "backend_inv (put_ring ?i (readied env False (h_vrings h ! ?i)) w h)" (is "backend_inv ?h1")
    using stop_ring [OF assms(1) j] by metis
  obtain w2 where k: "unwrapped (with_vring ?i (set_kick ?qo (he_ctl env) (he_bits env) None)) ?h1
      = (Ok () :: (unit, vhost_user_error) rust, put_ring ?i ((h_vrings ?h1 ! ?i)\<lparr>kick := None\<rparr>) w2 ?h1)"
    and inv2: "backend_inv (put_ring ?i ((h_vrings ?h1 ! ?i)\<lparr>kick := None\<rparr>) w2 ?h1)" (is "backend_inv ?h2")
    using kick_ring [OF inv j, of None] by (metis option.distinct(1))
  have "backend_inv (on_vring ?i (set_call None) ?h2)"
    using inv2 j by (rule inv_on_vring) (simp add: same_watch_def set_call_def is_started_def)
  then show "safe (bind_method (unwrapped (with_vring ?i (vring_stop ?qo (he_ctl env) (he_bits env))))
     (\<lambda>_ h. bind_method (unwrapped (with_vring ?i (set_kick ?qo (he_ctl env) (he_bits env) None)))
       (\<lambda>_ ha. (Ok (j, ucast (q_next_avail ?qo (queue (h_vrings h ! ?i)))), on_vring ?i (set_call None) ha)) h)) h"
    using s k by (simp add: safe_def bind_method_def)
qed

lemma safe_reset_vrings:
  assumes "backend_inv h" "distinct is" "\<forall>i\<in>set is. i < nq \<and> stoppable (he_queue env) (h_world h) (h_vrings h ! i)"
  shows "fst (reset_vrings env is h) = Ok () \<and> backend_inv (snd (reset_vrings env is h)) \<and>
    h_device (snd (reset_vrings env is h)) = h_device h"
  using assms
proof (induction "is" arbitrary: h)
  case (Cons i js)
  let ?h0 = "on_vring i (set_enabled False) h" and ?v = "h_vrings h ! i"
  have i: "i < nq" and l: "length (h_vrings h) = nq" using Cons.prems by (simp_all add: backend_inv_def)
  have inv0: "backend_inv ?h0"
    using Cons.prems(1) i by (rule inv_on_vring) (simp add: same_watch_def set_enabled_def is_started_def)
  have v0: "h_vrings ?h0 ! i = ?v\<lparr>enabled := False\<rparr>" using i l by (simp add: on_vring_def set_enabled_def)
  have "stoppable (he_queue env) (h_world ?h0) (h_vrings ?h0 ! i)"
    using Cons.prems(3) v0 by (simp add: stoppable_def settled_def is_started_def) (simp add: on_vring_def)
  then obtain w where s: "unwrapped (with_vring i (vring_stop (he_queue env) (he_ctl env) (he_bits env))) ?h0
      = (Ok () :: (unit, vhost_user_error) rust, put_ring i (readied env False (h_vrings ?h0 ! i)) w ?h0)"
    and inv: "backend_inv (put_ring i (readied env False (h_vrings ?h0 ! i)) w ?h0)" (is "backend_inv ?h1")
    and w: "\<And>e. w e = None \<longleftrightarrow> h_world ?h0 e = None"
    using stop_ring [OF inv0 i] by metis
  have "stoppable (he_queue env) (h_world ?h1) = stoppable (he_queue env) (h_world h)"
    by (rule ext) (simp add: stoppable_def w, simp add: on_vring_def)
  then have "\<forall>k\<in>set js. k < nq \<and> stoppable (he_queue env) (h_world ?h1) (h_vrings ?h1 ! k)"
    using Cons.prems(2,3) by (simp add: on_vring_def) (metis nth_list_update_neq)
  moreover have "h_device ?h1 = h_device h" by (simp add: on_vring_def)
  ultimately show ?case using Cons.IH [OF inv] Cons.prems(2) by (simp add: bind_method_def s)
qed simp

lemma safe_reset_device:
  assumes "backend_inv h" "conforming env regs ResetDevice h"
  shows "safe (reset_device env) h"
proof -
  have l: "length (h_vrings h) = nq" using assms(1) by (simp add: backend_inv_def)
  obtain h1 where r: "reset_vrings env [0..<length (h_vrings h)] h = (Ok (), h1)" "backend_inv h1" "h_device h1 = h_device h"
    using safe_reset_vrings [OF assms(1), of "[0..<length (h_vrings h)]"] assms(2) l
    by (metis (no_types, lifting) atLeastLessThan_iff conforming.simps(1) distinct_upt list_all_length prod.collapse set_upt)
  obtain r' d w where rd: "dv_reset (he_device env) (h_device h, h_world h1) = (r', d, w)" by (metis surj_pair)
  moreover have "is_ok (fst (dv_reset (he_device env) (h_device h, h_world h1)))" using assms(2) by simp
  ultimately obtain b where d: "dv_reset (he_device env) (h_device h, h_world h1) = (Ok b, d, w)" by (cases r') auto
  have "fresh (h_device h) \<Longrightarrow> fresh d" using reset_fresh [of "h_device h" "h_world h1"] d by simp
  moreover have "rings_synced (he_queue env) (he_bits env) regs (h_vrings h1) w"
    by (rule rings_synced_shrink [of _ _ _ _ "h_world h1"]) (use r(2) in \<open>simp add: backend_inv_def\<close>, rule reset_world [OF d])
  ultimately have "backend_inv (h1\<lparr>h_features_acked := False, h_acked_features := 0, h_device := d, h_world := w\<rparr>)"
    using r(2,3) by (auto simp: backend_inv_def)
  then show ?thesis by (simp add: safe_def reset_device_def bind_method_def r d)
qed

lemma safe_set_features:
  assumes "backend_inv h" "conforming env regs (SetFeatures f) h"
  shows "safe (set_features env f) h"
proof (cases "f AND NOT (dv_avail_features (he_device env) (h_device h)) \<noteq> 0")
  case True
  with assms(1) show ?thesis by (simp add: safe_def set_features_def)
next
  case False
  then obtain d where d: "dv_set_acked_features (he_device env) f (h_device h) = (Ok (), d)"
    using assms(2) set_acked_safe by (metis conforming.simps(2) prod.collapse)
  have "fresh (h_device h) \<Longrightarrow> fresh d" using set_acked_fresh [of "h_device h" f] d by simp
  moreover have "same_watch (he_queue env) v (v\<lparr>queue := q_set_event_idx (he_queue env) b (queue v)\<rparr>)"
    "same_watch (he_queue env) v (set_enabled True v)" for v b
    by (simp_all add: same_watch_def is_started_def set_enabled_def queue_contractD(7) [OF virtq])
  ultimately show ?thesis
    using False assms(1) rings_synced_map [of "he_queue env" "he_bits env" regs]
    by (simp add: safe_def set_features_def Let_def d backend_inv_def del: map_map)
qed

lemma translate_no_panic: "(dbg \<longrightarrow> list_all mapping_sound ms) \<Longrightarrow> vmm_va_to_gpa dbg ms va \<noteq> Panic"
proof (induction ms)
  case (Cons m ms)
  then show ?case
    by (cases dbg) (simp_all add: vmm_va_to_gpa_step u64_add_def del: vmm_va_to_gpa.simps(2), simp add: u64_add_def)
qed simp

lemma set_queue_info_no_panic: "fst (set_queue_info (he_queue env) d a u v) \<noteq> Panic"
  using calm by (auto simp: set_queue_info_def calm_env_def bind_method_def split: prod.splits rust.splits) (metis fst_conv)+

lemma safe_set_ring_addresses:
  assumes "backend_inv h"
  shows "safe (set_ring_addresses env j d a u) h"
proof (cases "unat j < nq")
  case False
  with assms show ?thesis by (simp add: safe_def set_ring_addresses_def indexed_def backend_inv_def)
next
  case True
  have l: "unat j < length (h_vrings h)" using True assms by (simp add: backend_inv_def)
  obtain r v where "set_ring_addresses env j d a u h = (r, h\<lparr>h_vrings := (h_vrings h)[unat j := v]\<rparr>)"
    "same_flags (he_queue env) (h_vrings h ! unat j) v"
    using set_ring_addresses_shape [OF virtq l, of d a u] by blast
  then have "backend_inv (snd (set_ring_addresses env j d a u h))"
    using inv_same_watch [OF assms True same_flags_watch] by simp
  moreover have "fst (set_ring_addresses env j d a u h) \<noteq> Panic"
    using calm set_queue_info_no_panic [of d a u "h_vrings h ! unat j"] l
    by (auto simp: set_ring_addresses_def indexed_def Let_def calm_env_def split: prod.splits rust.splits)
  ultimately show ?thesis by (simp add: safe_def)
qed

lemma safe_set_vring_addr:
  assumes "backend_inv h" "conforming env regs (SetVringAddr j d u a) h"
  shows "safe (set_vring_addr env j d u a) h"
proof -
  have t: "vmm_va_to_gpa (he_debug env) (h_mappings h) x \<noteq> Panic" for x
    using assms(2) by (intro translate_no_panic) simp
  have "and_then (map_err f (vmm_va_to_gpa (he_debug env) (h_mappings h) d)) (\<lambda>d.
      and_then (map_err f (vmm_va_to_gpa (he_debug env) (h_mappings h) a)) (\<lambda>a.
      and_then (map_err f (vmm_va_to_gpa (he_debug env) (h_mappings h) u)) (\<lambda>u. Ok (d, a, u))))
      \<noteq> (Panic :: (_, vhost_user_error) rust)" for f
    by (intro and_then_no_panic map_err_no_panic t) simp
  with assms(1) safe_set_ring_addresses show ?thesis
    by (auto simp: safe_def set_vring_addr_def Let_def split: rust.split)
qed

lemma safe_ring_setters:
  assumes "backend_inv h"
  shows "safe (set_vring_num env j n) h" "safe (set_vring_base env j n) h" "safe (set_vring_err k file) h"
    "safe (set_vring_enable env j b) h"
proof -
  have w: "same_watch (he_queue env) v (v\<lparr>queue := q_set_size (he_queue env) m (queue v)\<rparr>)"
    "same_watch (he_queue env) v (v\<lparr>queue := q_set_next_avail (he_queue env) m (queue v)\<rparr>)"
    "same_watch (he_queue env) v (set_err file v)" "same_watch (he_queue env) v (set_enabled b v)" for v m
    by (simp_all add: same_watch_def is_started_def set_err_def set_enabled_def queue_contractD [OF virtq])
  have r: "length (h_requested_queues h) = nq" using assms by (simp add: backend_inv_def)
  show "safe (set_vring_num env j n) h"
    unfolding set_vring_num_def on_queue_vring
    by (rule safe_indexed [OF assms]) (auto simp: safe_def assms r intro!: inv_on_vring w)
  show "safe (set_vring_base env j n) h"
    unfolding set_vring_base_def on_queue_vring
    by (rule safe_indexed [OF assms]) (auto simp: safe_def assms intro!: inv_on_vring w)
  show "safe (set_vring_err k file) h"
    unfolding set_vring_err_def
    by (rule safe_indexed [OF assms]) (auto simp: safe_def assms intro!: inv_on_vring w)
  have "safe (indexed (unat j) (\<lambda>h. (Ok (), on_vring (unat j) (set_enabled b) h))) h"
    by (rule safe_indexed [OF assms]) (auto simp: safe_def assms intro!: inv_on_vring w)
  with assms show "safe (set_vring_enable env j b) h"
    by (simp add: safe_def set_vring_enable_def bind_method_def check_feature_def)
qed

lemma map_regions_no_panic: "map_regions (he_mem env) rs \<noteq> Panic"
proof (induction rs)
  case (Cons x rs)
  then show ?case using calm
    by (cases x; cases "mo_mmap_region (he_mem env) (fst x) (snd x)"; cases "map_regions (he_mem env) rs")
      (auto simp: calm_env_def)
qed simp

lemma new_bitmaps_no_panic: "new_bitmaps lg n gs \<noteq> Panic"
proof (induction gs)
  case (Cons g gs)
  then show ?case
    by (cases "atomic_bitmap_new (gr_start g) (gr_len g) lg n"; cases "new_bitmaps lg n gs")
      (auto simp: atomic_bitmap_new_def Let_def ok_or_def split: if_splits option.splits)
qed simp

lemma safe_memory_requests:
  assumes "backend_inv h"
  shows "safe (set_mem_table env ctx files) h" "safe (add_mem_region env g fl) h" "safe (remove_mem_region env g) h"
    "safe (set_log_base env fl off n) h"
proof -
  have m: "fst (set_mem_table env ctx files h) \<noteq> Panic" "fst (add_mem_region env g fl h) \<noteq> Panic"
    "fst (remove_mem_region env g h) \<noteq> Panic" "fst (set_log_base env fl off n h) \<noteq> Panic"
    using map_regions_no_panic [of "zip ctx files"] calm new_bitmaps_no_panic
    by (auto simp: set_mem_table_def add_mem_region_def remove_mem_region_def set_log_base_def mmap_log_from_file_def
        calm_env_def Let_def split: rust.split if_splits)
  have "backend_inv (snd (set_mem_table env ctx files h))" "backend_inv (snd (add_mem_region env g fl h))"
    "backend_inv (snd (remove_mem_region env g h))" "backend_inv (snd (set_log_base env fl off n h))"
    using assms
    by (auto simp: backend_inv_def set_mem_table_def add_mem_region_def remove_mem_region_def set_log_base_def Let_def split: rust.split)
  with m show "safe (set_mem_table env ctx files) h" "safe (add_mem_region env g fl) h" "safe (remove_mem_region env g) h"
    "safe (set_log_base env fl off n) h" by (simp_all add: safe_def)
qed

lemma safe_other_requests:
  assumes "backend_inv h"
  shows "safe set_owner h" "safe reset_owner h" "safe (get_features env) h" "safe (get_protocol_features env) h"
    "safe (set_protocol_features f) h" "safe get_queue_num h" "safe (set_config env off buf) h" "safe (return_method a) h"
    "safe (set_gpu_socket env b) h" "safe inflight_fd h" "safe get_max_mem_slots h"
    "dv_read_config (he_device env) (unat o2) (unat n2) (h_device h) \<noteq> Panic \<Longrightarrow> safe (get_config env o2 n2) h"
  using assms socket_fresh [of "h_device h"] write_config_safe [of _ _ "h_device h"] write_config_fresh [of "h_device h"]
  by (auto simp: safe_def backend_inv_def set_owner_def reset_owner_def get_features_def get_protocol_features_def
      set_protocol_features_def get_queue_num_def set_config_def set_gpu_socket_def inflight_fd_def get_max_mem_slots_def
      get_config_def return_method_def map_err_def case_prod_beta split: rust.split)

lemmas safe_requests = safe_set_vring_kick safe_set_vring_call safe_get_vring_base safe_reset_device safe_set_features
  safe_set_vring_addr safe_ring_setters safe_memory_requests safe_other_requests

theorem safe_handle:
  assumes "backend_inv h" "conforming env regs x h"
  shows "safe (handle env x) h"
  using assms by (cases x; simp add: safe_requests safe_replies)

text \<open>The handler starts in the invariant.\<close>

lemma new_vrings_shape:
  assumes "new_vrings (he_queue env) ns = Ok vs"
  shows "length vs = length ns \<and> list_all (\<lambda>v. kick v = None \<and> epolls v = []) vs"
  using assms by (induction ns arbitrary: vs) (auto simp: vring_new_def and_then_eq_Ok)

lemma inv_new:
  assumes "fresh d" "handler_new env d mem w st = Ok h"
  shows "backend_inv h"
proof -
  obtain vs where vs: "new_vrings (he_queue env) (dv_queues (he_device env) d) = Ok vs" "h_vrings h = vs" "h_world h = w"
    "h_requested_queues h = dv_queues (he_device env) d" "\<not> h_device_activated h" "h_device h = d"
    using assms(2) by (auto simp: handler_new_def and_then_eq_Ok map_err_eq_Ok)
  then show ?thesis
    using new_vrings_shape [OF vs(1)] queues_fresh [OF assms(1)] assms(1)
    by (auto simp: backend_inv_def rings_synced_def kick_synced_def list_all_length)
qed

lemma session_inv: "session env regs h0 h \<Longrightarrow> backend_inv h0 \<Longrightarrow> backend_inv h"
proof (induction rule: session.induct)
  case (session_step h x)
  then show ?case using safe_handle [of h x] by (simp add: safe_def request_step_def)
qed

theorem session_never_panics:
  assumes "fresh d" "handler_new env d mem w st = Ok h0" "session env regs h0 h" "conforming env regs x h"
  shows "fst (handle env x h) \<noteq> Panic" "rings_synced (he_queue env) (he_bits env) regs (h_vrings h) (h_world h)"
  using safe_handle [OF session_inv [OF assms(3) inv_new [OF assms(1,2)]] assms(4)] session_inv [OF assms(3) inv_new [OF assms(1,2)]]
  by (simp_all add: safe_def backend_inv_def)

end

section \<open>Properties\<close>


lemma started_handler_synced:
  "rings_synced (he_queue (plain_env dv)) (he_bits (plain_env dv)) (\<lambda>ep. ep)
     (h_vrings (started_handler d)) (h_world (started_handler d))"
proof -
  have "i < 2 \<longleftrightarrow> i = 0 \<or> i = 1" for i :: nat by auto
  then show ?thesis
    by (auto simp: rings_synced_def kick_synced_def other_kicks_def started_handler_def plain_env_def flag_queue_def
        is_started_def linux_event_bits_def numeral_2_eq_2 less_Suc_eq)
qed

lemma plain_env_contracts:
  "epoll_contract (he_ctl (plain_env dv)) (\<lambda>ep. ep)" "queue_contract (he_queue (plain_env dv))" "calm_env (plain_env dv)"
  by (simp_all add: plain_env_def epoll_contract_map_ctl flag_queue_contract calm_env_def)
    (simp_all add: flag_queue_def plain_memory_def)


end
