(* ===== verification/Device_Activation.thy ===== *)
theory Device_Activation
  imports Vhost_User_Session
begin

text \<open>
  What the worker threads of the devices do before their event loops: \<^verbatim>\<open>EventManager::new\<close> and a row of
  \<^verbatim>\<open>event_manager.add\<close>s, of event descriptors and of the kicks of rings
  (\<^verbatim>\<open>GpuWorker::new\<close>, \<^verbatim>\<open>MainWorker::run\<close>, \<^verbatim>\<open>process_rx\<close> and \<^verbatim>\<open>process_tx\<close>). If one fails the
  instance is closed again. The shared lemma \<open>setup_watcher_ok\<close> is what \<open>vhost_backend\<close> asks of an
  activation: whatever happens, all rings stay in step. Creating an instance is the kernel, the parameter
  \<open>create\<close>, which is told the rings because the number of an instance is not used again while a ring
  remembers it.
\<close>

section \<open>Watchers\<close>

type_synonym ('q, 'ep) rings_world = "'q vring list \<times> 'ep world"

type_synonym ('q, 'ep) epoll_create = "('q, 'ep) rings_world \<Rightarrow> (nat \<times> 'ep, io_error) rust"

definition epoll_create_contract :: "('ep \<Rightarrow> nat \<Rightarrow> epoll_event option) \<Rightarrow> ('q, 'ep) epoll_create \<Rightarrow> bool" where
  "epoll_create_contract regs create \<longleftrightarrow>
     (\<forall>vs w. create (vs, w) \<noteq> Panic) \<and>
     (\<forall>vs w e ep. create (vs, w) = Ok (e, ep) \<longrightarrow>
        w e = None \<and> (\<forall>v\<in>set vs. e \<notin> fst ` set (epolls v)) \<and> (\<forall>fd. regs ep fd = None))"

datatype watch_item = WatchFd nat u32 u64 | WatchRing nat u64

fun add_item ::
  "'ep epoll_ctl \<Rightarrow> event_bits \<Rightarrow> nat \<Rightarrow> watch_item \<Rightarrow> (('q, 'ep) rings_world, unit, io_error) rust_method" where
  "add_item ctl eb e (WatchFd fd events token) (vs, w) =
     (let (r, w') = on_epoll e (ctl CtlAdd fd (events, token)) w in (r, (vs, w')))"
| "add_item ctl eb e (WatchRing i token) (vs, w) =
     (let (r, v, w') = kick_register_self ctl eb e token (vs ! i, w) in (r, (vs[i := v], w')))"

fun add_items ::
  "'ep epoll_ctl \<Rightarrow> event_bits \<Rightarrow> nat \<Rightarrow> watch_item list \<Rightarrow> (('q, 'ep) rings_world, unit, io_error) rust_method" where
  "add_items ctl eb e [] s = (Ok (), s)"
| "add_items ctl eb e (x # xs) s = bind_method (add_item ctl eb e x) (\<lambda>_. add_items ctl eb e xs) s"

definition close_instance :: "nat \<Rightarrow> ('q, 'ep) rings_world \<Rightarrow> ('q, 'ep) rings_world" where
  "close_instance e s = (fst s, (snd s)(e := None))"

definition setup_watcher ::
  "('q, 'ep) epoll_create \<Rightarrow> 'ep epoll_ctl \<Rightarrow> event_bits \<Rightarrow> watch_item list \<Rightarrow> (('q, 'ep) rings_world, nat, io_error) rust_method" where
  "setup_watcher create ctl eb items s =
     (case create s of
        Err x \<Rightarrow> (Err x, s)
      | Panic \<Rightarrow> (Panic, s)
      | Ok (e, ep) \<Rightarrow>
          (case add_items ctl eb e items (fst s, (snd s)(e \<mapsto> ep)) of
             (Ok _, s') \<Rightarrow> (Ok e, s')
           | (Err x, s') \<Rightarrow> (Err x, close_instance e s')
           | (Panic, s') \<Rightarrow> (Panic, close_instance e s')))"

text \<open>The items of a watcher that are rings; each ring is registered once.\<close>

fun item_rings :: "watch_item list \<Rightarrow> nat list" where
  "item_rings [] = []"
| "item_rings (WatchFd _ _ _ # xs) = item_rings xs"
| "item_rings (WatchRing i _ # xs) = i # item_rings xs"

text \<open>An item is watched by instance \<open>e\<close>.\<close>

fun watched :: "('ep \<Rightarrow> nat \<Rightarrow> epoll_event option) \<Rightarrow> nat \<Rightarrow> ('q, 'ep) rings_world \<Rightarrow> watch_item \<Rightarrow> bool" where
  "watched regs e (vs, w) (WatchFd fd events token) \<longleftrightarrow> (\<exists>ep. w e = Some ep \<and> regs ep fd = Some (events, token))"
| "watched regs e (vs, w) (WatchRing i token) \<longleftrightarrow> (e, token) \<in> set (epolls (vs ! i))"

section \<open>What a watcher leaves in order\<close>

text \<open>All rings in step and none stopped with a kick.\<close>

definition orderly_rings ::
  "('q, 'mem) queue_ops \<Rightarrow> event_bits \<Rightarrow> ('ep \<Rightarrow> nat \<Rightarrow> epoll_event option) \<Rightarrow> ('q, 'ep) rings_world \<Rightarrow> bool" where
  "orderly_rings qo eb regs s \<longleftrightarrow> rings_synced qo eb regs (fst s) (snd s) \<and> list_all (settled qo) (fst s)"

text \<open>The rings differ in their watchers only.\<close>

definition rewatched :: "'q vring list \<Rightarrow> 'q vring list \<Rightarrow> bool" where
  "rewatched vs vs' \<longleftrightarrow> list_all2 (\<lambda>v v'. \<exists>es. v' = v\<lparr>epolls := es\<rparr>) vs vs'"

lemma rewatched_refl [simp]: "rewatched vs vs"
  by (simp add: rewatched_def list_all2_same)

lemma rewatched_trans: "rewatched a b \<Longrightarrow> rewatched b c \<Longrightarrow> rewatched a c"
  unfolding rewatched_def
  by (rule list_all2_trans [where ?P1.0 = "\<lambda>v v'. \<exists>es. v' = v\<lparr>epolls := es\<rparr>" and ?P2.0 = "\<lambda>v v'. \<exists>es. v' = v\<lparr>epolls := es\<rparr>"]) auto

lemma rewatched_length: "rewatched vs vs' \<Longrightarrow> length vs' = length vs"
  by (simp add: rewatched_def list_all2_lengthD)

lemma rewatched_update: "i < length vs \<Longrightarrow> v' = (vs ! i)\<lparr>epolls := es\<rparr> \<Longrightarrow> rewatched vs (vs[i := v'])"
  by (auto simp: rewatched_def list_all2_conv_all_nth nth_list_update)

lemma rewatched_settled: "rewatched vs vs' \<Longrightarrow> list_all (settled qo) vs' = list_all (settled qo) vs"
  unfolding rewatched_def
  by (induction vs vs' rule: list_all2_induct) (auto simp: settled_def is_started_def)

text \<open>One more registration disturbs no ring: a kick that should be watched is, so adding it again fails.\<close>

lemma add_registration_synced:
  assumes "epoll_contract ctl regs" "orderly_rings qo eb regs (vs, w)" "w e = Some ep"
  shows "rings_synced qo eb regs vs (w(e \<mapsto> snd (ctl CtlAdd fd ev ep)))"
  unfolding rings_synced_def
proof (intro allI impI conjI)
  let ?ep' = "snd (ctl CtlAdd fd ev ep)"
  fix i assume i: "i < length vs"
  note s = assms(2) [unfolded orderly_rings_def, simplified]
  note k = rings_syncedD [OF conjunct1 [OF s] i]
  show "set_option (kick (vs ! i)) \<inter> other_kicks vs i = {}" by (rule k(2))
  have "regs ?ep' x = regs ep x" if "kick (vs ! i) = Some x" "(e, token) \<in> set (epolls (vs ! i))" for x token
  proof (cases "regs ep fd")
    case None
    have "settled qo (vs ! i)" using s i by (simp add: list_all_length)
    then have "regs ep x = Some (ev_in eb, token)" using k(1) that assms(3) by (auto simp: kick_synced_def settled_def)
    with None epoll_add_fresh [OF assms(1) None, of ev] show ?thesis by auto
  next
    case (Some y)
    with epoll_add_dup [OF assms(1)] show ?thesis by auto
  qed
  with k(1) assms(3) show "kick_synced qo eb regs (vs ! i, w(e \<mapsto> ?ep'))"
    by (auto simp: kick_synced_def)
qed

text \<open>What one addition does: it never panics, keeps the rings in order, changes no other instance and no other
  ring, keeps what is watched, and on success its item is watched.\<close>

definition good_addition ::
  "('q, 'mem) queue_ops \<Rightarrow> event_bits \<Rightarrow> ('ep \<Rightarrow> nat \<Rightarrow> epoll_event option) \<Rightarrow> nat \<Rightarrow> watch_item list \<Rightarrow> ('q, 'ep) rings_world
    \<Rightarrow> (unit, io_error) rust \<times> ('q, 'ep) rings_world \<Rightarrow> bool" where
  "good_addition qo eb regs e xs s rs \<longleftrightarrow>
     fst rs \<noteq> Panic \<and> orderly_rings qo eb regs (snd rs) \<and> rewatched (fst s) (fst (snd rs)) \<and>
     (\<forall>x. x \<noteq> e \<longrightarrow> snd (snd rs) x = snd s x) \<and> snd (snd rs) e \<noteq> None \<and>
     (\<forall>j. j \<notin> set (item_rings xs) \<longrightarrow> fst (snd rs) ! j = fst s ! j) \<and>
     (\<forall>y. watched regs e s y \<longrightarrow> watched regs e (snd rs) y) \<and>
     (fst rs = Ok () \<longrightarrow> (\<forall>x\<in>set xs. watched regs e (snd rs) x))"

lemma add_registration:
  assumes "epoll_contract ctl regs"
  shows "fst (ctl CtlAdd fd ev ep) \<noteq> Panic"
    "regs ep y = Some z \<Longrightarrow> regs (snd (ctl CtlAdd fd ev ep)) y = Some z"
    "fst (ctl CtlAdd fd ev ep) = Ok () \<Longrightarrow> regs (snd (ctl CtlAdd fd ev ep)) fd = Some ev"
  using epoll_add_fresh [OF assms, of ep fd ev] epoll_add_dup [OF assms, of ep fd ev]
  by (cases "regs ep fd"; auto)+

lemma epoll_add_step:
  assumes "epoll_contract ctl regs" "orderly_rings qo eb regs (vs, w)" "w e = Some ep"
    and "on_epoll e (ctl CtlAdd fd ev) w = (r, w')"
  shows "r \<noteq> Panic" "rings_synced qo eb regs vs w'" "\<forall>x. x \<noteq> e \<longrightarrow> w' x = w x" "w' e \<noteq> None"
    "watched regs e (vs, w) y \<Longrightarrow> watched regs e (vs, w') y"
    "r = Ok () \<Longrightarrow> \<exists>ep'. w' e = Some ep' \<and> regs ep' fd = Some ev"
proof -
  have w': "r = fst (ctl CtlAdd fd ev ep)" "w' = w(e \<mapsto> snd (ctl CtlAdd fd ev ep))"
    using assms(3,4) by (simp_all add: on_epoll_def split: prod.splits)
  show "rings_synced qo eb regs vs w'" unfolding w' by (rule add_registration_synced [OF assms(1-3)])
  show "r \<noteq> Panic" unfolding w' by (rule add_registration(1) [OF assms(1)])
  show "\<forall>x. x \<noteq> e \<longrightarrow> w' x = w x" "w' e \<noteq> None" by (simp_all add: w')
  show "watched regs e (vs, w) y \<Longrightarrow> watched regs e (vs, w') y"
    using assms(3) by (cases y) (auto simp: w' intro: add_registration(2) [OF assms(1)])
  show "r = Ok () \<Longrightarrow> \<exists>ep'. w' e = Some ep' \<and> regs ep' fd = Some ev"
    using add_registration(3) [OF assms(1)] by (simp add: w')
qed

lemma add_fd_good:
  assumes "epoll_contract ctl regs" "orderly_rings qo eb regs (vs, w)" "w e = Some ep"
  shows "good_addition qo eb regs e [WatchFd fd events token] (vs, w) (add_item ctl eb e (WatchFd fd events token) (vs, w))"
proof -
  obtain r w' where m: "on_epoll e (ctl CtlAdd fd (events, token)) w = (r, w')" by fastforce
  show ?thesis using epoll_add_step [OF assms m] assms(2) by (simp add: good_addition_def orderly_rings_def m)
qed

lemma distinct_add_epoll:
  "distinct (map fst es) \<Longrightarrow> e \<notin> fst ` set es \<Longrightarrow> distinct (map fst (filter P es)) \<and> e \<notin> fst ` set (filter P es)"
  by (induction es) auto

lemma kick_synced_add_epoll:
  assumes "kick_synced qo eb regs (v, w)" "settled qo v" "e \<notin> fst ` set (epolls v)"
    and "\<And>fd ep. kick v = Some fd \<Longrightarrow> w e = Some ep \<Longrightarrow> regs ep fd = Some (ev_in eb, token)"
  shows "kick_synced qo eb regs (add_epoll w e token v, w)"
proof -
  have "distinct (map fst (epolls v))" using assms(1) by (simp add: kick_synced_def)
  with distinct_add_epoll [of "epolls v" e "\<lambda>(x, _). w x \<noteq> None"] assms(3)
  have "distinct (map fst (epolls (add_epoll w e token v)))" by (simp only: add_epoll_def) simp
  moreover have "regs ep fd = (if is_started qo v then Some (ev_in eb, t) else None)"
    if "kick v = Some fd" "(x, t) \<in> set (epolls (add_epoll w e token v))" "w x = Some ep" for fd x t ep
    using that assms by (auto simp: kick_synced_def add_epoll_def settled_def)
  moreover have "kick (add_epoll w e token v) = kick v" "is_started qo (add_epoll w e token v) = is_started qo v"
    by (simp_all add: add_epoll_def is_started_def)
  ultimately show ?thesis by (simp add: kick_synced_def)
qed

lemma add_ring_good:
  assumes "epoll_contract ctl regs" "orderly_rings qo eb regs (vs, w)" "w e = Some ep"
    and "i < length vs" "e \<notin> fst ` set (epolls (vs ! i))"
  shows "good_addition qo eb regs e [WatchRing i token] (vs, w) (add_item ctl eb e (WatchRing i token) (vs, w))"
proof -
  obtain r w' where m: "(case kick (vs ! i) of None \<Rightarrow> (Ok (), w) | Some fd \<Rightarrow> register_kick ctl eb e fd token w) = (r, w')"
    by fastforce
  have w': "r \<noteq> Panic" "rings_synced qo eb regs vs w'" "\<forall>x. x \<noteq> e \<longrightarrow> w' x = w x" "w' e \<noteq> None"
    and grows: "watched regs e (vs, w) y \<Longrightarrow> watched regs e (vs, w') y" for y
  proof -
    show "r \<noteq> Panic" "rings_synced qo eb regs vs w'" "\<forall>x. x \<noteq> e \<longrightarrow> w' x = w x" "w' e \<noteq> None"
      "watched regs e (vs, w) y \<Longrightarrow> watched regs e (vs, w') y"
    proof -
      consider "kick (vs ! i) = None" "r = Ok ()" "w' = w"
        | fd where "kick (vs ! i) = Some fd" "on_epoll e (ctl CtlAdd fd (ev_in eb, token)) w = (r, w')"
        using m by (auto simp: register_kick_def split: option.splits)
      then show "r \<noteq> Panic" "rings_synced qo eb regs vs w'" "\<forall>x. x \<noteq> e \<longrightarrow> w' x = w x" "w' e \<noteq> None"
        "watched regs e (vs, w) y \<Longrightarrow> watched regs e (vs, w') y"
        by (cases; use assms(2,3) epoll_add_step [OF assms(1-3)] in \<open>simp add: orderly_rings_def\<close>)+
    qed
  qed
  have reg: "regs ep' fd = Some (ev_in eb, token)" if "r = Ok ()" "kick (vs ! i) = Some fd" "w' e = Some ep'" for fd ep'
    using m that epoll_add_step(6) [OF assms(1-3), of fd "(ev_in eb, token)" r w'] by (simp add: register_kick_def)
  have settled: "settled qo (vs ! i)" using assms(2,4) by (simp add: orderly_rings_def list_all_length)
  show ?thesis
  proof (cases r)
    case (Ok u)
    let ?v = "add_epoll w' e token (vs ! i)"
    have "kick_synced qo eb regs (?v, w')"
      using rings_syncedD(1) [OF w'(2) assms(4)] settled assms(5) reg Ok by (intro kick_synced_add_epoll) auto
    then have s: "rings_synced qo eb regs (vs[i := ?v]) w'"
      using rings_synced_update [OF w'(2) assms(4), of ?v w' "{}"] rings_syncedD(2) [OF w'(2) assms(4)]
      by (simp add: add_epoll_def)
    have rw: "rewatched vs (vs[i := ?v])" by (rule rewatched_update [OF assms(4)]) (simp add: add_epoll_def)
    have "watched regs e (vs[i := ?v], w') y" if "watched regs e (vs, w) y" for y
      using grows [OF that] w'(4) assms(4) by (cases y) (auto simp: add_epoll_def nth_list_update)
    moreover have "add_item ctl eb e (WatchRing i token) (vs, w) = (Ok (), (vs[i := ?v], w'))"
      using m Ok by (simp add: kick_register_self_def)
    moreover have "(e, token) \<in> set (epolls (vs[i := ?v] ! i))" using assms(4) by (simp add: add_epoll_def)
    ultimately show ?thesis
      using s rw rewatched_settled [OF rw, of qo] w' assms(2) by (simp add: good_addition_def orderly_rings_def)
  next
    case (Err x)
    with m w' grows assms(2,4) show ?thesis
      by (simp add: good_addition_def orderly_rings_def kick_register_self_def)
  next
    case Panic
    with w' show ?thesis by simp
  qed
qed

lemma add_item_good:
  assumes "epoll_contract ctl regs" "orderly_rings qo eb regs s" "snd s e \<noteq> None"
    and "\<And>i. i \<in> set (item_rings [x]) \<Longrightarrow> i < length (fst s) \<and> e \<notin> fst ` set (epolls (fst s ! i))"
  shows "good_addition qo eb regs e [x] s (add_item ctl eb e x s)"
  using assms by (cases s; cases x) (auto simp del: add_item.simps intro: add_fd_good add_ring_good)

lemma item_rings_Cons: "set (item_rings (x # xs)) = set (item_rings [x]) \<union> set (item_rings xs)"
  by (cases x) auto

lemma add_items_good:
  assumes "epoll_contract ctl regs"
  shows "orderly_rings qo eb regs s \<Longrightarrow> snd s e \<noteq> None \<Longrightarrow> distinct (item_rings xs) \<Longrightarrow>
    (\<And>i. i \<in> set (item_rings xs) \<Longrightarrow> i < length (fst s) \<and> e \<notin> fst ` set (epolls (fst s ! i))) \<Longrightarrow>
    good_addition qo eb regs e xs s (add_items ctl eb e xs s)"
proof (induction xs arbitrary: s)
  case Nil
  then show ?case by (simp add: good_addition_def)
next
  case (Cons x xs)
  obtain r s1 where m: "add_item ctl eb e x s = (r, s1)" by (rule prod.exhaust)
  have g: "good_addition qo eb regs e [x] s (r, s1)"
    using add_item_good [OF assms Cons.prems(1,2), of x] Cons.prems(4) by (simp add: m item_rings_Cons [of x xs])
  show ?case
  proof (cases r)
    case (Ok u)
    have d: "set (item_rings [x]) \<inter> set (item_rings xs) = {}" "distinct (item_rings xs)"
      using Cons.prems(3) by (cases x; simp)+
    have "good_addition qo eb regs e xs s1 (add_items ctl eb e xs s1)"
    proof (rule Cons.IH)
      show "orderly_rings qo eb regs s1" "snd s1 e \<noteq> None" using g by (simp_all add: good_addition_def)
      show "distinct (item_rings xs)" by (rule d)
      fix i assume i: "i \<in> set (item_rings xs)"
      with d have "i \<notin> set (item_rings [x])" by blast
      with g have "fst s1 ! i = fst s ! i" "length (fst s1) = length (fst s)"
        by (simp_all add: good_addition_def rewatched_length)
      with Cons.prems(4) [of i] i show "i < length (fst s1) \<and> e \<notin> fst ` set (epolls (fst s1 ! i))"
        by (simp add: item_rings_Cons [of x xs])
    qed
    moreover have "add_items ctl eb e (x # xs) s = add_items ctl eb e xs s1" using m Ok by (simp add: bind_method_def)
    ultimately show ?thesis using g Ok
      by (auto simp: good_addition_def item_rings_Cons [of x xs] intro: rewatched_trans)
  next
    case (Err y)
    then have "add_items ctl eb e (x # xs) s = (Err y, s1)" using m by (simp add: bind_method_def)
    with g Err show ?thesis by (auto simp: good_addition_def item_rings_Cons [of x xs])
  next
    case Panic
    with g show ?thesis by (simp add: good_addition_def)
  qed
qed

text \<open>The whole setup. A failed one leaves the world as it was, apart from a closed instance.\<close>

lemma setup_watcher_ok:
  assumes "epoll_contract ctl regs" "epoll_create_contract regs create" "orderly_rings qo eb regs s"
    and "distinct (item_rings items)" "\<And>i. i \<in> set (item_rings items) \<Longrightarrow> i < length (fst s)"
    and m: "setup_watcher create ctl eb items s = (r, s')"
  shows "r \<noteq> Panic" "orderly_rings qo eb regs s'" "rewatched (fst s) (fst s')"
    "r = Ok e \<Longrightarrow> snd s e = None \<and> snd s' e \<noteq> None \<and> (\<forall>x. x \<noteq> e \<longrightarrow> snd s' x = snd s x) \<and> (\<forall>x\<in>set items. watched regs e s' x)"
    "r = Err y \<Longrightarrow> snd s' = snd s"
proof -
  obtain vs w where s: "s = (vs, w)" by fastforce
  have "r \<noteq> Panic \<and> orderly_rings qo eb regs s' \<and> rewatched vs (fst s') \<and>
      (r = Ok e \<longrightarrow> w e = None \<and> snd s' e \<noteq> None \<and> (\<forall>x. x \<noteq> e \<longrightarrow> snd s' x = w x) \<and> (\<forall>x\<in>set items. watched regs e s' x)) \<and>
      (r = Err y \<longrightarrow> snd s' = w)"
  proof (cases "create (vs, w)")
    case (Ok a)
    then obtain e' ep where a: "create (vs, w) = Ok (e', ep)" by (cases a) auto
    with assms(2) have f: "w e' = None" "\<forall>v\<in>set vs. e' \<notin> fst ` set (epolls v)"
      by (auto simp: epoll_create_contract_def)
    have "kick_synced qo eb regs (v, w(e' \<mapsto> ep))" if "v \<in> set vs" "kick_synced qo eb regs (v, w)" for v
      using f(2) that by (force simp: kick_synced_def)
    then have "rings_synced qo eb regs vs (w(e' \<mapsto> ep))"
      using assms(3) by (simp add: s orderly_rings_def rings_synced_def)
    then have o: "orderly_rings qo eb regs (vs, w(e' \<mapsto> ep))" using assms(3) by (simp add: s orderly_rings_def)
    obtain q s1 where q: "add_items ctl eb e' items (vs, w(e' \<mapsto> ep)) = (q, s1)" by (rule prod.exhaust)
    have g: "good_addition qo eb regs e' items (vs, w(e' \<mapsto> ep)) (q, s1)"
      unfolding q [symmetric] by (rule add_items_good [OF assms(1) o]) (use assms(4,5) f s in auto)
    have c: "orderly_rings qo eb regs (close_instance e' s1)" "snd (close_instance e' s1) = w"
      using g rings_synced_shrink [of qo eb regs "fst s1" "snd s1" "(snd s1)(e' := None)"] f
      by (auto simp: good_addition_def orderly_rings_def close_instance_def fun_eq_iff)
    show ?thesis
    proof (cases q)
      case (Ok u)
      then have "r = Ok e'" "s' = s1" using m a q by (simp_all add: setup_watcher_def s)
      with g Ok f(1) show ?thesis by (auto simp: good_addition_def)
    next
      case (Err x)
      then have "r = Err x" "s' = close_instance e' s1" using m a q by (simp_all add: setup_watcher_def s)
      with g c show ?thesis by (simp add: good_addition_def close_instance_def)
    next
      case Panic
      with g show ?thesis by (simp add: good_addition_def)
    qed
  next
    case (Err x)
    with m assms(3) show ?thesis by (auto simp: setup_watcher_def s)
  next
    case Panic
    with assms(2) show ?thesis by (simp add: epoll_create_contract_def)
  qed
  with s show "r \<noteq> Panic" "orderly_rings qo eb regs s'" "rewatched (fst s) (fst s')"
    "r = Ok e \<Longrightarrow> snd s e = None \<and> snd s' e \<noteq> None \<and> (\<forall>x. x \<noteq> e \<longrightarrow> snd s' x = snd s x) \<and> (\<forall>x\<in>set items. watched regs e s' x)"
    "r = Err y \<Longrightarrow> snd s' = snd s"
    by simp_all
qed

text \<open>Whatever the kernel does, the rings change in their watchers only.\<close>

lemma add_item_rewatched:
  assumes "\<And>i. i \<in> set (item_rings [x]) \<Longrightarrow> i < length (fst s)"
  shows "rewatched (fst s) (fst (snd (add_item ctl eb e x s)))"
proof (cases x)
  case (WatchFd fd events token)
  then show ?thesis by (cases s) (simp split: prod.split)
next
  case (WatchRing i token)
  obtain vs w where s: "s = (vs, w)" by fastforce
  obtain r v w' where m: "kick_register_self ctl eb e token (vs ! i, w) = (r, v, w')" by (metis surj_pair)
  then have "\<exists>es. v = (vs ! i)\<lparr>epolls := es\<rparr>"
    by (auto simp: kick_register_self_def add_epoll_def split: prod.splits rust.splits)
  with assms show ?thesis by (auto simp: WatchRing s m intro: rewatched_update)
qed

lemma add_items_rewatched:
  "(\<And>i. i \<in> set (item_rings xs) \<Longrightarrow> i < length (fst s)) \<Longrightarrow> rewatched (fst s) (fst (snd (add_items ctl eb e xs s)))"
proof (induction xs arbitrary: s)
  case (Cons x xs)
  obtain r s1 where m: "add_item ctl eb e x s = (r, s1)" by (rule prod.exhaust)
  have r: "rewatched (fst s) (fst s1)"
    using add_item_rewatched [of x s ctl eb e] Cons.prems by (simp add: m item_rings_Cons [of x xs])
  have "rewatched (fst s1) (fst (snd (add_items ctl eb e xs s1)))"
    using Cons.prems by (intro Cons.IH) (simp add: item_rings_Cons [of x xs] rewatched_length [OF r])
  with r show ?case by (cases r) (auto simp: bind_method_def m intro: rewatched_trans split: rust.split)
qed simp

lemma setup_watcher_rewatched:
  assumes "\<And>i. i \<in> set (item_rings items) \<Longrightarrow> i < length (fst s)"
  shows "rewatched (fst s) (fst (snd (setup_watcher create ctl eb items s)))"
proof (cases "create s")
  case (Ok a)
  obtain e ep where a: "a = (e, ep)" by fastforce
  obtain q s1 where q: "add_items ctl eb e items (fst s, (snd s)(e \<mapsto> ep)) = (q, s1)" by (rule prod.exhaust)
  have "rewatched (fst s) (fst s1)"
    using add_items_rewatched [of items "(fst s, (snd s)(e \<mapsto> ep))" ctl eb e] assms by (simp add: q)
  with Ok a q show ?thesis by (simp add: setup_watcher_def close_instance_def split: rust.split)
qed (simp_all add: setup_watcher_def)

lemma rewatched_nth: "rewatched vs vs' \<Longrightarrow> i < length vs \<Longrightarrow> \<exists>es. vs' ! i = (vs ! i)\<lparr>epolls := es\<rparr>"
  unfolding rewatched_def by (drule (1) list_all2_nthD)

section \<open>A concrete kernel\<close>

text \<open>The least number below 1024 that is free, as with file descriptors; the instance starts empty.\<close>

definition first_free :: "('q, nat \<Rightarrow> epoll_event option) epoll_create" where
  "first_free s =
     (case find (\<lambda>e. snd s e = None \<and> list_all (\<lambda>v. e \<notin> fst ` set (epolls v)) (fst s)) [0..<1024] of
        None \<Rightarrow> Err (OtherIo 24) | Some e \<Rightarrow> Ok (e, \<lambda>_. None))"

lemma first_free_contract: "epoll_create_contract (\<lambda>ep. ep) first_free"
  by (auto simp: epoll_create_contract_def first_free_def find_Some_iff list_all_iff split: option.splits)

lemma first_free_0:
  assumes "snd s 0 = None" "list_all (\<lambda>v. 0 \<notin> fst ` set (epolls v)) (fst s)"
  shows "first_free s = Ok (0, \<lambda>_. None)"
proof -
  have "[0..<1024 :: nat] = 0 # [1..<1024]" by (simp add: upt_rec [of 0])
  with assms show ?thesis by (simp add: first_free_def del: upt_conv_Cons)
qed

end
