(* ===== verification/Gpu_Device.thy ===== *)
theory Gpu_Device
  imports Gpu_Worker Gpu_Config Device_Activation
begin

text \<open>
  The gpu device, \<^verbatim>\<open>GpuDevice\<close> of \<^verbatim>\<open>virtio-gpu/src/device.rs\<close>: its state and the operations of
  \<^verbatim>\<open>VirtioDevice\<close>, among them the activation, which builds the renderer and the worker in the worker's
  thread and waits for the result; and \<^verbatim>\<open>VhostUserGpuBackend\<close> of \<^verbatim>\<open>vhost-gpu/src/lib.rs\<close>, which offers
  the device to the vhost-user handler. The thread is the state it was left in: it runs with its epoll
  instance and its gpu, it has returned after reporting an error, or it has panicked. How a running worker
  ends is the parameter \<open>ge_run_ok\<close>; creating event descriptors and building the renderer are parameters, too.
\<close>

section \<open>State\<close>

datatype ('r, 'b) worker_thread = WorkerRuns nat "('r, 'b) rutabaga_virtio_gpu" | WorkerReturned | WorkerPanicked

record 'r gpu_device =
  gd_virtio_cfg :: virtio_gpu_config
  gd_acked_features :: u64
  gd_worker_thread :: "('r, nat) worker_thread option"
  gd_exit_event :: nat
  gd_gpu_backend :: "nat option"
  gd_gpu_config :: gpu_config

text \<open>The bit numbers of the features (crate \<^verbatim>\<open>virtio_bindings\<close>).\<close>

record gpu_feature_bits =
  fb_version_1 :: nat
  fb_ring_reset :: nat
  fb_notify_on_empty :: nat
  fb_indirect_desc :: nat
  fb_event_idx :: nat
  fb_virgl :: nat
  fb_edid :: nat
  fb_resource_blob :: nat
  fb_context_init :: nat

datatype rutabaga_component = ComponentVirglRenderer | ComponentGfxstream

record rutabaga_builder =
  rb_component :: rutabaga_component
  rb_capset_mask :: u64
  rb_use_egl :: bool
  rb_use_glx :: bool
  rb_use_gles :: bool
  rb_use_surfaceless :: bool
  rb_use_external_blob :: bool

record ('r, 'q, 'ep) gpu_device_env =
  ge_features :: gpu_feature_bits
  ge_create :: "('q, 'ep) epoll_create"
  ge_ctl :: "'ep epoll_ctl"
  ge_bits :: event_bits
  ge_try_clone :: "nat \<Rightarrow> (nat, io_error) rust"
  ge_build :: "rutabaga_builder \<Rightarrow> ('r, unit) rust"
  ge_rutabaga :: "'r rutabaga_ops"
  ge_efd_write :: "nat \<Rightarrow> (unit, io_error) rust"
  ge_run_ok :: "nat \<Rightarrow> bool"

section \<open>Operations\<close>

definition gpu_device_new :: "(nat, io_error) rust \<Rightarrow> gpu_config \<Rightarrow> ('r gpu_device, device_error) rust" where
  "gpu_device_new new_eventfd config =
     and_then (map_err (\<lambda>_. EventFdFailed) new_eventfd) (\<lambda>exit_event.
       Ok \<lparr>gd_virtio_cfg = \<lparr>cfg_events_read = 0, cfg_events_clear = 0, cfg_num_scanouts = VIRTIO_GPU_MAX_SCANOUTS,
             cfg_num_capsets = num_capsets (cfg_capset config)\<rparr>,
           gd_acked_features = 0, gd_worker_thread = None, gd_exit_event = exit_event, gd_gpu_backend = None,
           gd_gpu_config = config\<rparr>)"

definition gpu_set_gpu_socket :: "nat \<Rightarrow> 'r gpu_device \<Rightarrow> 'r gpu_device" where
  "gpu_set_gpu_socket backend d = d\<lparr>gd_gpu_backend := Some backend\<rparr>"

definition gpu_avail_features :: "gpu_feature_bits \<Rightarrow> u64" where
  "gpu_avail_features fb =
     push_bit (fb_version_1 fb) 1 OR push_bit (fb_ring_reset fb) 1 OR push_bit (fb_notify_on_empty fb) 1
     OR push_bit (fb_indirect_desc fb) 1 OR push_bit (fb_event_idx fb) 1 OR push_bit (fb_virgl fb) 1
     OR push_bit (fb_edid fb) 1 OR push_bit (fb_resource_blob fb) 1 OR push_bit (fb_context_init fb) 1"

definition gpu_set_acked_features :: "gpu_feature_bits \<Rightarrow> u64 \<Rightarrow> 'r gpu_device \<Rightarrow> 'r gpu_device" where
  "gpu_set_acked_features fb acked_features d = d\<lparr>gd_acked_features := acked_features AND gpu_avail_features fb\<rparr>"

definition gpu_queues :: "u16 list" where
  "gpu_queues = [256, 256]"

text \<open>\<^verbatim>\<open>&as_slice()[offset..]\<close> panics when the offset is beyond the end.\<close>

definition gpu_read_config :: "nat \<Rightarrow> nat \<Rightarrow> 'r gpu_device \<Rightarrow> (u8 list, unit) rust" where
  "gpu_read_config offset data_len d =
     (let cfg = put virtio_gpu_config_layout (gd_virtio_cfg d)
      in if offset > length cfg then Panic
         else if length (drop offset cfg) \<noteq> data_len then Err ()
         else Ok (drop offset cfg))"

definition gpu_write_config :: "nat \<Rightarrow> u8 list \<Rightarrow> ('r gpu_device, unit, unit) rust_method" where
  "gpu_write_config offset data d = (Err (), d)"

fun rutabaga_component_of :: "gpu_mode \<Rightarrow> rutabaga_component" where
  "rutabaga_component_of VirglRenderer = ComponentVirglRenderer"
| "rutabaga_component_of Gfxstream = ComponentGfxstream"

definition configure_rutabaga_builder :: "gpu_config \<Rightarrow> rutabaga_builder" where
  "configure_rutabaga_builder c =
     \<lparr>rb_component = rutabaga_component_of (cfg_gpu_mode c), rb_capset_mask = cfg_capset c,
      rb_use_egl = use_egl (cfg_flags c), rb_use_glx = use_glx (cfg_flags c), rb_use_gles = use_gles (cfg_flags c),
      rb_use_surfaceless = use_surfaceless (cfg_flags c), rb_use_external_blob = True\<rparr>"

definition CONTROL_QUEUE :: nat where "CONTROL_QUEUE = 0"
definition CURSOR_QUEUE :: nat where "CURSOR_QUEUE = 1"

abbreviation gpu_raw_token :: "worker_token \<Rightarrow> u64" where
  "gpu_raw_token t \<equiv> as_raw_token worker_token_ty (worker_token_val t)"

text \<open>What \<^verbatim>\<open>GpuWorker::new\<close> adds to its event manager.\<close>

definition gpu_worker_items :: "event_bits \<Rightarrow> nat \<Rightarrow> nat option \<Rightarrow> watch_item list" where
  "gpu_worker_items eb exit_evt poll_event =
     [WatchFd exit_evt (ev_in eb) (gpu_raw_token Quit), WatchRing CONTROL_QUEUE (gpu_raw_token ControlQ),
      WatchRing CURSOR_QUEUE (gpu_raw_token CursorQ)]
     @ (case poll_event of None \<Rightarrow> [] | Some fd \<Rightarrow> [WatchFd fd (ev_in eb) (gpu_raw_token Poll)])"

definition gpu_worker_new ::
  "('r, 'q, 'ep) gpu_device_env \<Rightarrow> ('r, nat) rutabaga_virtio_gpu \<Rightarrow> nat \<Rightarrow> (('q, 'ep) rings_world, nat, io_error) rust_method" where
  "gpu_worker_new env gpu exit_evt =
     setup_watcher (ge_create env) (ge_ctl env) (ge_bits env)
       (gpu_worker_items (ge_bits env) exit_evt (get_event_poll_fd (ge_rutabaga env) gpu))"

text \<open>The thread up to its report: the outcome that \<^verbatim>\<open>recv\<close> sees and what the thread is then.\<close>

definition start_worker ::
  "('r, 'q, 'ep) gpu_device_env \<Rightarrow> gpu_config \<Rightarrow> nat \<Rightarrow> nat
    \<Rightarrow> (('q, 'ep) rings_world, (unit, unit) rust \<times> ('r, nat) worker_thread, unit) rust_method" where
  "start_worker env config backend exit_event s =
     (case ge_build env (configure_rutabaga_builder config) of
        Ok r \<Rightarrow>
          (let gpu = rutabaga_virtio_gpu_new r backend
           in case gpu_worker_new env gpu exit_event s of
                (Ok e, s') \<Rightarrow> (Ok (Ok (), WorkerRuns e gpu), s')
              | (Err _, s') \<Rightarrow> (Ok (Err (), WorkerReturned), s')
              | (Panic, s') \<Rightarrow> (Ok (Err (), WorkerPanicked), s'))
      | _ \<Rightarrow> (Ok (Err (), WorkerPanicked), s))"

definition gpu_activate ::
  "('r, 'q, 'ep) gpu_device_env \<Rightarrow> guest_memory \<Rightarrow> (('r gpu_device, 'q, 'ep) with_rings, unit, unit) rust_method" where
  "gpu_activate env mem s =
     (let (d, vs, w) = s
      in case ge_try_clone env (gd_exit_event d) of
           Panic \<Rightarrow> (Panic, s)
         | Err _ \<Rightarrow> (Err (), s)
         | Ok exit_event \<Rightarrow>
             if CONTROL_QUEUE \<ge> length vs \<or> CURSOR_QUEUE \<ge> length vs then (Err (), s)
             else (case gd_gpu_backend d of
                     None \<Rightarrow> (Err (), s)
                   | Some backend \<Rightarrow>
                       let d1 = d\<lparr>gd_gpu_backend := None\<rparr>
                       in (case start_worker env (gd_gpu_config d) backend exit_event (vs, w) of
                             (Ok (r, t), vs', w') \<Rightarrow> (r, d1\<lparr>gd_worker_thread := Some t\<rparr>, vs', w')
                           | (_, vs', w') \<Rightarrow> (Panic, d1, vs', w'))))"

text \<open>Joining ends the worker, with whom its epoll instance goes.\<close>

definition gpu_stop :: "('r, 'q, 'ep) gpu_device_env \<Rightarrow> ('r gpu_device \<times> 'ep world, unit, unit) rust_method" where
  "gpu_stop env s =
     (let (d, w) = s
      in case gd_worker_thread d of
           None \<Rightarrow> (Ok (), d, w)
         | Some t \<Rightarrow>
             let d1 = d\<lparr>gd_worker_thread := None\<rparr>
             in (case ge_efd_write env (gd_exit_event d) of
                   Ok _ \<Rightarrow> (case t of
                              WorkerRuns e gpu \<Rightarrow> (if ge_run_ok env e then Ok () else Panic, d1, w(e := None))
                            | WorkerReturned \<Rightarrow> (Ok (), d1, w)
                            | WorkerPanicked \<Rightarrow> (Panic, d1, w))
                 | _ \<Rightarrow> (Panic, d1, w)))"

definition default_reset :: "('v \<times> 'ep world, unit, unit) rust_method \<Rightarrow> ('v \<times> 'ep world, bool, unit) rust_method" where
  "default_reset stop = bind_method stop (\<lambda>_. return_method False)"

text \<open>\<^verbatim>\<open>device_type\<close> is \<^verbatim>\<open>todo!()\<close>.\<close>

definition gpu_device_ops :: "('r, 'q, 'ep) gpu_device_env \<Rightarrow> ('r gpu_device, 'q, 'ep) virtio_device_ops" where
  "gpu_device_ops env = \<lparr>
     vd_device_type = (\<lambda>_. Panic),
     vd_avail_features = (\<lambda>_. gpu_avail_features (ge_features env)),
     vd_acked_features = gd_acked_features,
     vd_set_acked_features = gpu_set_acked_features (ge_features env),
     vd_queues = (\<lambda>_. gpu_queues),
     vd_read_config = gpu_read_config,
     vd_write_config = gpu_write_config,
     vd_activate = gpu_activate env,
     vd_stop = gpu_stop env,
     vd_reset = default_reset (gpu_stop env)\<rparr>"

section \<open>The vhost-user backend\<close>

record protocol_feature_bits =
  pfb_mq :: u64
  pfb_config :: u64
  pfb_reply_ack :: u64
  pfb_backend_send_fd :: u64

definition gpu_protocol_features :: "protocol_feature_bits \<Rightarrow> u64" where
  "gpu_protocol_features pb = pfb_mq pb OR pfb_config pb OR pfb_reply_ack pb OR pfb_backend_send_fd pb"

definition vhost_user_gpu_backend ::
  "u64 \<Rightarrow> protocol_feature_bits \<Rightarrow> ('r, 'q, 'ep) gpu_device_env \<Rightarrow> ('r gpu_device, 'q, 'ep) vhost_device_ops" where
  "vhost_user_gpu_backend pf pb env =
     implementer pf (\<lambda>_. gpu_protocol_features pb) gpu_set_gpu_socket (gpu_device_ops env)"

section \<open>The contracts the device keeps\<close>

interpretation gpu_features: virtio_features "gpu_device_ops env" "\<lambda>_. True" for env
  by unfold_locales (simp_all add: gpu_device_ops_def gpu_set_acked_features_def ac_simps)

lemma gpu_raw_tokens [simp]:
  "gpu_raw_token Quit = 0" "gpu_raw_token ControlQ = 1" "gpu_raw_token CursorQ = 2" "gpu_raw_token Poll = 3"
  by (simp_all add: worker_token_ty_def)

lemma gpu_worker_items_rings [simp]: "item_rings (gpu_worker_items eb ex p) = [0, 1]"
  by (cases p) (simp_all add: gpu_worker_items_def CONTROL_QUEUE_def CURSOR_QUEUE_def)

lemma gpu_worker_new_ok:
  assumes "epoll_contract (ge_ctl env) regs" "epoll_create_contract regs (ge_create env)"
    and "orderly_rings qo (ge_bits env) regs s" "2 \<le> length (fst s)" "gpu_worker_new env gpu ex s = (r, s')"
  shows "r \<noteq> Panic" "orderly_rings qo (ge_bits env) regs s'" "rewatched (fst s) (fst s')"
    "r = Ok e \<Longrightarrow> snd s e = None \<and> snd s' e \<noteq> None \<and> (\<forall>x. x \<noteq> e \<longrightarrow> snd s' x = snd s x) \<and>
      (\<forall>x\<in>set (gpu_worker_items (ge_bits env) ex (get_event_poll_fd (ge_rutabaga env) gpu)). watched regs e s' x)"
proof -
  have i: "distinct (item_rings (gpu_worker_items (ge_bits env) ex (get_event_poll_fd (ge_rutabaga env) gpu)))"
    "\<And>i. i \<in> set (item_rings (gpu_worker_items (ge_bits env) ex (get_event_poll_fd (ge_rutabaga env) gpu))) \<Longrightarrow> i < length (fst s)"
    using assms(4) by auto
  note w = setup_watcher_ok [OF assms(1,2,3) i assms(5) [unfolded gpu_worker_new_def]]
  show "r \<noteq> Panic" "orderly_rings qo (ge_bits env) regs s'" "rewatched (fst s) (fst s')"
    "r = Ok e \<Longrightarrow> snd s e = None \<and> snd s' e \<noteq> None \<and> (\<forall>x. x \<noteq> e \<longrightarrow> snd s' x = snd s x) \<and>
      (\<forall>x\<in>set (gpu_worker_items (ge_bits env) ex (get_event_poll_fd (ge_rutabaga env) gpu)). watched regs e s' x)"
    using w by blast+
qed

text \<open>Activation by its outcome: nothing happened, or the worker was started.\<close>

lemma gpu_activate_cases:
  assumes "gpu_activate env mem (d, vs, w) = (r, d', vs', w')" "\<And>fd. ge_try_clone env fd \<noteq> Panic"
  obtains "r = Err ()" "d' = d" "vs' = vs" "w' = w"
  | "r = Err ()" "vs' = vs" "w' = w" "gd_worker_thread d' = Some WorkerPanicked"
  | ex rut backend q where "ge_try_clone env (gd_exit_event d) = Ok ex" "2 \<le> length vs"
      "ge_build env (configure_rutabaga_builder (gd_gpu_config d)) = Ok rut" "gd_gpu_backend d = Some backend"
      "gpu_worker_new env (rutabaga_virtio_gpu_new rut backend) ex (vs, w) = (q, vs', w')"
      "r = (case q of Ok _ \<Rightarrow> Ok () | _ \<Rightarrow> Err ())"
      "d' = d\<lparr>gd_gpu_backend := None, gd_worker_thread := Some (case q of
         Ok e \<Rightarrow> WorkerRuns e (rutabaga_virtio_gpu_new rut backend) | Err _ \<Rightarrow> WorkerReturned | Panic \<Rightarrow> WorkerPanicked)\<rparr>"
proof (cases "ge_try_clone env (gd_exit_event d)")
  case (Ok ex)
  show thesis
  proof (cases "2 \<le> length vs \<and> gd_gpu_backend d \<noteq> None")
    case False
    with Ok assms(1) that(1) show ?thesis by (auto simp: gpu_activate_def CONTROL_QUEUE_def CURSOR_QUEUE_def split: if_splits)
  next
    case True
    then obtain backend where b: "gd_gpu_backend d = Some backend" "2 \<le> length vs" by auto
    then have l: "\<not> (CONTROL_QUEUE \<ge> length vs \<or> CURSOR_QUEUE \<ge> length vs)" by (auto simp: CONTROL_QUEUE_def CURSOR_QUEUE_def)
    obtain q s1 where q: "\<And>rut. ge_build env (configure_rutabaga_builder (gd_gpu_config d)) = Ok rut \<Longrightarrow>
        gpu_worker_new env (rutabaga_virtio_gpu_new rut backend) ex (vs, w) = (q, s1)"
      by (metis surj_pair rust.inject(1))
    show ?thesis
    proof (cases "ge_build env (configure_rutabaga_builder (gd_gpu_config d))")
      case (Ok rut)
      have "r = (case q of Ok _ \<Rightarrow> Ok () | _ \<Rightarrow> Err ()) \<and> (vs', w') = s1 \<and>
        d' = d\<lparr>gd_gpu_backend := None, gd_worker_thread := Some (case q of
          Ok e \<Rightarrow> WorkerRuns e (rutabaga_virtio_gpu_new rut backend) | Err _ \<Rightarrow> WorkerReturned | Panic \<Rightarrow> WorkerPanicked)\<rparr>"
        using assms(1) b l \<open>ge_try_clone env (gd_exit_event d) = Ok ex\<close> Ok q [OF Ok]
        by (cases s1; cases q) (simp_all add: gpu_activate_def start_worker_def)
      with that(3) [OF \<open>ge_try_clone env (gd_exit_event d) = Ok ex\<close> b(2) Ok b(1)] q [OF Ok] show ?thesis by simp
    qed (use assms(1) b l \<open>ge_try_clone env (gd_exit_event d) = Ok ex\<close> that(2) in \<open>auto simp: gpu_activate_def start_worker_def\<close>)
  qed
qed (use assms that(1) in \<open>simp_all add: gpu_activate_def\<close>)

lemma gpu_activate_safe:
  assumes "epoll_contract (ge_ctl env) regs" "epoll_create_contract regs (ge_create env)" "\<And>fd. ge_try_clone env fd \<noteq> Panic"
    and "orderly_rings qo (ge_bits env) regs (vs, w)" "gpu_activate env mem (d, vs, w) = (r, d', vs', w')"
  shows "r \<noteq> Panic \<and> orderly_rings qo (ge_bits env) regs (vs', w') \<and> rewatched vs vs'"
  using assms(5,3)
proof (cases rule: gpu_activate_cases)
  case (3 ex rut backend q)
  with gpu_worker_new_ok [OF assms(1,2,4), of "rutabaga_virtio_gpu_new rut backend" ex q "(vs', w')"]
  show ?thesis by (cases q) auto
qed (use assms(4) in auto)

lemma gpu_stop_world: "gpu_stop env (d, w) = (r, d', w') \<Longrightarrow> w' e = None \<or> w' e = w e"
  by (auto simp: gpu_stop_def Let_def split: option.splits rust.splits worker_thread.splits if_splits)

lemma default_reset_state: "snd (default_reset stop s) = snd (stop s)"
  by (auto simp: default_reset_def bind_method_def return_method_def split: prod.splits rust.splits)

text \<open>What the handler's environment must be for the device of \<open>ge\<close>; all of it is about the libraries.\<close>

definition gpu_handler_env ::
  "('ep \<Rightarrow> nat \<Rightarrow> epoll_event option) \<Rightarrow> protocol_feature_bits \<Rightarrow> ('r, 'q, 'ep) gpu_device_env
    \<Rightarrow> ('r gpu_device, 'q, 'ep) handler_env \<Rightarrow> bool" where
  "gpu_handler_env regs pb ge env \<longleftrightarrow>
     epoll_contract (ge_ctl ge) regs \<and> epoll_create_contract regs (ge_create ge) \<and> (\<forall>fd. ge_try_clone ge fd \<noteq> Panic) \<and>
     queue_contract (he_queue env) \<and> calm_env env \<and> he_ctl env = ge_ctl ge \<and> he_bits env = ge_bits ge \<and>
     he_device env = vhost_user_gpu_backend (he_protocol_features env) pb ge"

lemmas gpu_ops_defs = vhost_user_gpu_backend_def implementer_def gpu_device_ops_def impl_set_acked_features_def

lemma gpu_vhost_backend:
  assumes "gpu_handler_env regs pb ge env"
  shows "vhost_backend env regs (\<lambda>_. True) 2"
proof unfold_locales
  note a = assms [unfolded gpu_handler_env_def]
  show "epoll_contract (he_ctl env) regs" "queue_contract (he_queue env)" "calm_env env" using a by simp_all
  show "length (dv_queues (he_device env) d) = 2" for d using a by (simp add: gpu_ops_defs gpu_queues_def)
  show "r \<noteq> Panic \<and> length vs' = 2 \<and> rings_synced (he_queue env) (he_bits env) regs vs' w'"
    if "length vs = 2" "rings_synced (he_queue env) (he_bits env) regs vs w" "list_all (settled (he_queue env)) vs"
      "dv_activate (he_device env) mem (d, vs, w) = (r, d', vs', w')" for d vs w mem r d' vs' w'
  proof -
    have "r \<noteq> Panic \<and> orderly_rings (he_queue env) (ge_bits ge) regs (vs', w') \<and> rewatched vs vs'"
      by (rule gpu_activate_safe [where regs = regs and env = ge and mem = mem and d = d and d' = d' and w = w])
        (use a that in \<open>simp_all add: orderly_rings_def gpu_ops_defs\<close>)
    with that a show ?thesis by (auto simp: orderly_rings_def dest: rewatched_length)
  qed
  show "fst (dv_set_acked_features (he_device env) f d) = Ok ()"
    if "f AND he_protocol_features env = he_protocol_features env" for f d
    using a that by (simp add: gpu_ops_defs)
  show "fst (dv_write_config (he_device env) off buf d) \<noteq> Panic" for off buf d
    using a by (simp add: gpu_ops_defs gpu_write_config_def)
  show "w' e = None \<or> w' e = w e" if "dv_reset (he_device env) (d, w) = (rb, d', w')" for d w rb d' w' e
    using gpu_stop_world [of ge d w _ d' w' e] default_reset_state [of "gpu_stop ge" "(d, w)"] that a
    by (cases "gpu_stop ge (d, w)") (auto simp: gpu_ops_defs)
qed simp_all

lemma gpu_activate_rewatched:
  assumes "gpu_activate env mem (d, vs, w) = (r, d', vs', w')" "\<And>fd. ge_try_clone env fd \<noteq> Panic"
  shows "rewatched vs vs'"
  using assms
proof (cases rule: gpu_activate_cases)
  case (3 ex rut backend q)
  have "rewatched (fst (vs, w)) (fst (snd (gpu_worker_new env (rutabaga_virtio_gpu_new rut backend) ex (vs, w))))"
    unfolding gpu_worker_new_def
    by (rule setup_watcher_rewatched) (use 3(2) in auto)
  with 3(5) show ?thesis by simp
qed simp_all

lemma gpu_only_watches:
  assumes "gpu_handler_env regs pb ge env"
  shows "only_watches (he_device env)"
proof -
  have d: "dv_activate (he_device env) = gpu_activate ge" "\<And>fd. ge_try_clone ge fd \<noteq> Panic"
    using assms by (simp_all add: gpu_handler_env_def gpu_ops_defs)
  show ?thesis unfolding only_watches_def d(1)
    using gpu_activate_rewatched [OF _ d(2)] by (blast dest: rewatched_length rewatched_nth)
qed

section \<open>Features and configuration bytes\<close>

lemma subset_of_offer: "f AND NOT offer = 0 \<Longrightarrow> f AND offer = (f :: u64)"
proof -
  assume z: "f AND NOT offer = 0"
  have "bit f i \<Longrightarrow> bit offer i" for i
    using arg_cong [where f = "\<lambda>x. bit x i", OF z] bit_imp_le_length [of f i] by (auto simp: bit_simps)
  then show ?thesis by (intro bit_word_eqI) (auto simp: bit_simps)
qed

lemma set_features_offered:
  assumes "f AND NOT (dv_avail_features (he_device env) (h_device h)) = 0"
  shows "fst (handle env (SetFeatures f) h)
      = map_ok (\<lambda>_. ReplyUnit) (unwrap (fst (dv_set_acked_features (he_device env) f (h_device h))))"
    "h_device (request_step env (SetFeatures f) h) = snd (dv_set_acked_features (he_device env) f (h_device h))"
  using assms by (simp_all add: replies_def set_features_def request_step_def Let_def split: prod.split)

lemma zero_bytes: "le_bytes 4 (0 :: u32) @ le_bytes 4 (0 :: u32) @ bs = replicate 8 0 @ bs"
proof -
  have "le_bytes 4 (0 :: u32) = replicate 4 0" by (simp add: le_bytes_def map_replicate_const)
  then show ?thesis using replicate_add [of 4 4 "0 :: u8"] by simp
qed

lemma put_gpu_config:
  "put virtio_gpu_config_layout c = le_bytes 4 (cfg_events_read c) @ le_bytes 4 (cfg_events_clear c)
     @ le_bytes 4 (cfg_num_scanouts c) @ le_bytes 4 (cfg_num_capsets c)"
  by (simp add: virtio_gpu_config_layout_def struct_def beside_def le32_def)

section \<open>A concrete device\<close>

definition plain_protocol_bits :: protocol_feature_bits where
  "plain_protocol_bits = \<lparr>pfb_mq = 1, pfb_config = 0x200, pfb_reply_ack = 8, pfb_backend_send_fd = 0x400\<rparr>"

definition plain_gpu_env :: "(unit, bool \<times> u16, nat \<Rightarrow> epoll_event option) gpu_device_env" where
  "plain_gpu_env = \<lparr>ge_features = \<lparr>fb_version_1 = 32, fb_ring_reset = 40, fb_notify_on_empty = 24, fb_indirect_desc = 28,
       fb_event_idx = 29, fb_virgl = 0, fb_edid = 1, fb_resource_blob = 3, fb_context_init = 4\<rparr>,
     ge_create = first_free, ge_ctl = map_ctl, ge_bits = linux_event_bits, ge_try_clone = (\<lambda>fd. Ok (Suc fd)),
     ge_build = (\<lambda>_. Ok ()), ge_rutabaga = easy_renderer, ge_efd_write = (\<lambda>_. Ok ()), ge_run_ok = (\<lambda>_. True)\<rparr>"

definition plain_gpu :: "unit gpu_device" where
  "plain_gpu = \<lparr>gd_virtio_cfg = \<lparr>cfg_events_read = 0, cfg_events_clear = 0, cfg_num_scanouts = 16, cfg_num_capsets = 2\<rparr>,
     gd_acked_features = 0, gd_worker_thread = None, gd_exit_event = 3, gd_gpu_backend = None,
     gd_gpu_config = \<lparr>cfg_gpu_mode = VirglRenderer, cfg_capset = 6, cfg_flags = gpu_flags_default\<rparr>\<rparr>"

definition plain_rings :: "(bool \<times> u16) vring list" where
  "plain_rings = [\<lparr>queue = (True, 0), enabled = True, kick = Some 7, call = None, err = None, epolls = []\<rparr>,
     \<lparr>queue = (False, 0), enabled = True, kick = None, call = None, err = None, epolls = []\<rparr>]"

definition gpu_plain_env :: "(unit gpu_device, bool \<times> u16, nat \<Rightarrow> epoll_event option) handler_env" where
  "gpu_plain_env = plain_env (vhost_user_gpu_backend 0x40000000 plain_protocol_bits plain_gpu_env)"

definition no_logs :: log_store where
  "no_logs = \<lparr>logs = (\<lambda>_. []), inners = (\<lambda>_. None)\<rparr>"

text \<open>The handler of the device after some requests.\<close>

definition gpu_plain_handler :: "request list \<Rightarrow> (unit gpu_device, bool \<times> u16, nat \<Rightarrow> epoll_event option) handler" where
  "gpu_plain_handler xs = fold (request_step gpu_plain_env) xs
     (case handler_new gpu_plain_env plain_gpu [] (\<lambda>_. None) no_logs of Ok h \<Rightarrow> h)"

lemma plain_gpu_env_ok:
  assumes "ge_ctl ge = map_ctl" "ge_create ge = first_free" "ge_bits ge = linux_event_bits" "\<And>fd. ge_try_clone ge fd \<noteq> Panic"
  shows "gpu_handler_env (\<lambda>ep. ep) pb ge (plain_env (vhost_user_gpu_backend 0x40000000 pb ge))"
  using assms plain_env_contracts [of "vhost_user_gpu_backend 0x40000000 pb ge"] epoll_contract_map_ctl first_free_contract
  by (simp add: gpu_handler_env_def plain_env_def)

lemma gpu_plain_env_ok: "gpu_handler_env (\<lambda>ep. ep) plain_protocol_bits plain_gpu_env gpu_plain_env"
  unfolding gpu_plain_env_def by (rule plain_gpu_env_ok) (simp_all add: plain_gpu_env_def)

interpretation plain_gpu_backend: vhost_backend gpu_plain_env "\<lambda>ep. ep" "\<lambda>_. True" 2
  by (rule gpu_vhost_backend [OF gpu_plain_env_ok])

interpretation plain_gpu_ring: controlled_ring "ring_lock gpu_plain_env i" "ring_started gpu_plain_env i" "ring_enabled i"
    "request_step gpu_plain_env" "may_start i" "may_enable (he_protocol_features gpu_plain_env) i" for i
  by (rule controlled_ring_handler [OF plain_gpu_backend.virtq gpu_only_watches [OF gpu_plain_env_ok]])

lemma plain_rings_orderly: "orderly_rings (he_queue gpu_plain_env) (ge_bits plain_gpu_env) (\<lambda>ep. ep) (plain_rings, \<lambda>_. None)"
  by (auto simp: orderly_rings_def rings_synced_def kick_synced_def other_kicks_def plain_rings_def settled_def is_started_def
      gpu_plain_env_def plain_env_def flag_queue_def less_Suc_eq)

lemma plain_gpu_activates:
  "fst (gpu_activate plain_gpu_env [] (plain_gpu\<lparr>gd_gpu_backend := Some 5\<rparr>, plain_rings, \<lambda>_. None)) = Ok ()"
  by (simp add: gpu_activate_def CONTROL_QUEUE_def CURSOR_QUEUE_def plain_rings_def start_worker_def gpu_worker_new_def
      plain_gpu_env_def setup_watcher_def first_free_0 gpu_worker_items_def get_event_poll_fd_def
      easy_renderer_def bind_method_def on_epoll_def kick_register_self_def register_kick_def plain_gpu_def
      del: as_raw_token.simps)

lemma plain_gpu_new: "gpu_device_new (Ok 3) (gd_gpu_config plain_gpu) = Ok plain_gpu"
  by (simp add: gpu_device_new_def plain_gpu_def VIRTIO_GPU_MAX_SCANOUTS_def num_capsets_def upt_conv_Cons bit_numeral_rec)

lemma gpu_plain_handler_device: "h_device (gpu_plain_handler []) = plain_gpu"
  by (simp add: gpu_plain_handler_def handler_new_def gpu_plain_env_def plain_env_def gpu_ops_defs gpu_queues_def vring_new_def
      flag_queue_def)

lemma plain_offer: "gpu_avail_features (ge_features plain_gpu_env) AND he_protocol_features gpu_plain_env = 0"
  by (simp add: gpu_avail_features_def plain_gpu_env_def gpu_plain_env_def plain_env_def)

lemma gpu_plain_handler_fields:
  "h_vrings (gpu_plain_handler [SetOwner, SetGpuSocket 5, SetMemTable [] [], SetVringCall 0 None])
    = replicate 2 \<lparr>queue = (False, 0), enabled = False, kick = None, call = None, err = None, epolls = []\<rparr>"
  "h_vrings (gpu_plain_handler [SetOwner, SetGpuSocket 5, SetMemTable [] []])
    = replicate 2 \<lparr>queue = (False, 0), enabled = False, kick = None, call = None, err = None, epolls = []\<rparr>"
  by (simp_all add: gpu_plain_handler_def handler_new_def gpu_plain_env_def plain_env_def gpu_ops_defs gpu_queues_def vring_new_def
      flag_queue_def request_step_def replies_def set_owner_def Vhost_User_Handler.set_gpu_socket_def set_mem_table_def
      plain_memory_def set_vring_call_def indexed_def initialize_vring_def on_vring_def set_call_def has_kick_event_def
      is_started_def numeral_2_eq_2)

lemma gpu_plain_conforming:
  "conforming gpu_plain_env (\<lambda>ep. ep) (SetVringKick 0 (Some 7))
    (gpu_plain_handler [SetOwner, SetGpuSocket 5, SetMemTable [] [], SetVringCall 0 None])"
  by (auto simp: gpu_plain_handler_fields new_kick_fd_def fresh_fd_def other_kicks_def ready_to_activate_def settled_def)

lemma gpu_plain_session:
  "session gpu_plain_env (\<lambda>ep. ep) (gpu_plain_handler [])
    (gpu_plain_handler [SetOwner, SetGpuSocket 5, SetMemTable [] [], SetVringCall 0 None])"
proof -
  have step: "session gpu_plain_env (\<lambda>ep. ep) (gpu_plain_handler []) (gpu_plain_handler (xs @ [x]))"
    if "session gpu_plain_env (\<lambda>ep. ep) (gpu_plain_handler []) (gpu_plain_handler xs)"
      "conforming gpu_plain_env (\<lambda>ep. ep) x (gpu_plain_handler xs)" for xs x
    using session_step [OF that] by (simp add: gpu_plain_handler_def)
  have 1: "session gpu_plain_env (\<lambda>ep. ep) (gpu_plain_handler []) (gpu_plain_handler [])" by (rule session_start)
  have 2: "session gpu_plain_env (\<lambda>ep. ep) (gpu_plain_handler []) (gpu_plain_handler [SetOwner])"
    using step [OF 1, of SetOwner] by simp
  have 3: "session gpu_plain_env (\<lambda>ep. ep) (gpu_plain_handler []) (gpu_plain_handler [SetOwner, SetGpuSocket 5])"
    using step [OF 2, of "SetGpuSocket 5"] by simp
  have 4: "session gpu_plain_env (\<lambda>ep. ep) (gpu_plain_handler []) (gpu_plain_handler [SetOwner, SetGpuSocket 5, SetMemTable [] []])"
    using step [OF 3, of "SetMemTable [] []"] by simp
  have "conforming gpu_plain_env (\<lambda>ep. ep) (SetVringCall 0 None) (gpu_plain_handler [SetOwner, SetGpuSocket 5, SetMemTable [] []])"
    by (simp add: gpu_plain_handler_fields ready_to_activate_def settled_def)
  with step [OF 4, of "SetVringCall 0 None"] show ?thesis by simp
qed

lemma plain_gpu_capsets: "num_capsets (cfg_capset (gd_gpu_config plain_gpu)) = 2"
  by (simp add: plain_gpu_def num_capsets_def upt_conv_Cons bit_numeral_rec)

section \<open>Properties\<close>





text \<open>C38: negotiating features through the delegation: an offer that is exceeded is refused without effect, features
  without the protocol bit panic in the delegation although the handler is prepared for them, and otherwise exactly
  the requested features are acknowledged, whatever was acknowledged before.\<close>

theorem gpu_features_negotiated:
  assumes "gpu_handler_env regs pb ge env" "gpu_avail_features (ge_features ge) AND he_protocol_features env = 0"
  shows "case fst (handle env (SetFeatures f) h) of
      Err x \<Rightarrow> x = InvalidParam \<and> f AND NOT (gpu_avail_features (ge_features ge) OR he_protocol_features env) \<noteq> 0 \<and>
        request_step env (SetFeatures f) h = h
    | Panic \<Rightarrow> f AND NOT (gpu_avail_features (ge_features ge) OR he_protocol_features env) = 0 \<and>
        f AND he_protocol_features env \<noteq> he_protocol_features env
    | Ok _ \<Rightarrow> f AND NOT (gpu_avail_features (ge_features ge) OR he_protocol_features env) = 0 \<and>
        f AND he_protocol_features env = he_protocol_features env \<and>
        dv_acked_features (he_device env) (h_device (request_step env (SetFeatures f) h)) = f"
proof -
  let ?pf = "he_protocol_features env" and ?vd = "gpu_device_ops ge"
  let ?offer = "gpu_avail_features (ge_features ge) OR ?pf"
  have dev: "he_device env = vhost_user_gpu_backend ?pf pb ge" using assms(1) by (simp add: gpu_handler_env_def)
  have offer: "dv_avail_features (he_device env) d = ?offer" for d
    by (simp add: dev vhost_user_gpu_backend_def implementer_def impl_avail_features_def gpu_device_ops_def)
  have set: "dv_set_acked_features (he_device env) = impl_set_acked_features ?pf ?vd"
    by (simp add: dev vhost_user_gpu_backend_def implementer_def)
  have get: "dv_acked_features (he_device env) = impl_acked_features ?pf ?vd"
    by (simp add: dev vhost_user_gpu_backend_def implementer_def)
  show ?thesis
  proof (cases "f AND NOT ?offer = 0 \<and> f AND ?pf = ?pf")
    case True
    then have "f AND impl_avail_features ?pf ?vd v = f" for v
      using subset_of_offer [of f ?offer] by (simp add: impl_avail_features_def gpu_device_ops_def)
    moreover have "vd_avail_features ?vd v AND ?pf = 0" for v using assms(2) by (simp add: gpu_device_ops_def)
    ultimately have "impl_acked_features ?pf ?vd (snd (impl_set_acked_features ?pf ?vd f v)) = f"
      and "fst (impl_set_acked_features ?pf ?vd f v) = Ok ()" for v
      using gpu_features.impl_acked [where f = f and pf = ?pf and v = v and env = ge] True by simp_all
    with True set_features_offered [of f env h] show ?thesis by (simp add: offer set get del: handle.simps)
  next
    case False
    show ?thesis
    proof (cases "f AND NOT ?offer = 0")
      case True
      with False set_features_offered [of f env h] show ?thesis
        by (simp add: offer set impl_set_acked_features_def del: handle.simps)
    next
      case False
      then show ?thesis by (simp add: replies_def set_features_def request_step_def offer)
    qed
  qed
qed

theorem gpu_features_negotiated_witness: "fst (handle gpu_plain_env (SetFeatures 0) (gpu_plain_handler [])) = Panic"
proof -
  have "he_protocol_features gpu_plain_env \<noteq> 0" by (simp add: gpu_plain_env_def plain_env_def)
  then show ?thesis
    using gpu_features_negotiated [OF gpu_plain_env_ok, of 0 "gpu_plain_handler []"] plain_offer
    by (auto simp del: handle.simps split: rust.splits)
qed

text \<open>C34: reading the configuration space of the gpu: an offset beyond the 16 bytes panics in the device, a length that
  is not exactly what remains is refused, and otherwise the reply is the rest of the little-endian configuration,
  whose last field counts the capability sets of the configuration.\<close>

theorem gpu_config_space:
  assumes "gpu_handler_env regs pb ge env" "gpu_device_new (Ok exit) config = Ok d" "h_device h = d"
  shows "handle env (GetConfig off n) h =
    (if unat off > 16 then (Panic, h)
     else if unat n \<noteq> 16 - unat off then (Err BackendInternalError, h)
     else (Ok (ReplyConfig (drop (unat off) (replicate 8 0 @ le_bytes 4 VIRTIO_GPU_MAX_SCANOUTS
             @ le_bytes 4 (num_capsets (cfg_capset config))))), h))"
proof -
  define bytes where "bytes = replicate 8 (0 :: u8) @ le_bytes 4 VIRTIO_GPU_MAX_SCANOUTS @ le_bytes 4 (num_capsets (cfg_capset config))"
  have cfg: "put virtio_gpu_config_layout (gd_virtio_cfg d) = bytes"
    using assms(2) by (auto simp: gpu_device_new_def put_gpu_config zero_bytes bytes_def)
  have len: "length bytes = 16" by (simp add: bytes_def)
  have "dv_read_config (he_device env) = gpu_read_config"
    using assms(1) by (simp add: gpu_handler_env_def vhost_user_gpu_backend_def implementer_def gpu_device_ops_def)
  then show ?thesis
    unfolding bytes_def [symmetric] using assms(3) by (auto simp: replies_def get_config_def gpu_read_config_def cfg len Let_def)
qed

theorem gpu_config_space_witness:
  "handle gpu_plain_env (GetConfig 12 4) (gpu_plain_handler []) = (Ok (ReplyConfig [2, 0, 0, 0]), gpu_plain_handler [])"
proof -
  have "gpu_device_new (Ok 3) (gd_gpu_config plain_gpu) = Ok plain_gpu" "h_device (gpu_plain_handler []) = plain_gpu"
    "num_capsets (cfg_capset (gd_gpu_config plain_gpu)) = 2"
    by (rule plain_gpu_new gpu_plain_handler_device plain_gpu_capsets)+
  then show ?thesis
    using gpu_config_space [OF gpu_plain_env_ok, of 3 "gd_gpu_config plain_gpu" plain_gpu "gpu_plain_handler []" 12 4]
    by (simp add: VIRTIO_GPU_MAX_SCANOUTS_def le_bytes_def upt_conv_Cons del: handle.simps)
qed

text \<open>A renderer that cannot be built leaves a panicked thread behind: the activation only reports an error, but
  stopping the device afterwards panics.\<close>

lemma failed_renderer_breaks_stop:
  assumes "gpu_handler_env regs pb ge env" "ge_try_clone ge (gd_exit_event d) = Ok ex" "2 \<le> length vs"
    and "gd_gpu_backend d = Some backend" "ge_build ge (configure_rutabaga_builder (gd_gpu_config d)) = Err ()"
  shows "\<exists>d'. gpu_activate ge mem (d, vs, w) = (Err (), d', vs, w) \<and> fst (gpu_stop ge (d', w)) = Panic"
proof -
  have "\<not> (CONTROL_QUEUE \<ge> length vs \<or> CURSOR_QUEUE \<ge> length vs)" using assms(3) by (auto simp: CONTROL_QUEUE_def CURSOR_QUEUE_def)
  with assms show ?thesis by (simp add: gpu_activate_def start_worker_def gpu_stop_def Let_def split: rust.split)
qed

lemma failed_renderer_breaks_stop_witness:
  "\<exists>d'. gpu_activate (plain_gpu_env\<lparr>ge_build := (\<lambda>_. Err ())\<rparr>) [] (plain_gpu\<lparr>gd_gpu_backend := Some 5\<rparr>, plain_rings, \<lambda>_. None)
      = (Err (), d', plain_rings, \<lambda>_. None) \<and>
    fst (gpu_stop (plain_gpu_env\<lparr>ge_build := (\<lambda>_. Err ())\<rparr>) (d', \<lambda>_. None)) = Panic"
proof -
  let ?ge = "plain_gpu_env\<lparr>ge_build := (\<lambda>_. Err ())\<rparr>"
  have "gpu_handler_env (\<lambda>ep. ep) plain_protocol_bits ?ge
      (plain_env (vhost_user_gpu_backend 0x40000000 plain_protocol_bits ?ge))"
    by (rule plain_gpu_env_ok) (simp_all add: plain_gpu_env_def)
  from failed_renderer_breaks_stop [OF this, of "plain_gpu\<lparr>gd_gpu_backend := Some 5\<rparr>" 4 plain_rings 5] show ?thesis
    by (simp add: plain_gpu_env_def plain_gpu_def plain_rings_def)
qed

end
