(* ===== verification/Console_Ports.thy ===== *)
theory Console_Ports
  imports Byte_Valued Event_Manager
begin

text \<open>
  The ports of the console device: which rings belong to which port
  (\<^verbatim>\<open>virtio-console/src/port_queue_mapping.rs\<close>), the ports themselves and their descriptions
  (\<^verbatim>\<open>port.rs\<close>), and the messages that the device sends about them through the control ring, with the
  queue in which they wait (\<^verbatim>\<open>console_control.rs\<close>). An input or output is the number of its file
  descriptor. The event descriptor that announces a message is its counter, as in \<^verbatim>\<open>eventfd(2)\<close>.
\<close>

section \<open>Rings and ports\<close>

datatype queue_direction = Rx | Tx

fun port_id_to_queue_idx :: "queue_direction \<Rightarrow> nat \<Rightarrow> nat" where
  "port_id_to_queue_idx Rx port_id = (if port_id = 0 then 0 else 2 + 2 * port_id)"
| "port_id_to_queue_idx Tx port_id = (if port_id = 0 then 1 else 2 + 2 * port_id + 1)"

definition queue_idx_to_port_id :: "nat \<Rightarrow> (queue_direction \<times> nat, 'e) rust" where
  "queue_idx_to_port_id queue_index =
     (if queue_index = 2 \<or> queue_index = 3 then Panic
      else Ok (if queue_index mod 2 = 0 then Rx else Tx,
               if queue_index = 0 \<or> queue_index = 1 then 0 else queue_index div 2 - 1))"

definition num_queues :: "nat \<Rightarrow> nat" where
  "num_queues num_ports = 2 + 2 * num_ports"

definition CONTROL_RXQ_INDEX :: nat where "CONTROL_RXQ_INDEX = 2"
definition CONTROL_TXQ_INDEX :: nat where "CONTROL_TXQ_INDEX = 3"

section \<open>Ports\<close>

datatype port_description =
    ConsoleDescription "nat option" "nat option"
  | InputPipe string nat
  | OutputPipe string nat

text \<open>A thread of a port: its epoll instance, or that it has ended in a panic.\<close>

datatype port_thread = PortThreadRuns nat | PortThreadPanicked

datatype port_state = Inactive | Active nat "port_thread option" "port_thread option"

record port =
  po_port_id :: u32
  po_name :: string
  po_represents_console :: bool
  po_state :: port_state
  po_input :: "nat option"
  po_output :: "nat option"

fun port_new :: "u32 \<Rightarrow> port_description \<Rightarrow> (port, 'e) rust" where
  "port_new port_id (ConsoleDescription input output) =
     (case (input, output) of
        (Some i, Some out) \<Rightarrow> Ok \<lparr>po_port_id = port_id, po_name = '''', po_represents_console = True, po_state = Inactive,
                              po_input = Some i, po_output = Some out\<rparr>
      | _ \<Rightarrow> Panic)"
| "port_new port_id (InputPipe name input) =
     Ok \<lparr>po_port_id = port_id, po_name = name, po_represents_console = False, po_state = Inactive,
         po_input = Some input, po_output = None\<rparr>"
| "port_new port_id (OutputPipe name output) =
     Ok \<lparr>po_port_id = port_id, po_name = name, po_represents_console = False, po_state = Inactive,
         po_input = None, po_output = Some output\<rparr>"

section \<open>Messages\<close>

record virtio_console_control =
  vcc_id :: u32
  vcc_event :: u16
  vcc_value :: u16

definition virtio_console_control_layout :: "virtio_console_control codec" where
  "virtio_console_control_layout = struct
     (\<lambda>(i, e, v). \<lparr>vcc_id = i, vcc_event = e, vcc_value = v\<rparr>)
     (\<lambda>s. (vcc_id s, vcc_event s, vcc_value s))
     (beside le32 (beside le16 le16))"

record virtio_console_resize =
  vcr_rows :: u16
  vcr_cols :: u16

definition virtio_console_resize_layout :: "virtio_console_resize codec" where
  "virtio_console_resize_layout = struct
     (\<lambda>(r, c). \<lparr>vcr_rows = r, vcr_cols = c\<rparr>) (\<lambda>s. (vcr_rows s, vcr_cols s)) (beside le16 le16)"

definition VIRTIO_CONSOLE_DEVICE_READY :: u16 where "VIRTIO_CONSOLE_DEVICE_READY = 0"
definition VIRTIO_CONSOLE_PORT_ADD :: u16 where "VIRTIO_CONSOLE_PORT_ADD = 1"
definition VIRTIO_CONSOLE_PORT_READY :: u16 where "VIRTIO_CONSOLE_PORT_READY = 3"
definition VIRTIO_CONSOLE_CONSOLE_PORT :: u16 where "VIRTIO_CONSOLE_CONSOLE_PORT = 4"
definition VIRTIO_CONSOLE_RESIZE :: u16 where "VIRTIO_CONSOLE_RESIZE = 5"
definition VIRTIO_CONSOLE_PORT_OPEN :: u16 where "VIRTIO_CONSOLE_PORT_OPEN = 6"
definition VIRTIO_CONSOLE_PORT_NAME :: u16 where "VIRTIO_CONSOLE_PORT_NAME = 7"

datatype payload = ControlPayload virtio_console_control | BytesPayload "u8 list"

fun payload_bytes :: "payload \<Rightarrow> u8 list" where
  "payload_bytes (ControlPayload m) = put virtio_console_control_layout m"
| "payload_bytes (BytesPayload bs) = bs"

text \<open>The messages that wait and the counter of their event descriptor.\<close>

record console_control =
  cc_queue :: "payload list"
  cc_queue_evt :: nat

definition console_control_new :: console_control where
  "console_control_new = \<lparr>cc_queue = [], cc_queue_evt = 0\<rparr>"

definition evt_write :: "nat \<Rightarrow> (nat, unit, io_error) rust_method" where
  "evt_write v c = (if c + v < 2 ^ 64 - 1 then (Ok (), c + v) else (Err WouldBlock, c))"

definition evt_read :: "(nat, nat, io_error) rust_method" where
  "evt_read c = (if c = 0 then (Err WouldBlock, 0) else (Ok c, 0))"

text \<open>A failed write to the event descriptor is only traced.\<close>

definition push_payload :: "payload \<Rightarrow> console_control \<Rightarrow> console_control" where
  "push_payload m c = c\<lparr>cc_queue := cc_queue c @ [m], cc_queue_evt := snd (evt_write 1 (cc_queue_evt c))\<rparr>"

definition push_msg :: "virtio_console_control \<Rightarrow> console_control \<Rightarrow> console_control" where
  "push_msg m = push_payload (ControlPayload m)"

definition push_vec :: "u8 list \<Rightarrow> console_control \<Rightarrow> console_control" where
  "push_vec buf = push_payload (BytesPayload buf)"

definition mark_console_port :: "u32 \<Rightarrow> console_control \<Rightarrow> console_control" where
  "mark_console_port port_id = push_msg \<lparr>vcc_id = port_id, vcc_event = VIRTIO_CONSOLE_CONSOLE_PORT, vcc_value = 1\<rparr>"

definition console_resize :: "u32 \<Rightarrow> virtio_console_resize \<Rightarrow> console_control \<Rightarrow> console_control" where
  "console_resize port_id new_size = push_vec
     (put virtio_console_control_layout \<lparr>vcc_id = port_id, vcc_event = VIRTIO_CONSOLE_RESIZE, vcc_value = 0\<rparr>
      @ put virtio_console_resize_layout new_size)"

definition port_add :: "u32 \<Rightarrow> console_control \<Rightarrow> console_control" where
  "port_add port_id = push_msg \<lparr>vcc_id = port_id, vcc_event = VIRTIO_CONSOLE_PORT_ADD, vcc_value = 0\<rparr>"

definition port_open :: "u32 \<Rightarrow> bool \<Rightarrow> console_control \<Rightarrow> console_control" where
  "port_open port_id opened =
     push_msg \<lparr>vcc_id = port_id, vcc_event = VIRTIO_CONSOLE_PORT_OPEN, vcc_value = (if opened then 1 else 0)\<rparr>"

text \<open>The bytes of a name: names are ASCII strings here, whose UTF-8 bytes are the character codes.\<close>

definition name_bytes :: "string \<Rightarrow> u8 list" where
  "name_bytes name = map (\<lambda>c. of_nat (of_char c)) name"

definition port_name :: "u32 \<Rightarrow> string \<Rightarrow> console_control \<Rightarrow> console_control" where
  "port_name port_id name = push_vec
     (put virtio_console_control_layout \<lparr>vcc_id = port_id, vcc_event = VIRTIO_CONSOLE_PORT_NAME, vcc_value = 1\<rparr>
      @ name_bytes name)"

definition queue_pop :: "console_control \<Rightarrow> payload option \<times> console_control" where
  "queue_pop c = (case cc_queue c of [] \<Rightarrow> (None, c) | m # ms \<Rightarrow> (Some m, c\<lparr>cc_queue := ms\<rparr>))"

section \<open>Lemmas\<close>

lemma virtio_console_control_lawful [simp]: "lawful virtio_console_control_layout anything"
  unfolding virtio_console_control_layout_def by (rule lawful_struct_scalar, (rule lawful_le32 lawful_le16 lawful_scalar_beside)+) auto

lemma virtio_console_resize_lawful [simp]: "lawful virtio_console_resize_layout anything"
  unfolding virtio_console_resize_layout_def by (rule lawful_struct_scalar, (rule lawful_le32 lawful_le16 lawful_scalar_beside)+) auto

interpretation console_control_bytes: byte_valued virtio_console_control_layout anything
  by unfold_locales simp

interpretation console_resize_bytes: byte_valued virtio_console_resize_layout anything
  by unfold_locales simp

lemma console_layout_sizes [simp]:
  "csize virtio_console_control_layout = 8" "csize virtio_console_resize_layout = 4"
  by (simp_all add: virtio_console_control_layout_def virtio_console_resize_layout_def)

lemma queue_index_port:
  "q \<noteq> 2 \<Longrightarrow> q \<noteq> 3 \<Longrightarrow> \<exists>d p. queue_idx_to_port_id q = Ok (d, p) \<and> port_id_to_queue_idx d p = q"
  unfolding queue_idx_to_port_id_def
  by (cases "q mod 2 = 0") (auto simp: Let_def intro!: exI, presburger+)

text \<open>The tokens of the console's three event loops have three variants without data.\<close>

lemma three_events_ok: "ty_ok (EnumTy [None, None, None])" "used_bits (EnumTy [None, None, None]) = Some 2"
proof -
  have "next_power_of_two_from 1 3 = 4"
    by (subst next_power_of_two_from.simps, simp, subst next_power_of_two_from.simps, simp,
        subst next_power_of_two_from.simps, simp)
  then have "variant_bits 3 = 2"
    using trailing_zeros_power [of 2] by (simp add: variant_bits_def next_power_of_two_def)
  then show "used_bits (EnumTy [None, None, None]) = Some 2" by (simp add: Let_def eval_nat_numeral)
qed simp

section \<open>Properties\<close>

text \<open>C35: the assignment of rings to ports and directions: translating to a ring and back is the identity, every ring
  but the two control rings belongs to a port, and the ports of a console of \<open>n + 1\<close> ports fill exactly the rings
  that the device announces, apart from the control rings.\<close>

theorem queue_layout:
  "queue_idx_to_port_id (port_id_to_queue_idx d p) = Ok (d, p) \<and>
   (q = CONTROL_RXQ_INDEX \<or> q = CONTROL_TXQ_INDEX \<or> (\<exists>d' p'. queue_idx_to_port_id q = Ok (d', p') \<and> port_id_to_queue_idx d' p' = q)) \<and>
   (\<lambda>(d, p). port_id_to_queue_idx d p) ` (UNIV \<times> {..<Suc n})
     = {..<num_queues (Suc n)} - {CONTROL_RXQ_INDEX, CONTROL_TXQ_INDEX}"
proof (intro conjI)
  show "queue_idx_to_port_id (port_id_to_queue_idx d p) = Ok (d, p)"
    by (cases d; cases "p = 0") (simp_all add: queue_idx_to_port_id_def)
  show "q = CONTROL_RXQ_INDEX \<or> q = CONTROL_TXQ_INDEX \<or> (\<exists>d' p'. queue_idx_to_port_id q = Ok (d', p') \<and> port_id_to_queue_idx d' p' = q)"
    using queue_index_port [of q] by (auto simp: CONTROL_RXQ_INDEX_def CONTROL_TXQ_INDEX_def)
  show "(\<lambda>(d, p). port_id_to_queue_idx d p) ` (UNIV \<times> {..<Suc n})
      = {..<num_queues (Suc n)} - {CONTROL_RXQ_INDEX, CONTROL_TXQ_INDEX}" (is "?f ` _ = ?R")
  proof (intro equalityI subsetI)
    fix x assume "x \<in> ?f ` (UNIV \<times> {..<Suc n})"
    then obtain d p where "x = port_id_to_queue_idx d p" "p < Suc n" by auto
    then show "x \<in> ?R" by (cases d; cases "p = 0") (simp_all add: num_queues_def CONTROL_RXQ_INDEX_def CONTROL_TXQ_INDEX_def)
  next
    fix x assume x: "x \<in> ?R"
    then obtain d p where dp: "port_id_to_queue_idx d p = x"
      using queue_index_port [of x] by (auto simp: CONTROL_RXQ_INDEX_def CONTROL_TXQ_INDEX_def)
    then have "p < Suc n" using x by (cases d) (auto simp: num_queues_def split: if_splits)
    with dp show "x \<in> ?f ` (UNIV \<times> {..<Suc n})" by force
  qed
qed

end
