(* ===== verification/Console_Control.thy ===== *)
theory Console_Control
  imports Console_Ports Device_Queue
begin

text \<open>
  The main worker of the console, \<^verbatim>\<open>MainWorker\<close> of \<^verbatim>\<open>virtio-console/src/console_control.rs\<close>: it hands
  the waiting messages to the guest through the control receive ring, and handles what the guest says
  on the control transmit ring. \<open>main_run\<close> is its event loop over the answers of \<^verbatim>\<open>wait\<close>. The ring is
  \<open>worker_queue_ops\<close> with the step back \<open>cq_go_to_previous\<close>; the writers of the chains are collected, since
  they are what the guest finds in its buffers.
\<close>

section \<open>The ring\<close>

record ('q, 'rd, 'w) console_queue_ops = "('q, 'rd, 'w) worker_queue_ops" +
  cq_go_to_previous :: "'q \<Rightarrow> 'q"

abbreviation worker_ops :: "('q, 'rd, 'w) console_queue_ops \<Rightarrow> ('q, 'rd, 'w) worker_queue_ops" where
  "worker_ops qo \<equiv> worker_queue_ops.truncate qo"

text \<open>\<^verbatim>\<open>go_to_previous_position\<close> undoes the last \<^verbatim>\<open>pop_descriptor_chain\<close>; adding a used element, even
  without success, leaves the available ring alone.\<close>

definition console_queue_contract ::
  "('q, 'rd, 'w) console_queue_ops \<Rightarrow> ('q \<Rightarrow> ('rd, 'w) desc_chain list) \<Rightarrow> ('q \<Rightarrow> (u16 \<times> u32) list) \<Rightarrow> bool" where
  "console_queue_contract qo pending used \<longleftrightarrow>
     worker_queue_contract (worker_ops qo) pending used \<and>
     (\<forall>h n q. pending (snd (wq_add_used qo h n q)) = pending q) \<and>
     (\<forall>q c cs. pending q = c # cs \<longrightarrow>
        pending (cq_go_to_previous qo (snd (wq_pop qo q))) = c # cs \<and>
        used (cq_go_to_previous qo (snd (wq_pop qo q))) = used q)"

section \<open>The control receive ring\<close>

type_synonym ('q, 'w) ring_out = "'q \<times> (u16 \<times> 'w) list"

text \<open>The loop of \<^verbatim>\<open>process_rx\<close> over the waiting messages. A message that does not fit is dropped with its chain,
  which is not returned.\<close>

fun control_rx_loop ::
  "'w writer_ops \<Rightarrow> ('q, 'rd, 'w) console_queue_ops \<Rightarrow> payload list \<Rightarrow> bool \<Rightarrow> ('q, 'w) ring_out
    \<Rightarrow> (bool, io_error) rust \<times> payload list \<times> ('q, 'w) ring_out" where
  "control_rx_loop wo qo [] raise_irq (q, out) =
     (case wq_pop qo q of
        (None, q1) \<Rightarrow> (Ok raise_irq, [], q1, out)
      | (Some c, q1) \<Rightarrow> (Ok raise_irq, [], cq_go_to_previous qo q1, out))"
| "control_rx_loop wo qo (buf # msgs) raise_irq (q, out) =
     (case wq_pop qo q of
        (None, q1) \<Rightarrow> (Ok raise_irq, buf # msgs, q1, out)
      | (Some c, q1) \<Rightarrow>
          (case unwrap (ch_writer c) of
             Ok w \<Rightarrow>
               (let (r, w1) = w_write wo (payload_bytes buf) w; out1 = out @ [(ch_head_index c, w1)]
                in case r of
                     Ok n \<Rightarrow>
                       if n \<noteq> length (payload_bytes buf) then control_rx_loop wo qo msgs raise_irq (q1, out1)
                       else control_rx_loop wo qo msgs True (snd (wq_add_used qo (ch_head_index c) (of_nat n) q1), out1)
                   | Err _ \<Rightarrow> control_rx_loop wo qo msgs raise_irq (q1, out1)
                   | Panic \<Rightarrow> (Panic, msgs, q1, out1))
           | Err e \<Rightarrow> (Err e, msgs, q1, out)
           | Panic \<Rightarrow> (Panic, msgs, q1, out)))"

record ('q, 'w) main_worker =
  mw_control :: console_control
  mw_ports :: "port list"
  mw_rx :: "('q, 'w) ring_out"
  mw_tx :: 'q

text \<open>\<open>kicked\<close> is the answer of \<^verbatim>\<open>read_kick\<close>, \<open>available\<close> whether \<^verbatim>\<open>try_lock_queue\<close> gives the ring and \<open>signal\<close> the
  outcome of \<^verbatim>\<open>signal_used_queue\<close>.\<close>

definition control_process_rx ::
  "'w writer_ops \<Rightarrow> ('q, 'rd, 'w) console_queue_ops \<Rightarrow> (bool, io_error) rust \<Rightarrow> bool \<Rightarrow> (unit, io_error) rust
    \<Rightarrow> (('q, 'w) main_worker, unit, io_error) rust_method" where
  "control_process_rx wo qo kicked available signal s =
     (case kicked of
        Ok k \<Rightarrow>
          if \<not> k then (Ok (), s)
          else (let c = (mw_control s)\<lparr>cc_queue_evt := snd (evt_read (cc_queue_evt (mw_control s)))\<rparr>
                in if \<not> available then (Ok (), s\<lparr>mw_control := c\<rparr>)
                   else (let (r, msgs, qout) = control_rx_loop wo qo (cc_queue c) False (mw_rx s);
                             s1 = s\<lparr>mw_control := c\<lparr>cc_queue := msgs\<rparr>, mw_rx := qout\<rparr>
                         in case r of
                              Ok raise_irq \<Rightarrow> (if raise_irq then unwrap signal else Ok (), s1)
                            | _ \<Rightarrow> (Panic, s1)))
      | _ \<Rightarrow> (Panic, s))"

section \<open>The control transmit ring\<close>

definition get_win_size :: "u16 \<times> u16" where
  "get_win_size = (80, 24)"

definition port_ready :: "port list \<Rightarrow> u32 \<Rightarrow> (console_control, unit, io_error) rust_method" where
  "port_ready ports i c =
     (if unat i \<ge> length ports then (Panic, c)
      else let p = ports ! unat i;
               c1 = (if po_represents_console p
                     then let (cols, rows) = get_win_size
                          in console_resize i \<lparr>vcr_rows = rows, vcr_cols = cols\<rparr> (port_open i True (mark_console_port i c))
                     else port_open i True c)
           in (Ok (), if po_name p \<noteq> [] then port_name i (po_name p) c1 else c1))"

text \<open>\<^verbatim>\<open>PORT_OPEN\<close> of the guest and unknown events only log. \<^verbatim>\<open>ports_to_start\<close> is filled but never used.\<close>

definition handle_control ::
  "port list \<Rightarrow> virtio_console_control \<Rightarrow> (console_control, unit, io_error) rust_method" where
  "handle_control ports cmd c =
     (if vcc_event cmd = VIRTIO_CONSOLE_DEVICE_READY
      then (Ok (), fold (\<lambda>port_id. port_add (of_nat port_id)) [0..<length ports] c)
      else if vcc_event cmd = VIRTIO_CONSOLE_PORT_READY
      then (if vcc_value cmd \<noteq> 1 then (Ok (), c) else port_ready ports (vcc_id cmd) c)
      else (Ok (), c))"

text \<open>The loop over the chains. Every used element is added under head index 0.\<close>

partial_function (option) control_tx_loop ::
  "'rd reader \<Rightarrow> ('q, 'rd, 'w) console_queue_ops \<Rightarrow> port list \<Rightarrow> bool \<Rightarrow> console_control \<times> 'q
    \<Rightarrow> ((bool, io_error) rust \<times> console_control \<times> 'q) option" where
  "control_tx_loop rd qo ports raise_irq s =
     (let (c, q) = s; (chain, q1) = wq_pop qo q
      in case chain of
           None \<Rightarrow> Some (Ok raise_irq, c, q1)
         | Some ch \<Rightarrow>
             (case ch_reader ch of
                Ok reader \<Rightarrow>
                  (case fst (rd 8 reader) of
                     Ok bytes \<Rightarrow>
                       (let q2 = snd (wq_add_used qo 0 8 q1);
                            (r, c1) = handle_control ports (get virtio_console_control_layout bytes) c
                        in case r of
                             Ok _ \<Rightarrow> control_tx_loop rd qo ports True (c1, q2)
                           | Err e \<Rightarrow> Some (Err e, c1, q2)
                           | Panic \<Rightarrow> Some (Panic, c1, q2))
                   | Err _ \<Rightarrow> control_tx_loop rd qo ports True (c, q1)
                   | Panic \<Rightarrow> Some (Panic, c, q1))
              | _ \<Rightarrow> Some (Panic, c, q1)))"

definition control_process_tx ::
  "'rd reader \<Rightarrow> ('q, 'rd, 'w) console_queue_ops \<Rightarrow> (bool, io_error) rust \<Rightarrow> bool \<Rightarrow> (unit, io_error) rust
    \<Rightarrow> ('q, 'w) main_worker \<Rightarrow> ((unit, io_error) rust \<times> ('q, 'w) main_worker) option" where
  "control_process_tx rd qo kicked available signal s =
     (case kicked of
        Ok k \<Rightarrow>
          if \<not> k \<or> \<not> available then Some (Ok (), s)
          else map_option (\<lambda>(r, c, q).
                 let s1 = s\<lparr>mw_control := c, mw_tx := q\<rparr>
                 in case r of
                      Ok raise_irq \<Rightarrow> (if raise_irq then unwrap signal else Ok (), s1)
                    | _ \<Rightarrow> (Panic, s1))
               (control_tx_loop rd qo (mw_ports s) False (mw_control s, mw_tx s))
      | _ \<Rightarrow> Some (Panic, s))"

section \<open>The event loop\<close>

datatype main_token = ControlRxq | ControlTxq | MainQuit

definition main_token_ty :: token_ty where
  "main_token_ty = EnumTy [None, None, None]"

fun main_token_val :: "main_token \<Rightarrow> token_val" where
  "main_token_val ControlRxq = VariantV 0 None"
| "main_token_val ControlTxq = VariantV 1 None"
| "main_token_val MainQuit = VariantV 2 None"

text \<open>The \<^verbatim>\<open>for\<close> loop over the events of one wait. Every event first wakes the control receive ring again.
  \<^verbatim>\<open>break\<close> leaves this loop only.\<close>

fun main_run_events ::
  "(('q, 'w) main_worker \<Rightarrow> ((unit, io_error) rust \<times> ('q, 'w) main_worker) option)
    \<Rightarrow> (('q, 'w) main_worker \<Rightarrow> ((unit, io_error) rust \<times> ('q, 'w) main_worker) option)
    \<Rightarrow> main_token list \<Rightarrow> ('q, 'w) main_worker \<Rightarrow> ((unit, io_error) rust \<times> ('q, 'w) main_worker) option" where
  "main_run_events rx tx [] s = Some (Ok (), s)"
| "main_run_events rx tx (t # ts) s =
     (let (r, n) = evt_write 1 (cc_queue_evt (mw_control s));
          s1 = s\<lparr>mw_control := (mw_control s)\<lparr>cc_queue_evt := n\<rparr>\<rparr>
      in if \<not> is_ok r then Some (Panic, s1)
         else (case t of
                 MainQuit \<Rightarrow> Some (Ok (), s1)
               | _ \<Rightarrow> (case (if t = ControlRxq then rx s1 else tx s1) of
                        None \<Rightarrow> None
                      | Some (Ok _, s2) \<Rightarrow> main_run_events rx tx ts s2
                      | Some (_, s2) \<Rightarrow> Some (Panic, s2))))"

text \<open>\<open>None\<close>: the worker still runs after the given waits, or is inside a loop that does not end.\<close>

fun main_run ::
  "(('q, 'w) main_worker \<Rightarrow> ((unit, io_error) rust \<times> ('q, 'w) main_worker) option)
    \<Rightarrow> (('q, 'w) main_worker \<Rightarrow> ((unit, io_error) rust \<times> ('q, 'w) main_worker) option)
    \<Rightarrow> (io_error + main_token list) list \<Rightarrow> ('q, 'w) main_worker \<Rightarrow> ((unit, io_error) rust \<times> ('q, 'w) main_worker) option" where
  "main_run rx tx [] s = None"
| "main_run rx tx (Inl e # waits) s = Some (Panic, s)"
| "main_run rx tx (Inr ts # waits) s =
     (case main_run_events rx tx ts s of
        None \<Rightarrow> None
      | Some (Ok _, s') \<Rightarrow> main_run rx tx waits s'
      | Some (_, s') \<Rightarrow> Some (Panic, s'))"

section \<open>Lemmas on the event loop\<close>

interpretation main_token: event_token 2 "as_raw_token main_token_ty" "from_raw_token main_token_ty" "has_ty main_token_ty"
  unfolding main_token_ty_def by (rule derived_event_token) (rule three_events_ok)+

lemma main_run_events_no_Err: "main_run_events rx tx ts s \<noteq> Some (Err e, s')"
  by (induction rx tx ts s rule: main_run_events.induct)
    (auto simp: Let_def split: prod.splits main_token.splits option.splits rust.splits)

lemma main_run_outcome: "main_run rx tx waits s = None \<or> (\<exists>s'. main_run rx tx waits s = Some (Panic, s'))"
  by (induction rx tx waits s rule: main_run.induct) (auto split: option.splits prod.splits rust.splits)

section \<open>Lemmas on the ring\<close>

lemma console_popD:
  assumes "console_queue_contract qo pending used"
  shows "pending q = [] \<Longrightarrow> \<exists>q'. wq_pop qo q = (None, q') \<and> used q' = used q"
    and "pending q = c # cs \<Longrightarrow> \<exists>q'. wq_pop qo q = (Some c, q') \<and> pending q' = cs \<and> used q' = used q \<and>
      pending (cq_go_to_previous qo q') = pending q \<and> used (cq_go_to_previous qo q') = used q"
  using assms unfolding console_queue_contract_def worker_queue_contract_def
  by (cases "wq_pop qo q"; fastforce simp: worker_queue_ops.truncate_def)+

lemma console_add_usedD:
  assumes "console_queue_contract qo pending used"
  shows "pending (snd (wq_add_used qo h n q)) = pending q"
    "fst (wq_add_used qo h n q) = Ok () \<Longrightarrow> used (snd (wq_add_used qo h n q)) = used q @ [(h, n)]"
  using assms unfolding console_queue_contract_def worker_queue_contract_def
  by (simp_all add: worker_queue_ops.truncate_def)

section \<open>The control rings\<close>

text \<open>What pairs the messages with the chains, and that every message finds room.\<close>

definition chain_writer :: "('rd, 'w) desc_chain \<Rightarrow> 'w" where
  "chain_writer c = (case ch_writer c of Ok w \<Rightarrow> w)"

definition has_room :: "'w writer_ops \<Rightarrow> ('rd, 'w) desc_chain \<times> payload \<Rightarrow> bool" where
  "has_room wo cm \<longleftrightarrow> is_ok (ch_writer (fst cm)) \<and> length (payload_bytes (snd cm)) \<le> w_available wo (chain_writer (fst cm))"

lemma has_roomD: "has_room wo (c, m) \<Longrightarrow> ch_writer c = Ok (chain_writer c) \<and> length (payload_bytes m) \<le> w_available wo (chain_writer c)"
  by (cases "ch_writer c") (auto simp: has_room_def chain_writer_def)

lemma control_rx_loop_pairs:
  assumes q: "console_queue_contract qo pending used" "\<And>h n q. fst (wq_add_used qo h n q) = Ok ()"
    and w: "writer_contract wo written"
  shows "list_all (has_room wo) (zip (pending q) msgs) \<Longrightarrow>
    \<exists>q' out'. control_rx_loop wo qo msgs raise (q, out)
        = (Ok (raise \<or> (pending q \<noteq> [] \<and> msgs \<noteq> [])), drop (length (pending q)) msgs, q', out @ out') \<and>
      (length msgs < length (pending q) \<longrightarrow> pending q' = drop (length msgs) (pending q)) \<and>
      used q' = used q @ map (\<lambda>(c, m). (ch_head_index c, of_nat (length (payload_bytes m)))) (zip (pending q) msgs) \<and>
      map (\<lambda>(h, w). (h, written w)) out'
        = map (\<lambda>(c, m). (ch_head_index c, written (chain_writer c) @ payload_bytes m)) (zip (pending q) msgs)"
proof (induction msgs arbitrary: q raise out)
  case Nil
  show ?case
  proof (cases "pending q")
    case Nil
    with console_popD(1) [OF q(1) Nil] show ?thesis by auto
  next
    case (Cons c cs)
    with console_popD(2) [OF q(1) Cons] show ?thesis by auto
  qed
next
  case (Cons m ms)
  show ?case
  proof (cases "pending q")
    case Nil
    with console_popD(1) [OF q(1) Nil] show ?thesis by auto
  next
    case (Cons c cs)
    obtain q1 where q1: "wq_pop qo q = (Some c, q1)" "pending q1 = cs" "used q1 = used q"
      using console_popD(2) [OF q(1) Cons] by auto
    let ?n = "length (payload_bytes m)"
    have r: "ch_writer c = Ok (chain_writer c)" "?n \<le> w_available wo (chain_writer c)"
      using Cons.prems Cons has_roomD [of wo c m] by auto
    obtain w1 where w1: "w_write wo (payload_bytes m) (chain_writer c) = (Ok ?n, w1)"
        "written w1 = written (chain_writer c) @ payload_bytes m"
      using w r(2) unfolding writer_contract_def
      by (cases "w_write wo (payload_bytes m) (chain_writer c)") (metis fst_conv min.absorb1 snd_conv take_all)
    let ?q2 = "snd (wq_add_used qo (ch_head_index c) (of_nat ?n) q1)"
    have q2: "pending ?q2 = cs" "used ?q2 = used q @ [(ch_head_index c, of_nat ?n)]"
      using console_add_usedD [OF q(1)] q(2) q1 by simp_all
    have "list_all (has_room wo) (zip (pending ?q2) ms)" using Cons.prems Cons q2 by simp
    from Cons.IH [OF this, of True "out @ [(ch_head_index c, w1)]", unfolded q2(1)] obtain q' out' where i:
      "control_rx_loop wo qo ms True (?q2, out @ [(ch_head_index c, w1)])
        = (Ok True, drop (length cs) ms, q', (out @ [(ch_head_index c, w1)]) @ out')"
      "length ms < length cs \<longrightarrow> pending q' = drop (length ms) cs"
      "used q' = used ?q2 @ map (\<lambda>(c, m). (ch_head_index c, of_nat (length (payload_bytes m)))) (zip cs ms)"
      "map (\<lambda>(h, w). (h, written w)) out' = map (\<lambda>(c, m). (ch_head_index c, written (chain_writer c) @ payload_bytes m)) (zip cs ms)"
      unfolding simp_thms by blast
    have "control_rx_loop wo qo (m # ms) raise (q, out)
        = (Ok True, drop (length (pending q)) (m # ms), q', out @ (ch_head_index c, w1) # out')"
      using q1(1) r(1) w1(1) i(1) Cons by simp
    moreover have "map (\<lambda>(h, w). (h, written w)) ((ch_head_index c, w1) # out')
        = map (\<lambda>(c, m). (ch_head_index c, written (chain_writer c) @ payload_bytes m)) (zip (pending q) (m # ms))"
      unfolding Cons zip_Cons_Cons list.map i(4) by (simp add: w1(2))
    ultimately show ?thesis using i(2,3) q2(2) Cons
      by (intro exI [of _ q'] exI [of _ "(ch_head_index c, w1) # out'"]) (simp del: control_rx_loop.simps)
  qed
qed

text \<open>The transmit loop ends on every finite ring; it returns one element for each message it could read, all of
  them under head index 0.\<close>

definition readable :: "'rd reader \<Rightarrow> ('rd, 'w) desc_chain \<Rightarrow> bool" where
  "readable rd c \<longleftrightarrow> is_ok (and_then (map_err (\<lambda>_. ()) (ch_reader c)) (\<lambda>r. map_err (\<lambda>_. ()) (fst (rd 8 r))))"

lemma handle_control_no_Err: "fst (handle_control ports cmd c) \<noteq> Err e"
  by (simp add: handle_control_def port_ready_def Let_def)

lemma control_tx_loop_ends:
  assumes "console_queue_contract qo pending used" "\<And>h n q. fst (wq_add_used qo h n q) = Ok ()"
  shows "\<exists>r c' q'. control_tx_loop rd qo ports raise (c, q) = Some (r, c', q') \<and>
    (r \<noteq> Panic \<longrightarrow> used q' = used q @ map (\<lambda>_. (0, 8)) (filter (readable rd) (pending q)) \<and> r = Ok (raise \<or> pending q \<noteq> []))"
proof (induction "pending q" arbitrary: q c raise)
  case Nil
  then obtain q' where "wq_pop qo q = (None, q')" "used q' = used q" using console_popD(1) [OF assms(1)] by metis
  with Nil show ?case by (subst control_tx_loop.simps) simp
next
  case (Cons ch cs)
  obtain q1 where q1: "wq_pop qo q = (Some ch, q1)" "pending q1 = cs" "used q1 = used q"
    using console_popD(2) [OF assms(1)] Cons.hyps(2) by metis
  show ?case
  proof (cases "ch_reader ch")
    case (Ok reader)
    show ?thesis
    proof (cases "fst (rd 8 reader)")
      case (Ok bytes)
      let ?q2 = "snd (wq_add_used qo 0 8 q1)" and ?cmd = "get virtio_console_control_layout bytes"
      have q2: "cs = pending ?q2" "used ?q2 = used q @ [(0, 8)]"
        using console_add_usedD [OF assms(1)] assms(2) q1 by simp_all
      obtain r c1 where h: "handle_control ports ?cmd c = (r, c1)" by fastforce
      have rd: "readable rd ch" using \<open>ch_reader ch = Ok reader\<close> Ok by (simp add: readable_def)
      show ?thesis
      proof (cases r)
        case (Ok u)
        have "control_tx_loop rd qo ports raise (c, q) = control_tx_loop rd qo ports True (c1, ?q2)"
          using q1(1) \<open>ch_reader ch = Ok reader\<close> \<open>fst (rd 8 reader) = Ok bytes\<close> h Ok by (subst control_tx_loop.simps) simp
        with Cons.hyps(1) [OF q2(1), of True c1] q2 Cons.hyps(2) rd show ?thesis by (fold Cons.hyps(2)) auto
      next
        case (Err e)
        with h handle_control_no_Err [of ports ?cmd c e] show ?thesis by simp
      next
        case Panic
        then show ?thesis
          using q1(1) \<open>ch_reader ch = Ok reader\<close> Ok h by (subst control_tx_loop.simps) simp
      qed
    next
      case (Err e)
      have "control_tx_loop rd qo ports raise (c, q) = control_tx_loop rd qo ports True (c, q1)"
        using q1(1) \<open>ch_reader ch = Ok reader\<close> Err by (subst control_tx_loop.simps) simp
      moreover have "\<not> readable rd ch" using \<open>ch_reader ch = Ok reader\<close> Err by (simp add: readable_def)
      ultimately show ?thesis using Cons.hyps(1) [of q1 True c] q1 by (fold Cons.hyps(2)) auto
    next
      case Panic
      then show ?thesis using q1(1) \<open>ch_reader ch = Ok reader\<close> by (subst control_tx_loop.simps) simp
    qed
  qed (use q1(1) in \<open>subst control_tx_loop.simps, simp\<close>)+
qed

section \<open>Messages\<close>

lemma push_payload_queue [simp]: "cc_queue (push_payload m c) = cc_queue c @ [m]"
  by (simp add: push_payload_def)

lemmas message_defs = push_msg_def push_vec_def port_add_def port_open_def mark_console_port_def console_resize_def port_name_def

lemma fold_port_add:
  "cc_queue (fold (\<lambda>i. port_add (of_nat i)) is c)
    = cc_queue c @ map (\<lambda>i. ControlPayload \<lparr>vcc_id = of_nat i, vcc_event = VIRTIO_CONSOLE_PORT_ADD, vcc_value = 0\<rparr>) is"
  by (induction "is" arbitrary: c) (simp_all add: port_add_def push_msg_def)

text \<open>What the guest is told about a port that is ready.\<close>

definition ready_messages :: "port \<Rightarrow> u32 \<Rightarrow> payload list" where
  "ready_messages p i =
     (let msg = (\<lambda>event value. \<lparr>vcc_id = i, vcc_event = event, vcc_value = value\<rparr>)
      in (if po_represents_console p then [ControlPayload (msg VIRTIO_CONSOLE_CONSOLE_PORT 1)] else [])
         @ [ControlPayload (msg VIRTIO_CONSOLE_PORT_OPEN 1)]
         @ (if po_represents_console p
            then [BytesPayload (put virtio_console_control_layout (msg VIRTIO_CONSOLE_RESIZE 0)
                    @ put virtio_console_resize_layout \<lparr>vcr_rows = 24, vcr_cols = 80\<rparr>)] else [])
         @ (if po_name p = [] then []
            else [BytesPayload (put virtio_console_control_layout (msg VIRTIO_CONSOLE_PORT_NAME 1) @ name_bytes (po_name p))]))"

lemma fst_port_ready: "fst (port_ready ports i c) = (if unat i < length ports then Ok () else Panic)"
  by (simp add: port_ready_def Let_def)

lemma port_ready_messages:
  "cc_queue (snd (port_ready ports i c)) = cc_queue c @ (if unat i < length ports then ready_messages (ports ! unat i) i else [])"
  by (simp add: port_ready_def ready_messages_def message_defs get_win_size_def Let_def)

section \<open>A ring as two lists\<close>

definition list_console_queue :: "(('rd, 'w) desc_chain list \<times> ('rd, 'w) desc_chain list \<times> (u16 \<times> u32) list, 'rd, 'w) console_queue_ops" where
  "list_console_queue = \<lparr>
     wq_pop = (\<lambda>(past, cs, us). case cs of [] \<Rightarrow> (None, past, [], us) | c # cs' \<Rightarrow> (Some c, c # past, cs', us)),
     wq_add_used = (\<lambda>h n (past, cs, us). (Ok (), past, cs, us @ [(h, n)])), wq_event_idx_enabled = (\<lambda>_. False),
     wq_disable_notification = (\<lambda>q. (Ok (), q)), wq_enable_notification = (\<lambda>q. (Ok False, q)),
     cq_go_to_previous = (\<lambda>(past, cs, us). (tl past, hd past # cs, us))\<rparr>"

lemma list_console_queue_contract:
  "console_queue_contract list_console_queue (\<lambda>q. fst (snd q)) (\<lambda>q. snd (snd q))"
  by (auto simp: console_queue_contract_def worker_queue_contract_def list_console_queue_def worker_queue_ops.truncate_def)

lemma list_console_queue_used: "fst (wq_add_used list_console_queue h n q) = Ok ()"
  by (cases q) (simp add: list_console_queue_def)

section \<open>Properties\<close>

text \<open>C10: the control receive ring against its specification, the pairing in order of the waiting messages with the
  waiting chains: as long as every message has room, each chain holds exactly the bytes of its message and is returned
  with their number, messages without a chain keep waiting and chains without a message stay in the ring, and the
  guest is signalled exactly when something was delivered.\<close>

theorem control_messages_delivered:
  assumes "console_queue_contract qo pending used" "\<And>h n q. fst (wq_add_used qo h n q) = Ok ()"
    and "writer_contract wo written" "list_all (has_room wo) (zip (pending (fst (mw_rx s))) (cc_queue (mw_control s)))"
  shows "let chains = pending (fst (mw_rx s)); msgs = cc_queue (mw_control s);
      (r, s') = control_process_rx wo qo (Ok True) True signal s
    in r = (if chains \<noteq> [] \<and> msgs \<noteq> [] then unwrap signal else Ok ()) \<and>
       cc_queue (mw_control s') = drop (length chains) msgs \<and>
       (length msgs < length chains \<longrightarrow> pending (fst (mw_rx s')) = drop (length msgs) chains) \<and>
       used (fst (mw_rx s')) = used (fst (mw_rx s)) @ map (\<lambda>(c, m). (ch_head_index c, of_nat (length (payload_bytes m)))) (zip chains msgs) \<and>
       map (\<lambda>(h, w). (h, written w)) (snd (mw_rx s')) = map (\<lambda>(h, w). (h, written w)) (snd (mw_rx s))
         @ map (\<lambda>(c, m). (ch_head_index c, written (chain_writer c) @ payload_bytes m)) (zip chains msgs)"
proof -
  obtain q out where rx: "mw_rx s = (q, out)" by fastforce
  with control_rx_loop_pairs [OF assms(1-3), of q "cc_queue (mw_control s)" False out] assms(4)
  obtain q' out' where l: "control_rx_loop wo qo (cc_queue (mw_control s)) False (q, out)
      = (Ok (pending q \<noteq> [] \<and> cc_queue (mw_control s) \<noteq> []), drop (length (pending q)) (cc_queue (mw_control s)), q', out @ out')"
    "length (cc_queue (mw_control s)) < length (pending q) \<longrightarrow> pending q' = drop (length (cc_queue (mw_control s))) (pending q)"
    "used q' = used q @ map (\<lambda>(c, m). (ch_head_index c, of_nat (length (payload_bytes m)))) (zip (pending q) (cc_queue (mw_control s)))"
    "map (\<lambda>(h, w). (h, written w)) out'
      = map (\<lambda>(c, m). (ch_head_index c, written (chain_writer c) @ payload_bytes m)) (zip (pending q) (cc_queue (mw_control s)))"
    by auto
  then show ?thesis by (simp add: control_process_rx_def rx Let_def)
qed

type_synonym sample_ring = "(u8 list, u8 list \<times> nat) desc_chain list \<times> (u8 list, u8 list \<times> nat) desc_chain list \<times> (u16 \<times> u32) list"

definition sample_main :: "(sample_ring, u8 list \<times> nat) main_worker" where
  "sample_main = \<lparr>mw_control = port_add 1 console_control_new,
     mw_ports = [\<lparr>po_port_id = 0, po_name = '''', po_represents_console = True, po_state = Inactive, po_input = Some 0, po_output = Some 1\<rparr>],
     mw_rx = (([], [\<lparr>ch_head_index = 4, ch_reader = Err 0, ch_writer = Ok ([], 64)\<rparr>], []), []),
     mw_tx = ([], [\<lparr>ch_head_index = 9, ch_reader = Ok [0, 0, 0, 0, 0, 0, 1, 0], ch_writer = Err 0\<rparr>], [])\<rparr>"

theorem control_messages_delivered_witness:
  "cc_queue (mw_control (snd (control_process_rx list_writer list_console_queue (Ok True) True (Ok ()) sample_main))) = [] \<and>
   snd (snd (fst (mw_rx (snd (control_process_rx list_writer list_console_queue (Ok True) True (Ok ()) sample_main))))) = [(4, 8)]"
proof -
  have r: "list_all (has_room list_writer) (zip (fst (snd (fst (mw_rx sample_main)))) (cc_queue (mw_control sample_main)))"
    by (simp add: sample_main_def port_add_def push_msg_def push_payload_def console_control_new_def has_room_def chain_writer_def
        list_writer_def console_control_bytes.put_length)
  show ?thesis
    using control_messages_delivered [OF list_console_queue_contract list_console_queue_used writer_contract_list_writer r, of "Ok ()"]
    by (simp add: Let_def split_beta sample_main_def port_add_def push_msg_def push_payload_def console_control_new_def
        console_control_bytes.put_length)
qed

text \<open>C30: handling the control transmit ring ends, for any finite number of waiting messages; unless the worker panics,
  exactly one element is returned per readable message. All of them name descriptor 0 instead of the head of
  their chain.\<close>

theorem control_tx_ends:
  assumes "console_queue_contract qo pending used" "\<And>h n q. fst (wq_add_used qo h n q) = Ok ()"
  shows "\<exists>r s'. control_process_tx rd qo (Ok True) True signal s = Some (r, s') \<and>
    (r \<noteq> Panic \<longrightarrow> used (mw_tx s') = used (mw_tx s) @ map (\<lambda>_. (0, 8)) (filter (readable rd) (pending (mw_tx s))))"
proof -
  obtain r c' q' where "control_tx_loop rd qo (mw_ports s) False (mw_control s, mw_tx s) = Some (r, c', q')"
    "r \<noteq> Panic \<longrightarrow> used q' = used (mw_tx s) @ map (\<lambda>_. (0, 8)) (filter (readable rd) (pending (mw_tx s)))"
    using control_tx_loop_ends [OF assms, of rd "mw_ports s" False "mw_control s" "mw_tx s"] by blast
  then show ?thesis by (cases r) (auto simp: control_process_tx_def)
qed

theorem control_tx_ends_witness:
  "\<exists>r s'. control_process_tx list_reader list_console_queue (Ok True) True (Ok ()) sample_main = Some (r, s') \<and>
    (r \<noteq> Panic \<longrightarrow> snd (snd (mw_tx s')) = [(0, 8)])"
  using control_tx_ends [OF list_console_queue_contract list_console_queue_used, of list_reader "Ok ()" sample_main]
  by (simp add: sample_main_def readable_def list_reader_def)

text \<open>C39: what a message of the guest does. \<^verbatim>\<open>DEVICE_READY\<close> announces every port in order; \<^verbatim>\<open>PORT_READY\<close> for a port that
  exists opens it, a console port being marked and sized before its name is sent; the worker panics exactly when the
  guest names a port that does not exist in a successful \<^verbatim>\<open>PORT_READY\<close>; everything else changes nothing.\<close>

theorem guest_messages_handled:
  "(fst (handle_control ports cmd c) = Panic \<longleftrightarrow>
      vcc_event cmd = VIRTIO_CONSOLE_PORT_READY \<and> vcc_value cmd = 1 \<and> unat (vcc_id cmd) \<ge> length ports) \<and>
   cc_queue (snd (handle_control ports cmd c)) = cc_queue c @
     (if vcc_event cmd = VIRTIO_CONSOLE_DEVICE_READY
      then map (\<lambda>i. ControlPayload \<lparr>vcc_id = of_nat i, vcc_event = VIRTIO_CONSOLE_PORT_ADD, vcc_value = 0\<rparr>) [0..<length ports]
      else if vcc_event cmd = VIRTIO_CONSOLE_PORT_READY \<and> vcc_value cmd = 1 \<and> unat (vcc_id cmd) < length ports
      then ready_messages (ports ! unat (vcc_id cmd)) (vcc_id cmd)
      else [])"
  by (simp add: handle_control_def port_ready_messages fold_port_add VIRTIO_CONSOLE_DEVICE_READY_def VIRTIO_CONSOLE_PORT_READY_def
      fst_port_ready)

text \<open>The main worker never returns: over any answers of \<^verbatim>\<open>wait\<close> and whatever its handlers do, it still runs or
  has panicked. A quit event only ends the batch of events it came with, so the thread that stops the console
  waits for it in vain.\<close>

lemma main_worker_never_returns:
  "main_run rx tx waits s \<noteq> Some (Ok (), s') \<and>
   (cc_queue_evt (mw_control s) + 1 < 2 ^ 64 - 1 \<longrightarrow>
     main_run rx tx (Inr (MainQuit # ts) # waits) s
       = main_run rx tx waits (s\<lparr>mw_control := (mw_control s)\<lparr>cc_queue_evt := cc_queue_evt (mw_control s) + 1\<rparr>\<rparr>))"
  using main_run_outcome [of rx tx waits s] by (auto simp: evt_write_def)

lemma main_worker_never_returns_witness:
  "main_run (\<lambda>s. Some (Ok (), s)) (\<lambda>s. Some (Ok (), s)) [Inr [MainQuit]] sample_main = None"
proof -
  have "cc_queue_evt (mw_control sample_main) + 1 < 2 ^ 64 - 1"
    by (simp add: sample_main_def port_add_def push_msg_def push_payload_def console_control_new_def evt_write_def)
  with main_worker_never_returns [of "\<lambda>s. Some (Ok (), s)" "\<lambda>s. Some (Ok (), s)" "[]" sample_main sample_main "[]"]
  show ?thesis by simp
qed

end
