(* ===== verification/Console_Io.thy ===== *)
theory Console_Io
  imports Console_Ports Bitmap
begin

text \<open>
  The threads of a console port: \<^verbatim>\<open>process_rx\<close>, which moves what can be read from the port's input into
  the chains of its receive ring, \<^verbatim>\<open>process_tx\<close>, which moves the chains of the transmit ring to the
  output, and the file-descriptor input of \<^verbatim>\<open>port_io.rs\<close>. The input and the output are parameters with a
  state of their own; so are the ring and \<^verbatim>\<open>try_access\<close> of \<^verbatim>\<open>vm_memory\<close>, which calls back for
  every piece of guest memory that a descriptor spans (\<open>access_contract\<close>). A loop that does not end is \<open>None\<close>.
\<close>

section \<open>Rings, chains and guest memory\<close>

record descriptor =
  de_addr :: u64
  de_len :: u32
  de_write_only :: bool

record io_chain =
  ioc_head_index :: u16
  ioc_descriptors :: "descriptor list"

record 'q io_queue_ops =
  ioq_pop :: "'q \<Rightarrow> io_chain option \<times> 'q"
  ioq_add_used :: "u16 \<Rightarrow> u32 \<Rightarrow> ('q, unit, nat) rust_method"
  ioq_go_to_previous :: "'q \<Rightarrow> 'q"

definition io_queue_contract :: "'q io_queue_ops \<Rightarrow> ('q \<Rightarrow> io_chain list) \<Rightarrow> ('q \<Rightarrow> (u16 \<times> u32) list) \<Rightarrow> bool" where
  "io_queue_contract qo pending used \<longleftrightarrow>
     (\<forall>q. pending q = [] \<longrightarrow> fst (ioq_pop qo q) = None \<and> used (snd (ioq_pop qo q)) = used q) \<and>
     (\<forall>q c cs. pending q = c # cs \<longrightarrow>
        fst (ioq_pop qo q) = Some c \<and> pending (snd (ioq_pop qo q)) = cs \<and> used (snd (ioq_pop qo q)) = used q \<and>
        pending (ioq_go_to_previous qo (snd (ioq_pop qo q))) = c # cs \<and>
        used (ioq_go_to_previous qo (snd (ioq_pop qo q))) = used q) \<and>
     (\<forall>h n q. fst (ioq_add_used qo h n q) = Ok () \<and> used (snd (ioq_add_used qo h n q)) = used q @ [(h, n)] \<and>
        pending (snd (ioq_add_used qo h n q)) = pending q)"

datatype guest_memory_error = GmIOError io_error | GmOther nat

text \<open>What accessing a piece of memory at an address, of a length, does to a state.\<close>

type_synonym 'st piece_access = "u64 \<Rightarrow> nat \<Rightarrow> 'st \<Rightarrow> ((nat, guest_memory_error) rust \<times> 'st) option"

type_synonym 'st try_access = "nat \<Rightarrow> u64 \<Rightarrow> 'st piece_access \<Rightarrow> 'st \<Rightarrow> ((nat, guest_memory_error) rust \<times> 'st) option"

text \<open>\<^verbatim>\<open>try_access\<close> returns when the pieces do; it reports the sum of what the pieces reported, at most the length
  that was asked for, and if no piece fails it fails only before the first one. The sum is followed by
  an arbitrary invariant \<open>I\<close> of the states.\<close>

definition piece_total :: "'st piece_access \<Rightarrow> bool" where
  "piece_total f \<longleftrightarrow> (\<forall>a m s. \<exists>k s'. f a m s = Some (Ok k, s') \<and> k \<le> m)"

definition access_contract :: "'st try_access \<Rightarrow> bool" where
  "access_contract ta \<longleftrightarrow>
     (\<forall>n addr f s I. piece_total f \<longrightarrow> I 0 s \<longrightarrow> (\<forall>a m t s k s'. I t s \<longrightarrow> f a m s = Some (Ok k, s') \<longrightarrow> I (t + k) s') \<longrightarrow>
        (\<exists>r s'. ta n addr f s = Some (r, s') \<and>
           ((\<exists>k\<le>n. r = Ok k \<and> I k s') \<or> (\<exists>e. r = Err e \<and> I 0 s'))))"

section \<open>Receiving\<close>

text \<open>\<^verbatim>\<open>read_volatile\<close> of the port's input into a piece of memory.\<close>

type_synonym 'i port_read = "u64 \<Rightarrow> nat \<Rightarrow> ('i, nat, io_error) rust_method"

definition read_piece :: "'i port_read \<Rightarrow> ('i \<times> bool) piece_access" where
  "read_piece rdv a n st =
     (let (i, eof) = st; (r, i') = rdv a n i
      in Some (case r of
                 Ok k \<Rightarrow> (Ok k, i', eof \<or> k = 0)
               | Err e \<Rightarrow> (if e = WouldBlock then Ok 0 else Err (GmIOError e), i', eof)
               | Panic \<Rightarrow> (Panic, i', eof)))"

definition read_to_desc ::
  "('i \<times> bool) try_access \<Rightarrow> 'i port_read \<Rightarrow> descriptor \<Rightarrow> 'i \<times> bool \<Rightarrow> ((nat, guest_memory_error) rust \<times> 'i \<times> bool) option" where
  "read_to_desc ta rdv d = ta (unat (de_len d)) (de_addr d) (read_piece rdv)"

text \<open>The \<^verbatim>\<open>for\<close> loop over the descriptors; it returns the bytes read and whether to signal.\<close>

fun rx_descs ::
  "('i \<times> bool) try_access \<Rightarrow> 'i port_read \<Rightarrow> descriptor list \<Rightarrow> nat \<Rightarrow> bool \<Rightarrow> 'i \<times> bool
    \<Rightarrow> ((nat \<times> bool, guest_memory_error) rust \<times> 'i \<times> bool) option" where
  "rx_descs ta rdv [] bytes_read signal st = Some (Ok (bytes_read, signal), st)"
| "rx_descs ta rdv (d # ds) bytes_read signal st =
     (case read_to_desc ta rdv d st of
        None \<Rightarrow> None
      | Some (r, st') \<Rightarrow>
          (case r of
             Ok len \<Rightarrow> if len = 0 then Some (Ok (bytes_read, signal), st')
                       else rx_descs ta rdv ds (bytes_read + len) True st'
           | Err _ \<Rightarrow> rx_descs ta rdv ds bytes_read signal st'
           | Panic \<Rightarrow> Some (Panic, st')))"

text \<open>\<open>rx_notified\<close> counts the calls of \<^verbatim>\<open>signal_used_queue\<close>.\<close>

record ('i, 'q) rx_state =
  rx_signal :: bool
  rx_eof :: bool
  rx_input :: 'i
  rx_queue :: 'q
  rx_control :: console_control
  rx_notified :: nat

datatype chains_exit = QueueEmpty | ContinueEvents | BreakEvents

text \<open>The \<^verbatim>\<open>while let\<close> loop over the chains.\<close>

partial_function (option) rx_chains ::
  "('i \<times> bool) try_access \<Rightarrow> 'i port_read \<Rightarrow> 'q io_queue_ops \<Rightarrow> u32 \<Rightarrow> ('i, 'q) rx_state
    \<Rightarrow> ((chains_exit, guest_memory_error) rust \<times> ('i, 'q) rx_state) option" where
  "rx_chains ta rdv qo port_id s =
     (let (chain, q1) = ioq_pop qo (rx_queue s)
      in case chain of
           None \<Rightarrow> Some (Ok QueueEmpty, s\<lparr>rx_queue := q1\<rparr>)
         | Some c \<Rightarrow>
             (case rx_descs ta rdv (filter de_write_only (ioc_descriptors c)) 0 (rx_signal s) (rx_input s, rx_eof s) of
                None \<Rightarrow> None
              | Some (r, i, eof) \<Rightarrow>
                  (case r of
                     Ok (bytes_read, signal) \<Rightarrow>
                       (let s1 = s\<lparr>rx_signal := signal, rx_eof := eof, rx_input := i\<rparr>
                        in if bytes_read = 0 then Some (Ok ContinueEvents, s1\<lparr>rx_queue := ioq_go_to_previous qo q1\<rparr>)
                           else let s2 = s1\<lparr>rx_queue := snd (ioq_add_used qo (ioc_head_index c) (of_nat bytes_read) q1)\<rparr>
                                in if eof then Some (Ok BreakEvents, s2\<lparr>rx_control := port_open port_id False (rx_control s2)\<rparr>)
                                   else rx_chains ta rdv qo port_id s2)
                   | _ \<Rightarrow> Some (Panic, s\<lparr>rx_eof := eof, rx_input := i, rx_queue := q1\<rparr>))))"

text \<open>The event loop over the answers of \<^verbatim>\<open>wait_one\<close>, each with the answers of \<^verbatim>\<open>read_kick\<close> and whether the ring
  can be locked; \<open>signal\<close> is the outcome of \<^verbatim>\<open>signal_used_queue\<close>.\<close>

datatype port_token = PortStop | PortQueue | PortIO

record port_event =
  pe_token :: "(port_token, io_error) rust"
  pe_kicked :: "(bool, io_error) rust"
  pe_available :: bool

definition rx_notify :: "(unit, io_error) rust \<Rightarrow> ('i, 'q) rx_state \<Rightarrow> (unit, guest_memory_error) rust \<times> ('i, 'q) rx_state" where
  "rx_notify signal s = (if rx_signal s then (unwrap signal, s\<lparr>rx_notified := rx_notified s + 1\<rparr>) else (Ok (), s))"

fun process_rx ::
  "('i \<times> bool) try_access \<Rightarrow> 'i port_read \<Rightarrow> 'q io_queue_ops \<Rightarrow> (unit, io_error) rust \<Rightarrow> u32 \<Rightarrow> port_event list
    \<Rightarrow> ('i, 'q) rx_state \<Rightarrow> ((unit, guest_memory_error) rust \<times> ('i, 'q) rx_state) option" where
  "process_rx ta rdv qo signal port_id [] s = None"
| "process_rx ta rdv qo signal port_id (ev # evs) s =
     (let (r, s0) = rx_notify signal s; s1 = s0\<lparr>rx_signal := False\<rparr>
      in if \<not> is_ok r then Some (Panic, s0)
         else case pe_token ev of
                Ok PortStop \<Rightarrow> Some (Ok (), s1)
              | Ok _ \<Rightarrow>
                  (case pe_kicked ev of
                     Ok k \<Rightarrow>
                       if \<not> k \<or> \<not> pe_available ev then process_rx ta rdv qo signal port_id evs s1
                       else (case rx_chains ta rdv qo port_id s1 of
                               None \<Rightarrow> None
                             | Some (Ok ContinueEvents, s2) \<Rightarrow> process_rx ta rdv qo signal port_id evs s2
                             | Some (Ok BreakEvents, s2) \<Rightarrow> Some (Ok (), s2)
                             | Some (Ok QueueEmpty, s2) \<Rightarrow>
                                 (let (r2, s3) = rx_notify signal s2
                                  in if is_ok r2 then process_rx ta rdv qo signal port_id evs s3 else Some (Panic, s3))
                             | Some (_, s2) \<Rightarrow> Some (Panic, s2))
                   | _ \<Rightarrow> Some (Panic, s1))
              | _ \<Rightarrow> Some (Panic, s1))"

section \<open>Transmitting\<close>

text \<open>\<^verbatim>\<open>write_volatile\<close> of the port's output, and \<^verbatim>\<open>wait_until_writable\<close>.\<close>

record 'o port_output =
  out_write :: "u64 \<Rightarrow> nat \<Rightarrow> ('o, nat, io_error) rust_method"
  out_wait :: "'o \<Rightarrow> 'o"

partial_function (option) write_piece :: "'o port_output \<Rightarrow> 'o piece_access" where
  "write_piece po a n st =
     (let (r, o1) = out_write po a n st
      in case r of
           Ok k \<Rightarrow> Some (Ok k, o1)
         | Err e \<Rightarrow> (if e = WouldBlock then write_piece po a n (out_wait po o1) else Some (Err (GmIOError e), o1))
         | Panic \<Rightarrow> Some (Panic, o1))"

definition write_desc_to_output ::
  "'o try_access \<Rightarrow> 'o port_output \<Rightarrow> descriptor \<Rightarrow> 'o \<Rightarrow> ((nat, guest_memory_error) rust \<times> 'o) option" where
  "write_desc_to_output ta po d = ta (unat (de_len d)) (de_addr d) (write_piece po)"

fun tx_descs ::
  "'o try_access \<Rightarrow> 'o port_output \<Rightarrow> descriptor list \<Rightarrow> nat \<Rightarrow> bool \<Rightarrow> 'o
    \<Rightarrow> ((nat \<times> bool, guest_memory_error) rust \<times> 'o) option" where
  "tx_descs ta po [] bytes_written signal st = Some (Ok (bytes_written, signal), st)"
| "tx_descs ta po (d # ds) bytes_written signal st =
     (case write_desc_to_output ta po d st of
        None \<Rightarrow> None
      | Some (r, st') \<Rightarrow>
          (case r of
             Ok n \<Rightarrow> if n = 0 then Some (Ok (bytes_written, signal), st')
                     else if n \<noteq> unat (de_len d) then Some (Panic, st')
                     else tx_descs ta po ds (bytes_written + n) True st'
           | Err _ \<Rightarrow> tx_descs ta po ds bytes_written signal st'
           | Panic \<Rightarrow> Some (Panic, st')))"

record ('o, 'q) tx_state =
  tx_signal :: bool
  tx_output :: 'o
  tx_queue :: 'q
  tx_notified :: nat

partial_function (option) tx_chains ::
  "'o try_access \<Rightarrow> 'o port_output \<Rightarrow> 'q io_queue_ops \<Rightarrow> ('o, 'q) tx_state
    \<Rightarrow> ((unit, guest_memory_error) rust \<times> ('o, 'q) tx_state) option" where
  "tx_chains ta po qo s =
     (let (chain, q1) = ioq_pop qo (tx_queue s)
      in case chain of
           None \<Rightarrow> Some (Ok (), s\<lparr>tx_queue := q1\<rparr>)
         | Some c \<Rightarrow>
             (case tx_descs ta po (filter (Not \<circ> de_write_only) (ioc_descriptors c)) 0 (tx_signal s) (tx_output s) of
                None \<Rightarrow> None
              | Some (r, st) \<Rightarrow>
                  (case r of
                     Ok (bytes_written, signal) \<Rightarrow>
                       (let s1 = s\<lparr>tx_signal := signal, tx_output := st\<rparr>
                        in if bytes_written = 0 then Some (Ok (), s1\<lparr>tx_queue := ioq_go_to_previous qo q1\<rparr>)
                           else tx_chains ta po qo
                                  (s1\<lparr>tx_queue := snd (ioq_add_used qo (ioc_head_index c) (of_nat bytes_written) q1)\<rparr>))
                   | _ \<Rightarrow> Some (Panic, s\<lparr>tx_output := st, tx_queue := q1\<rparr>))))"

fun process_tx ::
  "'o try_access \<Rightarrow> 'o port_output \<Rightarrow> 'q io_queue_ops \<Rightarrow> (unit, io_error) rust \<Rightarrow> port_event list
    \<Rightarrow> ('o, 'q) tx_state \<Rightarrow> ((unit, guest_memory_error) rust \<times> ('o, 'q) tx_state) option" where
  "process_tx ta po qo signal [] s = None"
| "process_tx ta po qo signal (ev # evs) s =
     (let s0 = (if tx_signal s then s\<lparr>tx_notified := tx_notified s + 1\<rparr> else s); s1 = s0\<lparr>tx_signal := False\<rparr>
      in if tx_signal s \<and> \<not> is_ok signal then Some (Panic, s0)
         else case pe_token ev of
                Ok PortStop \<Rightarrow> Some (Ok (), s1)
              | Ok _ \<Rightarrow>
                  (case pe_kicked ev of
                     Ok k \<Rightarrow>
                       if \<not> k \<or> \<not> pe_available ev then process_tx ta po qo signal evs s1
                       else (case tx_chains ta po qo s1 of
                               None \<Rightarrow> None
                             | Some (Ok _, s2) \<Rightarrow> process_tx ta po qo signal evs s2
                             | Some (_, s2) \<Rightarrow> Some (Panic, s2))
                   | _ \<Rightarrow> Some (Panic, s1))
              | _ \<Rightarrow> Some (Panic, s1))"

section \<open>File descriptors\<close>

text \<open>\<^verbatim>\<open>PortEvent\<close>: a descriptor with the events to wait for; both directions are edge-triggered.\<close>

definition port_event_register_self :: "'ep epoll_ctl \<Rightarrow> nat \<times> u32 \<Rightarrow> u64 \<Rightarrow> ('ep, unit, io_error) rust_method" where
  "port_event_register_self ctl ev token = ctl CtlAdd (fst ev) (snd ev, token)"

definition port_event_unregister_self :: "'ep epoll_ctl \<Rightarrow> nat \<times> u32 \<Rightarrow> ('ep, unit, io_error) rust_method" where
  "port_event_unregister_self ctl ev = ctl CtlDelete (fst ev) (snd ev, 0)"

definition input_ready_event :: "event_bits \<Rightarrow> u32 \<Rightarrow> nat \<Rightarrow> nat \<times> u32" where
  "input_ready_event eb edge_triggered fd = (fd, ev_in eb OR edge_triggered)"

definition output_ready_event :: "event_bits \<Rightarrow> u32 \<Rightarrow> nat \<Rightarrow> nat \<times> u32" where
  "output_ready_event eb edge_triggered fd = (fd, ev_out eb OR edge_triggered)"

text \<open>\<^verbatim>\<open>PortInputFd::read_volatile\<close> into a slice of length \<open>len\<close>; \<open>res\<close> is the outcome of \<^verbatim>\<open>read(2)\<close>.\<close>

definition input_fd_read :: "bitmap_region \<Rightarrow> nat \<Rightarrow> (nat, io_error) rust \<Rightarrow> (log_store, nat, io_error) rust_method" where
  "input_fd_read bitmap len res st =
     (case res of
        Err e \<Rightarrow>
          (let (r, st') = (if e \<noteq> WouldBlock then region_mark_dirty bitmap 0 len st else (Ok (), st))
           in (and_then r (\<lambda>_. Err e), st'))
      | Ok bytes_read \<Rightarrow> (let (r, st') = region_mark_dirty bitmap 0 bytes_read st in (and_then r (\<lambda>_. Ok bytes_read), st'))
      | Panic \<Rightarrow> (Panic, st))"

datatype volatile_memory_error = VolatileIOError io_error | VolatileOther nat

definition output_fd_write :: "(nat, volatile_memory_error) rust \<Rightarrow> (nat, io_error) rust" where
  "output_fd_write = map_err (\<lambda>e. case e of VolatileIOError x \<Rightarrow> x | VolatileOther x \<Rightarrow> OtherIo x)"

section \<open>Tokens\<close>

text \<open>The two threads number their events differently.\<close>

fun rx_token_val :: "port_token \<Rightarrow> token_val" where
  "rx_token_val PortQueue = VariantV 0 None"
| "rx_token_val PortIO = VariantV 1 None"
| "rx_token_val PortStop = VariantV 2 None"

fun tx_token_val :: "port_token \<Rightarrow> token_val" where
  "tx_token_val PortStop = VariantV 0 None"
| "tx_token_val PortQueue = VariantV 1 None"
| "tx_token_val PortIO = VariantV 2 None"

definition port_token_ty :: token_ty where
  "port_token_ty = EnumTy [None, None, None]"

interpretation port_token: event_token 2 "as_raw_token port_token_ty" "from_raw_token port_token_ty" "has_ty port_token_ty"
  unfolding port_token_ty_def by (rule derived_event_token) (rule three_events_ok)+

section \<open>What the port takes from its input\<close>

text \<open>\<open>taken\<close> counts the bytes taken from the input; an input that has nothing to give would block.\<close>

definition port_read_contract :: "'i port_read \<Rightarrow> ('i \<Rightarrow> nat) \<Rightarrow> bool" where
  "port_read_contract rdv taken \<longleftrightarrow>
     (\<forall>a m i. \<exists>r i'. rdv a m i = (r, i') \<and>
        ((\<exists>k\<le>m. r = Ok k \<and> taken i' = taken i + k) \<or> (r = Err WouldBlock \<and> taken i' = taken i)))"

lemma read_piece_ok:
  assumes "port_read_contract rdv taken"
  shows "\<exists>k i' eof'. read_piece rdv a m (i, eof) = Some (Ok k, i', eof') \<and> k \<le> m \<and> taken i' = taken i + k"
proof -
  obtain r i' where "rdv a m i = (r, i')"
    "(\<exists>k\<le>m. r = Ok k \<and> taken i' = taken i + k) \<or> (r = Err WouldBlock \<and> taken i' = taken i)"
    using assms unfolding port_read_contract_def by meson
  then show ?thesis by (auto simp: read_piece_def)
qed

lemma access_contractD:
  assumes "access_contract ta" "piece_total f" "I 0 s" "\<And>a m t s k s'. I t s \<Longrightarrow> f a m s = Some (Ok k, s') \<Longrightarrow> I (t + k) s'"
  shows "\<exists>r s'. ta n addr f s = Some (r, s') \<and> ((\<exists>k\<le>n. r = Ok k \<and> I k s') \<or> (\<exists>e. r = Err e \<and> I 0 s'))"
  by (rule assms(1) [unfolded access_contract_def, THEN spec, THEN spec, THEN spec, THEN spec, THEN spec, THEN mp, THEN mp, THEN mp])
    (use assms(2-4) in blast)+

lemma read_to_desc_ok:
  assumes "access_contract ta" "port_read_contract rdv taken"
  shows "\<exists>r i' eof'. read_to_desc ta rdv d (i, eof) = Some (r, i', eof') \<and>
    ((\<exists>k\<le>unat (de_len d). r = Ok k \<and> taken i' = taken i + k) \<or> (\<exists>e. r = Err e \<and> taken i' = taken i))"
proof -
  let ?I = "\<lambda>t st. taken (fst st) = taken i + t"
  have t: "piece_total (read_piece rdv)"
    using read_piece_ok [OF assms(2)] unfolding piece_total_def by (metis surj_pair)
  have "?I (t + k) st'" if "?I t st" "read_piece rdv a m st = Some (Ok k, st')" for a m t st k st'
    using that read_piece_ok [OF assms(2), of a m "fst st" "snd st"] by auto
  with access_contractD [OF assms(1) t, of ?I "(i, eof)"] have "\<exists>r st'. ta (unat (de_len d)) (de_addr d) (read_piece rdv) (i, eof) = Some (r, st') \<and>
      ((\<exists>k\<le>unat (de_len d). r = Ok k \<and> ?I k st') \<or> (\<exists>e. r = Err e \<and> ?I 0 st'))"
    by simp
  then show ?thesis unfolding read_to_desc_def by auto
qed

definition chain_room :: "descriptor list \<Rightarrow> nat" where
  "chain_room ds = sum_list (map (unat \<circ> de_len) ds)"

lemma rx_descs_ok:
  assumes "access_contract ta" "port_read_contract rdv taken"
  shows "\<exists>b sg i' eof'. rx_descs ta rdv ds b0 sg0 (i, eof) = Some (Ok (b, sg), i', eof') \<and> b0 \<le> b \<and>
    taken i' = taken i + (b - b0) \<and> (sg \<longleftrightarrow> sg0 \<or> b0 < b) \<and> b \<le> b0 + chain_room ds"
proof (induction ds arbitrary: b0 sg0 i eof)
  case Nil
  then show ?case by simp
next
  case (Cons d ds)
  obtain r i1 eof1 where r: "read_to_desc ta rdv d (i, eof) = Some (r, i1, eof1)"
    "(\<exists>k\<le>unat (de_len d). r = Ok k \<and> taken i1 = taken i + k) \<or> (\<exists>e. r = Err e \<and> taken i1 = taken i)"
    using read_to_desc_ok [OF assms, of d i eof] by blast
  from r(2) show ?case
  proof (elim disjE exE conjE)
    fix k assume k: "k \<le> unat (de_len d)" "r = Ok k" "taken i1 = taken i + k"
    show ?thesis
    proof (cases "k = 0")
      case True
      with r(1) k show ?thesis by simp
    next
      case False
      with Cons.IH [of "b0 + k" True i1 eof1] r(1) k show ?thesis by (auto simp: chain_room_def)
    qed
  next
    fix e assume "r = Err e" "taken i1 = taken i"
    with Cons.IH [of b0 sg0 i1 eof1] r(1) show ?thesis by (auto simp: chain_room_def)
  qed
qed

lemma io_popD:
  assumes "io_queue_contract qo pending used"
  shows "pending q = [] \<Longrightarrow> \<exists>q'. ioq_pop qo q = (None, q') \<and> used q' = used q"
    and "pending q = c # cs \<Longrightarrow> \<exists>q'. ioq_pop qo q = (Some c, q') \<and> pending q' = cs \<and> used q' = used q \<and>
      pending (ioq_go_to_previous qo q') = pending q \<and> used (ioq_go_to_previous qo q') = used q"
  using assms unfolding io_queue_contract_def by (cases "ioq_pop qo q"; fastforce)+

lemma io_add_usedD:
  assumes "io_queue_contract qo pending used"
  shows "used (snd (ioq_add_used qo h n q)) = used q @ [(h, n)]" "pending (snd (ioq_add_used qo h n q)) = pending q"
  using assms unfolding io_queue_contract_def by simp_all

definition rx_accounts ::
  "('q \<Rightarrow> io_chain list) \<Rightarrow> ('q \<Rightarrow> (u16 \<times> u32) list) \<Rightarrow> ('i \<Rightarrow> nat) \<Rightarrow> ('i, 'q) rx_state \<Rightarrow> chains_exit \<Rightarrow> ('i, 'q) rx_state \<Rightarrow> (u16 \<times> u32) list \<Rightarrow> bool" where
  "rx_accounts pending used taken s ex s' new \<longleftrightarrow>
     used (rx_queue s') = used (rx_queue s) @ new \<and>
     map fst new = take (length new) (map ioc_head_index (pending (rx_queue s))) \<and>
     list_all (\<lambda>(h, n). 0 < n) new \<and>
     taken (rx_input s') = taken (rx_input s) + sum_list (map (unat \<circ> snd) new) \<and>
     (rx_signal s' \<longleftrightarrow> rx_signal s \<or> new \<noteq> []) \<and> rx_notified s' = rx_notified s \<and> (ex = BreakEvents \<longrightarrow> new \<noteq> [])"

lemma rx_chains_account:
  assumes "io_queue_contract qo pending used" "access_contract ta" "port_read_contract rdv taken"
  shows "list_all (\<lambda>c. chain_room (filter de_write_only (ioc_descriptors c)) < 2 ^ 32) (pending (rx_queue s)) \<Longrightarrow>
    \<exists>ex s' new. rx_chains ta rdv qo port_id s = Some (Ok ex, s') \<and> rx_accounts pending used taken s ex s' new"
proof (induction "pending (rx_queue s)" arbitrary: s)
  case Nil
  then obtain q' where "ioq_pop qo (rx_queue s) = (None, q')" "used q' = used (rx_queue s)"
    using io_popD(1) [OF assms(1)] by metis
  then show ?case by (subst rx_chains.simps) (simp add: rx_accounts_def)
next
  case (Cons c cs)
  obtain q1 where q1: "ioq_pop qo (rx_queue s) = (Some c, q1)" "pending q1 = cs" "used q1 = used (rx_queue s)"
    "used (ioq_go_to_previous qo q1) = used (rx_queue s)"
    using io_popD(2) [OF assms(1)] Cons.hyps(2) by metis
  obtain b sg i eof where d: "rx_descs ta rdv (filter de_write_only (ioc_descriptors c)) 0 (rx_signal s) (rx_input s, rx_eof s)
      = Some (Ok (b, sg), i, eof)" "taken i = taken (rx_input s) + b" "sg \<longleftrightarrow> rx_signal s \<or> 0 < b"
    "b \<le> chain_room (filter de_write_only (ioc_descriptors c))"
    using rx_descs_ok [OF assms(2,3), of "filter de_write_only (ioc_descriptors c)" 0 "rx_signal s" "rx_input s" "rx_eof s"] by auto
  have "chain_room (filter de_write_only (ioc_descriptors c)) < 2 ^ 32" using Cons.prems Cons.hyps(2) [symmetric] by simp
  with d(4) have b: "unat (of_nat b :: u32) = b" by (simp add: unat_of_nat)
  show ?case
  proof (cases "b = 0")
    case True
    with d q1 show ?thesis
      by (subst rx_chains.simps) (auto simp: rx_accounts_def intro!: exI [of _ "[]"])
  next
    case False
    with b have pos: "0 < (of_nat b :: u32)" by (metis unat_0 word_gt_0)
    let ?q2 = "snd (ioq_add_used qo (ioc_head_index c) (of_nat b) q1)"
    let ?s2 = "s\<lparr>rx_signal := sg, rx_eof := eof, rx_input := i, rx_queue := ?q2\<rparr>"
    have q2: "used ?q2 = used (rx_queue s) @ [(ioc_head_index c, of_nat b)]" "pending ?q2 = cs"
      using io_add_usedD [OF assms(1)] q1 by simp_all
    show ?thesis
    proof (cases eof)
      case True
      have "rx_chains ta rdv qo port_id s = Some (Ok BreakEvents, ?s2\<lparr>rx_control := port_open port_id False (rx_control s)\<rparr>)"
        using q1(1) d(1) False True by (subst rx_chains.simps) simp
      with q2 d b pos False Cons.hyps(2) [symmetric] show ?thesis
        by (auto simp: rx_accounts_def intro!: exI [of _ "[(ioc_head_index c, of_nat b)]"])
    next
      case nofin: False
      have eq: "rx_chains ta rdv qo port_id s = rx_chains ta rdv qo port_id ?s2"
        using q1(1) d(1) False nofin by (subst rx_chains.simps) simp
      obtain ex s' new where i: "rx_chains ta rdv qo port_id ?s2 = Some (Ok ex, s')" "rx_accounts pending used taken ?s2 ex s' new"
        using Cons.hyps(1) [of ?s2] q2 Cons.prems Cons.hyps(2) [symmetric] by auto
      have "rx_accounts pending used taken s ex s' ((ioc_head_index c, of_nat b) # new)"
        using i(2) q2 d b pos False Cons.hyps(2) [symmetric] by (auto simp: rx_accounts_def)
      with eq i(1) show ?thesis by metis
    qed
  qed
qed

section \<open>What the port gives to its output\<close>

text \<open>\<open>sent\<close> counts the bytes given to the output. If a write would block, the next one after waiting does not.\<close>

definition port_output_contract :: "'o port_output \<Rightarrow> ('o \<Rightarrow> nat) \<Rightarrow> bool" where
  "port_output_contract po sent \<longleftrightarrow>
     (\<forall>a m x. \<exists>r x'. out_write po a m x = (r, x') \<and>
        ((\<exists>k\<le>m. r = Ok k \<and> sent x' = sent x + k) \<or>
         (r = Err WouldBlock \<and> (\<exists>k\<le>m. \<exists>y. out_write po a m (out_wait po x') = (Ok k, y) \<and> sent y = sent x + k))))"

lemma write_piece_ok:
  assumes "port_output_contract po sent"
  shows "\<exists>k x'. write_piece po a m x = Some (Ok k, x') \<and> k \<le> m \<and> sent x' = sent x + k"
proof -
  obtain r x1 where w: "out_write po a m x = (r, x1)"
    "(\<exists>k\<le>m. r = Ok k \<and> sent x1 = sent x + k) \<or>
     (r = Err WouldBlock \<and> (\<exists>k\<le>m. \<exists>y. out_write po a m (out_wait po x1) = (Ok k, y) \<and> sent y = sent x + k))"
    using assms unfolding port_output_contract_def by meson
  from w(2) show ?thesis
  proof (elim disjE exE conjE)
    fix k assume "k \<le> m" "r = Ok k" "sent x1 = sent x + k"
    with w(1) show ?thesis by (subst write_piece.simps) simp
  next
    fix k y assume k: "r = Err WouldBlock" "k \<le> m" "out_write po a m (out_wait po x1) = (Ok k, y)" "sent y = sent x + k"
    have "write_piece po a m (out_wait po x1) = Some (Ok k, y)" using k(3) by (subst write_piece.simps) simp
    with w(1) k show ?thesis by (subst write_piece.simps) simp
  qed
qed

lemma write_desc_ok:
  assumes "access_contract ta" "port_output_contract po sent"
  shows "\<exists>r x'. write_desc_to_output ta po d x = Some (r, x') \<and>
    ((\<exists>k\<le>unat (de_len d). r = Ok k \<and> sent x' = sent x + k) \<or> (\<exists>e. r = Err e \<and> sent x' = sent x))"
proof -
  let ?I = "\<lambda>t y. sent y = sent x + t"
  have t: "piece_total (write_piece po)" using write_piece_ok [OF assms(2)] unfolding piece_total_def by meson
  have step: "?I (t + k) y'" if "?I t y" "write_piece po a m y = Some (Ok k, y')" for a m t y k y'
  proof -
    obtain k2 y2 where "write_piece po a m y = Some (Ok k2, y2)" "sent y2 = sent y + k2"
      using write_piece_ok [OF assms(2), of a m y] by blast
    with that show ?thesis by simp
  qed
  have "\<exists>r y. ta (unat (de_len d)) (de_addr d) (write_piece po) x = Some (r, y) \<and>
      ((\<exists>k\<le>unat (de_len d). r = Ok k \<and> ?I k y) \<or> (\<exists>e. r = Err e \<and> ?I 0 y))"
    by (rule access_contractD [where I = ?I, OF assms(1) t]) (simp, rule step)
  then show ?thesis unfolding write_desc_to_output_def by simp
qed

lemma tx_descs_ok:
  assumes "access_contract ta" "port_output_contract po sent"
  shows "\<exists>r x'. tx_descs ta po ds b0 sg0 x = Some (r, x') \<and>
    (r = Panic \<or> (\<exists>b sg. r = Ok (b, sg) \<and> b0 \<le> b \<and> sent x' = sent x + (b - b0) \<and> (sg \<longleftrightarrow> sg0 \<or> b0 < b) \<and> b \<le> b0 + chain_room ds))"
proof (induction ds arbitrary: b0 sg0 x)
  case Nil
  then show ?case by simp
next
  case (Cons d ds)
  obtain r x1 where r: "write_desc_to_output ta po d x = Some (r, x1)"
    "(\<exists>k\<le>unat (de_len d). r = Ok k \<and> sent x1 = sent x + k) \<or> (\<exists>e. r = Err e \<and> sent x1 = sent x)"
    using write_desc_ok [OF assms, of d x] by blast
  from r(2) show ?case
  proof (elim disjE exE conjE)
    fix k assume k: "k \<le> unat (de_len d)" "r = Ok k" "sent x1 = sent x + k"
    consider "k = 0" | "k \<noteq> 0" "k \<noteq> unat (de_len d)" | "k \<noteq> 0" "k = unat (de_len d)" by blast
    then show ?thesis
    proof cases
      case 3
      with Cons.IH [of "b0 + k" True x1] r(1) k show ?thesis by (auto simp: chain_room_def)
    qed (use r(1) k in simp_all)
  next
    fix e assume "r = Err e" "sent x1 = sent x"
    with Cons.IH [of b0 sg0 x1] r(1) show ?thesis by (auto simp: chain_room_def)
  qed
qed

definition tx_accounts ::
  "('q \<Rightarrow> io_chain list) \<Rightarrow> ('q \<Rightarrow> (u16 \<times> u32) list) \<Rightarrow> ('o \<Rightarrow> nat) \<Rightarrow> ('o, 'q) tx_state \<Rightarrow> ('o, 'q) tx_state \<Rightarrow> (u16 \<times> u32) list \<Rightarrow> bool" where
  "tx_accounts pending used sent s s' new \<longleftrightarrow>
     used (tx_queue s') = used (tx_queue s) @ new \<and>
     map fst new = take (length new) (map ioc_head_index (pending (tx_queue s))) \<and>
     sent (tx_output s') = sent (tx_output s) + sum_list (map (unat \<circ> snd) new) \<and>
     (tx_signal s' \<longleftrightarrow> tx_signal s \<or> new \<noteq> [])"

lemma tx_chains_account:
  assumes "io_queue_contract qo pending used" "access_contract ta" "port_output_contract po sent"
  shows "list_all (\<lambda>c. chain_room (filter (Not \<circ> de_write_only) (ioc_descriptors c)) < 2 ^ 32) (pending (tx_queue s)) \<Longrightarrow>
    \<exists>r s'. tx_chains ta po qo s = Some (r, s') \<and> (r \<noteq> Panic \<longrightarrow> (\<exists>new. tx_accounts pending used sent s s' new))"
proof (induction "pending (tx_queue s)" arbitrary: s)
  case Nil
  then obtain q' where "ioq_pop qo (tx_queue s) = (None, q')" "used q' = used (tx_queue s)"
    using io_popD(1) [OF assms(1)] by metis
  then show ?case by (subst tx_chains.simps) (auto simp: tx_accounts_def intro!: exI [of _ "[]"])
next
  case (Cons c cs)
  obtain q1 where q1: "ioq_pop qo (tx_queue s) = (Some c, q1)" "pending q1 = cs" "used q1 = used (tx_queue s)"
    "used (ioq_go_to_previous qo q1) = used (tx_queue s)"
    using io_popD(2) [OF assms(1)] Cons.hyps(2) by metis
  let ?ds = "filter (Not \<circ> de_write_only) (ioc_descriptors c)"
  obtain r x where d: "tx_descs ta po ?ds 0 (tx_signal s) (tx_output s) = Some (r, x)"
    "r = Panic \<or> (\<exists>b sg. r = Ok (b, sg) \<and> sent x = sent (tx_output s) + b \<and> (sg \<longleftrightarrow> tx_signal s \<or> 0 < b) \<and> b \<le> chain_room ?ds)"
    using tx_descs_ok [OF assms(2,3), of ?ds 0 "tx_signal s" "tx_output s"] by auto
  from d(2) show ?case
  proof (elim disjE exE conjE)
    assume "r = Panic"
    with q1(1) d(1) show ?thesis by (subst tx_chains.simps) simp
  next
    fix b sg assume b: "r = Ok (b, sg)" "sent x = sent (tx_output s) + b" "sg \<longleftrightarrow> tx_signal s \<or> 0 < b" "b \<le> chain_room ?ds"
    have "chain_room ?ds < 2 ^ 32" using Cons.prems Cons.hyps(2) [symmetric] by simp
    with b(4) have u: "unat (of_nat b :: u32) = b" by (simp add: unat_of_nat)
    show ?thesis
    proof (cases "b = 0")
      case True
      with d(1) b q1 show ?thesis
        by (subst tx_chains.simps) (auto simp: tx_accounts_def intro!: exI [of _ "[]"])
    next
      case False
      let ?q2 = "snd (ioq_add_used qo (ioc_head_index c) (of_nat b) q1)"
      let ?s2 = "s\<lparr>tx_signal := sg, tx_output := x, tx_queue := ?q2\<rparr>"
      have q2: "used ?q2 = used (tx_queue s) @ [(ioc_head_index c, of_nat b)]" "pending ?q2 = cs"
        using io_add_usedD [OF assms(1)] q1 by simp_all
      have eq: "tx_chains ta po qo s = tx_chains ta po qo ?s2"
        using q1(1) d(1) b(1) False by (subst tx_chains.simps) simp
      obtain r' s' where i: "tx_chains ta po qo ?s2 = Some (r', s')" "r' \<noteq> Panic \<longrightarrow> (\<exists>new. tx_accounts pending used sent ?s2 s' new)"
        using Cons.hyps(1) [of ?s2] q2 Cons.prems Cons.hyps(2) [symmetric] by auto
      have "tx_accounts pending used sent s s' ((ioc_head_index c, of_nat b) # new)"
        if "tx_accounts pending used sent ?s2 s' new" for new
        using that q2 b u False Cons.hyps(2) [symmetric] by (auto simp: tx_accounts_def)
      with eq i show ?thesis by metis
    qed
  qed
qed

section \<open>A concrete port\<close>

text \<open>All memory is one piece; the input is the bytes taken so far and the sizes of what it can still give; the output
  blocks before every other write.\<close>

definition one_piece :: "'st try_access" where
  "one_piece n addr f s = f addr n s"

fun chunk_read :: "(nat \<times> nat list) port_read" where
  "chunk_read a m (t, []) = (Ok 0, t, [])"
| "chunk_read a m (t, c # cs) = (Ok (min m c), t + min m c, cs)"

definition blocking_output :: "(bool \<times> nat) port_output" where
  "blocking_output = \<lparr>out_write = (\<lambda>a m (free, n). if free then (Ok m, False, n + m) else (Err WouldBlock, False, n)),
     out_wait = (\<lambda>(free, n). (True, n))\<rparr>"

definition list_io_queue :: "(io_chain list \<times> io_chain list \<times> (u16 \<times> u32) list) io_queue_ops" where
  "list_io_queue = \<lparr>
     ioq_pop = (\<lambda>(past, cs, us). case cs of [] \<Rightarrow> (None, past, [], us) | c # cs' \<Rightarrow> (Some c, c # past, cs', us)),
     ioq_add_used = (\<lambda>h n (past, cs, us). (Ok (), past, cs, us @ [(h, n)])),
     ioq_go_to_previous = (\<lambda>(past, cs, us). (tl past, hd past # cs, us))\<rparr>"

lemma one_piece_contract: "access_contract one_piece"
  unfolding access_contract_def one_piece_def piece_total_def
proof (intro allI impI)
  fix n addr f s and I :: "nat \<Rightarrow> 'a \<Rightarrow> bool"
  assume "\<forall>a m s. \<exists>k s'. f a m s = Some (Ok k, s') \<and> k \<le> m" and "I 0 s"
    and "\<forall>a m t s k s'. I t s \<longrightarrow> f a m s = Some (Ok k, s') \<longrightarrow> I (t + k) s'"
  moreover from this(1) obtain k s' where "f addr n s = Some (Ok k, s')" "k \<le> n" by blast
  ultimately show "\<exists>r s'. f addr n s = Some (r, s') \<and> ((\<exists>k\<le>n. r = Ok k \<and> I k s') \<or> (\<exists>e. r = Err e \<and> I 0 s'))"
    by (metis add_0)
qed

lemma chunk_read_contract: "port_read_contract chunk_read fst"
  unfolding port_read_contract_def
proof (intro allI)
  fix a m and i :: "nat \<times> nat list"
  show "\<exists>r i'. chunk_read a m i = (r, i') \<and> ((\<exists>k\<le>m. r = Ok k \<and> fst i' = fst i + k) \<or> (r = Err WouldBlock \<and> fst i' = fst i))"
    by (cases "(a, m, i)" rule: chunk_read.cases) auto
qed

lemma blocking_output_contract: "port_output_contract blocking_output snd"
  by (auto simp: port_output_contract_def blocking_output_def)

lemma list_io_queue_contract: "io_queue_contract list_io_queue (\<lambda>q. fst (snd q)) (\<lambda>q. snd (snd q))"
  by (auto simp: io_queue_contract_def list_io_queue_def)

definition sample_rx :: "(nat \<times> nat list, io_chain list \<times> io_chain list \<times> (u16 \<times> u32) list) rx_state" where
  "sample_rx = \<lparr>rx_signal = False, rx_eof = False, rx_input = (0, [5]),
     rx_queue = ([], [\<lparr>ioc_head_index = 3, ioc_descriptors = [\<lparr>de_addr = 0, de_len = 8, de_write_only = True\<rparr>,
       \<lparr>de_addr = 64, de_len = 8, de_write_only = True\<rparr>]\<rparr>], []),
     rx_control = console_control_new, rx_notified = 0\<rparr>"

definition sample_tx :: "(bool \<times> nat, io_chain list \<times> io_chain list \<times> (u16 \<times> u32) list) tx_state" where
  "sample_tx = \<lparr>tx_signal = False, tx_output = (False, 0),
     tx_queue = ([], [\<lparr>ioc_head_index = 3, ioc_descriptors = [\<lparr>de_addr = 0, de_len = 8, de_write_only = False\<rparr>]\<rparr>], []),
     tx_notified = 0\<rparr>"

lemma sample_rx_breaks:
  obtains s' where "rx_chains one_piece chunk_read list_io_queue 1 sample_rx = Some (Ok BreakEvents, s')"
  by (simp add: rx_chains.simps sample_rx_def list_io_queue_def read_to_desc_def one_piece_def read_piece_def)

section \<open>Properties\<close>

text \<open>Serving the receive ring of a port ends, for any finite number of waiting chains, and keeps the books: the
  chains that are returned are the first ones of the ring in order, none of them empty, the lengths that the guest is
  told add up to exactly the bytes that were taken from the input, and the flag to signal is set exactly when
  something was returned.\<close>

lemma port_input_accounts:
  assumes "io_queue_contract qo pending used" "access_contract ta" "port_read_contract rdv taken"
    and "list_all (\<lambda>c. chain_room (filter de_write_only (ioc_descriptors c)) < 2 ^ 32) (pending (rx_queue s))"
  shows "\<exists>ex s' new. rx_chains ta rdv qo port_id s = Some (Ok ex, s') \<and>
    used (rx_queue s') = used (rx_queue s) @ new \<and>
    map fst new = take (length new) (map ioc_head_index (pending (rx_queue s))) \<and>
    list_all (\<lambda>(h, n). 0 < n) new \<and>
    taken (rx_input s') = taken (rx_input s) + sum_list (map (unat \<circ> snd) new) \<and>
    (rx_signal s' \<longleftrightarrow> rx_signal s \<or> new \<noteq> [])"
  using rx_chains_account [OF assms] by (fastforce simp: rx_accounts_def)

lemma port_input_accounts_witness:
  "\<exists>ex s' new. rx_chains one_piece chunk_read list_io_queue 1 sample_rx = Some (Ok ex, s') \<and>
    snd (snd (rx_queue s')) = new \<and> fst (rx_input s') = sum_list (map (unat \<circ> snd) new)"
proof -
  have "list_all (\<lambda>c. chain_room (filter de_write_only (ioc_descriptors c)) < 2 ^ 32) (fst (snd (rx_queue sample_rx)))"
    by (simp add: sample_rx_def chain_room_def)
  from port_input_accounts [OF list_io_queue_contract one_piece_contract chunk_read_contract this, of 1]
  show ?thesis by (auto simp: sample_rx_def)
qed

text \<open>Serving the transmit ring of a port ends, for any finite number of waiting chains, if the output takes
  something after it was waited for; unless a partial write panics the thread, the lengths that are returned add up
  to exactly the bytes that were given to the output.\<close>

lemma port_output_accounts:
  assumes "io_queue_contract qo pending used" "access_contract ta" "port_output_contract po sent"
    and "list_all (\<lambda>c. chain_room (filter (Not \<circ> de_write_only) (ioc_descriptors c)) < 2 ^ 32) (pending (tx_queue s))"
  shows "\<exists>r s'. tx_chains ta po qo s = Some (r, s') \<and>
    (r \<noteq> Panic \<longrightarrow> (\<exists>new. used (tx_queue s') = used (tx_queue s) @ new \<and>
      map fst new = take (length new) (map ioc_head_index (pending (tx_queue s))) \<and>
      sent (tx_output s') = sent (tx_output s) + sum_list (map (unat \<circ> snd) new) \<and>
      (tx_signal s' \<longleftrightarrow> tx_signal s \<or> new \<noteq> [])))"
  using tx_chains_account [OF assms] by (fastforce simp: tx_accounts_def)

lemma port_output_accounts_witness:
  "\<exists>r s'. tx_chains one_piece blocking_output list_io_queue sample_tx = Some (r, s') \<and>
    (r \<noteq> Panic \<longrightarrow> snd (tx_output s') = sum_list (map (unat \<circ> snd) (snd (snd (tx_queue s')))))"
proof -
  have "list_all (\<lambda>c. chain_room (filter (Not \<circ> de_write_only) (ioc_descriptors c)) < 2 ^ 32) (fst (snd (tx_queue sample_tx)))"
    by (simp add: sample_tx_def chain_room_def)
  from port_output_accounts [OF list_io_queue_contract one_piece_contract blocking_output_contract this]
  show ?thesis by (auto simp: sample_tx_def)
qed

text \<open>The end of the input is announced late or not at all. When it comes with data, the thread ends with the data
  in the used ring but without signalling it; the guest's notification count stays as it was.\<close>

lemma eof_data_unannounced:
  assumes "io_queue_contract qo pending used" "access_contract ta" "port_read_contract rdv taken"
    and "list_all (\<lambda>c. chain_room (filter de_write_only (ioc_descriptors c)) < 2 ^ 32) (pending (rx_queue s))"
    and "\<not> rx_signal s" "pe_token ev = Ok PortIO" "pe_kicked ev = Ok True" "pe_available ev"
    and "rx_chains ta rdv qo port_id s = Some (Ok BreakEvents, s')"
  shows "process_rx ta rdv qo signal port_id (ev # evs) s = Some (Ok (), s') \<and> rx_notified s' = rx_notified s \<and>
    length (used (rx_queue s)) < length (used (rx_queue s'))"
proof -
  have s: "s\<lparr>rx_signal := False\<rparr> = s" using assms(5) by (cases s) simp
  then have "process_rx ta rdv qo signal port_id (ev # evs) s = Some (Ok (), s')"
    using assms(5-9) by (simp add: rx_notify_def s)
  moreover obtain new where "rx_accounts pending used taken s BreakEvents s' new"
    using rx_chains_account [OF assms(1-4), of port_id] assms(9) by auto
  ultimately show ?thesis by (simp add: rx_accounts_def)
qed

lemma eof_data_unannounced_witness:
  "rx_notified (snd (the (process_rx one_piece chunk_read list_io_queue (Ok ()) 1
      [\<lparr>pe_token = Ok PortIO, pe_kicked = Ok True, pe_available = True\<rparr>] sample_rx))) = 0"
proof -
  have l: "list_all (\<lambda>c. chain_room (filter de_write_only (ioc_descriptors c)) < 2 ^ 32) (fst (snd (rx_queue sample_rx)))"
    by (simp add: sample_rx_def chain_room_def)
  obtain s' where "rx_chains one_piece chunk_read list_io_queue 1 sample_rx = Some (Ok BreakEvents, s')"
    by (rule sample_rx_breaks)
  from eof_data_unannounced [OF list_io_queue_contract one_piece_contract chunk_read_contract l _ _ _ _ this,
      of "\<lparr>pe_token = Ok PortIO, pe_kicked = Ok True, pe_available = True\<rparr>" "Ok ()" "[]"]
  show ?thesis by (simp add: sample_rx_def)
qed

end
