(* ===== verification/Console_Device.thy ===== *)
theory Console_Device
  imports Console_Control Console_Io Device_Activation
begin

text \<open>
  The console device, \<^verbatim>\<open>Console\<close> of \<^verbatim>\<open>virtio-console/src/device.rs\<close>, with the start of its main worker and
  of its ports, and \<^verbatim>\<open>VhostUserConsole\<close> of \<^verbatim>\<open>vhost-console/src/main.rs\<close>. The threads set up their epoll
  instances when they start; in the model this happens while the device is activated, in the order in which
  they are spawned. A thread whose setup fails panics, which the activation does not notice. The join of \<^verbatim>\<open>stop\<close> may
  never return: that is \<open>None\<close> in \<open>console_stop\<close>, and no result, like a panic, for the handler.
\<close>

section \<open>State\<close>

record virtio_console_config =
  vco_cols :: u16
  vco_rows :: u16
  vco_max_nr_ports :: u32
  vco_emerg_wr :: u32

definition virtio_console_config_layout :: "virtio_console_config codec" where
  "virtio_console_config_layout = struct
     (\<lambda>(c, r, n, e). \<lparr>vco_cols = c, vco_rows = r, vco_max_nr_ports = n, vco_emerg_wr = e\<rparr>)
     (\<lambda>s. (vco_cols s, vco_rows s, vco_max_nr_ports s, vco_emerg_wr s))
     (beside le16 (beside le16 (beside le32 le32)))"

definition virtio_console_config_new :: "u16 \<Rightarrow> u16 \<Rightarrow> u32 \<Rightarrow> virtio_console_config" where
  "virtio_console_config_new cols rows max_nr_ports =
     \<lparr>vco_cols = cols, vco_rows = rows, vco_max_nr_ports = max_nr_ports, vco_emerg_wr = 0\<rparr>"

definition AVAIL_FEATURES :: u64 where
  "AVAIL_FEATURES = push_bit 0 1 OR push_bit 1 1 OR push_bit 32 1"

definition QUEUE_SIZE :: u16 where "QUEUE_SIZE = 256"
definition VIRTIO_ID_CONSOLE :: u32 where "VIRTIO_ID_CONSOLE = 3"

datatype main_thread = MainRuns nat "port list" | MainPanicked "port list"

record console =
  co_ports :: "port list"
  co_queues :: "u16 list"
  co_worker_thread :: "main_thread option"
  co_stopfd :: nat
  co_avail_features :: u64
  co_acked_features :: u64
  co_config :: virtio_console_config

text \<open>\<open>ce_main_panicked\<close> says whether the main worker with the given epoll instance has panicked when it is joined.\<close>

record ('q, 'ep) console_env =
  ce_create :: "('q, 'ep) epoll_create"
  ce_ctl :: "'ep epoll_ctl"
  ce_bits :: event_bits
  ce_edge_triggered :: u32
  ce_try_clone :: "nat \<Rightarrow> (nat, io_error) rust"
  ce_new_eventfd :: "(nat, io_error) rust"
  ce_efd_write :: "nat \<Rightarrow> (unit, io_error) rust"
  ce_main_panicked :: "nat \<Rightarrow> bool"

fun ports_new :: "nat \<Rightarrow> port_description list \<Rightarrow> (port list, 'e) rust" where
  "ports_new port_id [] = Ok []"
| "ports_new port_id (x # xs) =
     and_then (port_new (of_nat port_id) x) (\<lambda>p. and_then (ports_new (Suc port_id) xs) (\<lambda>ps. Ok (p # ps)))"

fun is_console_description :: "port_description \<Rightarrow> bool" where
  "is_console_description (ConsoleDescription _ _) = True"
| "is_console_description _ = False"

definition console_new :: "(nat, io_error) rust \<Rightarrow> port_description list \<Rightarrow> (console, unit) rust" where
  "console_new new_eventfd ports =
     (if ports = [] \<or> \<not> is_console_description (hd ports) then Panic
      else and_then (ports_new 0 ports) (\<lambda>ps.
           and_then (unwrap new_eventfd) (\<lambda>stopfd.
             Ok \<lparr>co_ports = ps, co_queues = replicate (num_queues (length ports)) QUEUE_SIZE, co_worker_thread = None,
                 co_stopfd = stopfd, co_avail_features = AVAIL_FEATURES, co_acked_features = 0,
                 co_config = virtio_console_config_new 80 24 (of_nat (length ps))\<rparr>)))"

section \<open>Features and configuration\<close>

definition console_set_acked_features :: "u64 \<Rightarrow> console \<Rightarrow> console" where
  "console_set_acked_features acked_features d = d\<lparr>co_acked_features := AVAIL_FEATURES AND acked_features\<rparr>"

text \<open>The buffer comes zeroed; what lies beyond the configuration stays zero. An end that overflows writes nothing.\<close>

definition console_read_config :: "nat \<Rightarrow> nat \<Rightarrow> console \<Rightarrow> (u8 list, unit) rust" where
  "console_read_config offset data_len d =
     (let config_slice = put virtio_console_config_layout (co_config d); config_len = length config_slice
      in if offset \<ge> config_len then Err ()
         else case checked_add offset data_len of
                None \<Rightarrow> Ok (replicate data_len 0)
              | Some end_offset \<Rightarrow>
                  let bytes = take (min end_offset config_len - offset) (drop offset config_slice)
                  in Ok (bytes @ replicate (data_len - length bytes) 0))"

definition console_write_config :: "nat \<Rightarrow> u8 list \<Rightarrow> (console, unit, unit) rust_method" where
  "console_write_config offset data d = (Err (), d)"

section \<open>Activation\<close>

abbreviation rx_raw_token :: "port_token \<Rightarrow> u64" where
  "rx_raw_token t \<equiv> as_raw_token port_token_ty (rx_token_val t)"

abbreviation tx_raw_token :: "port_token \<Rightarrow> u64" where
  "tx_raw_token t \<equiv> as_raw_token port_token_ty (tx_token_val t)"

abbreviation main_raw_token :: "main_token \<Rightarrow> u64" where
  "main_raw_token t \<equiv> as_raw_token main_token_ty (main_token_val t)"

text \<open>What the threads add to their event managers.\<close>

definition rx_items :: "('q, 'ep) console_env \<Rightarrow> nat \<Rightarrow> nat \<Rightarrow> nat \<Rightarrow> watch_item list" where
  "rx_items env stopfd rxq input =
     [WatchFd stopfd (ev_in (ce_bits env)) (rx_raw_token PortStop), WatchRing rxq (rx_raw_token PortQueue),
      WatchFd input (snd (input_ready_event (ce_bits env) (ce_edge_triggered env) input)) (rx_raw_token PortIO)]"

definition tx_items :: "('q, 'ep) console_env \<Rightarrow> nat \<Rightarrow> nat \<Rightarrow> nat \<Rightarrow> watch_item list" where
  "tx_items env stopfd txq output =
     [WatchFd stopfd (ev_in (ce_bits env)) (tx_raw_token PortStop), WatchRing txq (tx_raw_token PortQueue),
      WatchFd output (snd (output_ready_event (ce_bits env) (ce_edge_triggered env) output)) (tx_raw_token PortIO)]"

definition main_items :: "('q, 'ep) console_env \<Rightarrow> nat \<Rightarrow> nat \<Rightarrow> watch_item list" where
  "main_items env queue_evt stopfd =
     [WatchRing CONTROL_RXQ_INDEX (main_raw_token ControlRxq), WatchRing CONTROL_TXQ_INDEX (main_raw_token ControlTxq),
      WatchFd queue_evt (ev_in (ce_bits env)) (main_raw_token ControlRxq),
      WatchFd stopfd (ev_in (ce_bits env)) (main_raw_token MainQuit)]"

text \<open>A thread of a port: cloning the stop descriptor is unwrapped by the spawner, the setup by the thread.\<close>

definition spawn_port_thread ::
  "('q, 'ep) console_env \<Rightarrow> (nat \<Rightarrow> nat \<Rightarrow> watch_item list) \<Rightarrow> nat \<Rightarrow> nat option
    \<Rightarrow> (('q, 'ep) rings_world, port_thread option, unit) rust_method" where
  "spawn_port_thread env items stopfd fd s =
     (case fd of
        None \<Rightarrow> (Ok None, s)
      | Some f \<Rightarrow>
          (case ce_try_clone env stopfd of
             Ok stopfd' \<Rightarrow>
               (case setup_watcher (ce_create env) (ce_ctl env) (ce_bits env) (items stopfd' f) s of
                  (Ok e, s') \<Rightarrow> (Ok (Some (PortThreadRuns e)), s')
                | (_, s') \<Rightarrow> (Ok (Some PortThreadPanicked), s'))
           | _ \<Rightarrow> (Panic, s)))"

text \<open>\<^verbatim>\<open>shutdown\<close> joins the threads, whose instances are closed; a panic in them is only logged.\<close>

fun end_port_thread :: "port_thread option \<Rightarrow> ('q, 'ep) rings_world \<Rightarrow> ('q, 'ep) rings_world" where
  "end_port_thread (Some (PortThreadRuns e)) s = close_instance e s"
| "end_port_thread _ s = s"

definition port_shutdown :: "('q, 'ep) console_env \<Rightarrow> port \<Rightarrow> (('q, 'ep) rings_world, port, unit) rust_method" where
  "port_shutdown env p s =
     (case po_state p of
        Inactive \<Rightarrow> (Ok p, s)
      | Active stopfd rx_thread tx_thread \<Rightarrow>
          (if \<not> is_ok (ce_efd_write env stopfd) then (Panic, s)
           else (Ok (p\<lparr>po_state := Active stopfd None None\<rparr>), end_port_thread rx_thread (end_port_thread tx_thread s))))"

definition port_start ::
  "('q, 'ep) console_env \<Rightarrow> nat \<Rightarrow> nat \<Rightarrow> nat \<Rightarrow> port \<Rightarrow> (('q, 'ep) rings_world, port, unit) rust_method" where
  "port_start env rxq txq stopfd p =
     bind_method (port_shutdown env p) (\<lambda>p.
     bind_method (spawn_port_thread env (\<lambda>stopfd. rx_items env stopfd rxq) stopfd (po_input p)) (\<lambda>rx_thread.
     bind_method (spawn_port_thread env (\<lambda>stopfd. tx_items env stopfd txq) stopfd (po_output p)) (\<lambda>tx_thread.
       return_method (p\<lparr>po_state := Active stopfd rx_thread tx_thread\<rparr>))))"

text \<open>The loop of \<^verbatim>\<open>start_ports\<close> from port \<open>port_id\<close> on; a missing ring and a failing clone are unwrapped.\<close>

fun start_ports ::
  "('q, 'ep) console_env \<Rightarrow> nat \<Rightarrow> nat \<Rightarrow> port list \<Rightarrow> (('q, 'ep) rings_world, port list, unit) rust_method" where
  "start_ports env stopfd port_id [] s = (Ok [], s)"
| "start_ports env stopfd port_id (p # ps) s =
     (if port_id_to_queue_idx Rx port_id \<ge> length (fst s) \<or> port_id_to_queue_idx Tx port_id \<ge> length (fst s) then (Panic, s)
      else case ce_try_clone env stopfd of
             Ok stopfd' \<Rightarrow>
               bind_method (port_start env (port_id_to_queue_idx Rx port_id) (port_id_to_queue_idx Tx port_id) stopfd' p) (\<lambda>p'.
               bind_method (start_ports env stopfd (Suc port_id) ps) (\<lambda>ps'. return_method (p' # ps'))) s
           | _ \<Rightarrow> (Panic, s))"

text \<open>\<^verbatim>\<open>MainWorker::new\<close> returns the started ports and the event descriptor of the messages.\<close>

definition main_worker_new ::
  "('q, 'ep) console_env \<Rightarrow> port list \<Rightarrow> nat \<Rightarrow> (('q, 'ep) rings_world, port list \<times> nat, unit) rust_method" where
  "main_worker_new env ports stopfd s =
     (if CONTROL_RXQ_INDEX \<ge> length (fst s) \<or> CONTROL_TXQ_INDEX \<ge> length (fst s) then (Panic, s)
      else case ce_new_eventfd env of
             Ok queue_evt \<Rightarrow> bind_method (start_ports env stopfd 0 ports) (\<lambda>ps. return_method (ps, queue_evt)) s
           | _ \<Rightarrow> (Panic, s))"

definition spawn_main ::
  "('q, 'ep) console_env \<Rightarrow> port list \<Rightarrow> nat \<Rightarrow> nat \<Rightarrow> ('q, 'ep) rings_world \<Rightarrow> main_thread \<times> ('q, 'ep) rings_world" where
  "spawn_main env ports queue_evt stopfd s =
     (case setup_watcher (ce_create env) (ce_ctl env) (ce_bits env) (main_items env queue_evt stopfd) s of
        (Ok e, s') \<Rightarrow> (MainRuns e ports, s')
      | (_, s') \<Rightarrow> (MainPanicked ports, s'))"

definition console_activate ::
  "('q, 'ep) console_env \<Rightarrow> 'm \<Rightarrow> ((console, 'q, 'ep) with_rings, unit, unit) rust_method" where
  "console_activate env mem s =
     (let (d, vs, w) = s
      in if co_ports d = [] then (Panic, s)
         else let d1 = d\<lparr>co_ports := []\<rparr>
              in (case ce_try_clone env (co_stopfd d) of
                    Panic \<Rightarrow> (Panic, d1, vs, w)
                  | Err _ \<Rightarrow> (Err (), d1, vs, w)
                  | Ok stopfd \<Rightarrow>
                      (case main_worker_new env (co_ports d) stopfd (vs, w) of
                         (Ok (ports, queue_evt), s1) \<Rightarrow>
                           (let (t, vs', w') = spawn_main env ports queue_evt stopfd s1
                            in (Ok (), d1\<lparr>co_worker_thread := Some t\<rparr>, vs', w'))
                       | (Err e, vs', w') \<Rightarrow> (Err e, d1, vs', w')
                       | (Panic, vs', w') \<Rightarrow> (Panic, d1, vs', w'))))"

section \<open>Stopping\<close>

definition console_stop ::
  "('q, 'ep) console_env \<Rightarrow> console \<times> 'ep world \<Rightarrow> ((unit, unit) rust \<times> console \<times> 'ep world) option" where
  "console_stop env s =
     (let (d, w) = s
      in if \<not> is_ok (ce_efd_write env (co_stopfd d)) then Some (Panic, s)
         else case co_worker_thread d of
                None \<Rightarrow> Some (Ok (), s)
              | Some (MainPanicked _) \<Rightarrow> Some (Panic, d\<lparr>co_worker_thread := None\<rparr>, w)
              | Some (MainRuns e _) \<Rightarrow>
                  if ce_main_panicked env e then Some (Panic, d\<lparr>co_worker_thread := None\<rparr>, w(e := None)) else None)"

definition console_stop_call :: "('q, 'ep) console_env \<Rightarrow> (console \<times> 'ep world, unit, unit) rust_method" where
  "console_stop_call env s = (case console_stop env s of None \<Rightarrow> (Panic, s) | Some rs \<Rightarrow> rs)"

definition console_reset :: "('q, 'ep) console_env \<Rightarrow> (console \<times> 'ep world, bool, unit) rust_method" where
  "console_reset env = bind_method (console_stop_call env) (\<lambda>_. return_method True)"

definition console_ops :: "('q, 'ep) console_env \<Rightarrow> (console, 'q, 'ep) virtio_device_ops" where
  "console_ops env = \<lparr>
     vd_device_type = (\<lambda>_. Ok VIRTIO_ID_CONSOLE),
     vd_avail_features = co_avail_features,
     vd_acked_features = co_acked_features,
     vd_set_acked_features = console_set_acked_features,
     vd_queues = co_queues,
     vd_read_config = console_read_config,
     vd_write_config = console_write_config,
     vd_activate = console_activate env,
     vd_stop = console_stop_call env,
     vd_reset = console_reset env\<rparr>"

section \<open>The vhost-user backend\<close>

definition console_protocol_features :: "u64 \<times> u64 \<times> u64 \<Rightarrow> u64" where
  "console_protocol_features bits = (case bits of (mq, config, reply_ack) \<Rightarrow> mq OR config OR reply_ack)"

definition vhost_user_console :: "u64 \<Rightarrow> u64 \<times> u64 \<times> u64 \<Rightarrow> ('q, 'ep) console_env \<Rightarrow> (console, 'q, 'ep) vhost_device_ops" where
  "vhost_user_console pf bits env =
     implementer pf (\<lambda>_. console_protocol_features bits) default_set_gpu_socket (console_ops env)"

section \<open>The features\<close>

definition offers_all :: "console \<Rightarrow> bool" where
  "offers_all d \<longleftrightarrow> co_avail_features d = AVAIL_FEATURES"

interpretation console_features: virtio_features "console_ops env" offers_all for env
  by unfold_locales (simp_all add: console_ops_def console_set_acked_features_def offers_all_def ac_simps)

lemma virtio_console_config_lawful [simp]: "lawful virtio_console_config_layout anything"
  unfolding virtio_console_config_layout_def by (rule lawful_struct_scalar, (rule lawful_le32 lawful_le16 lawful_scalar_beside)+) auto

interpretation console_config_bytes: byte_valued virtio_console_config_layout anything
  by unfold_locales simp

lemma console_config_size [simp]: "csize virtio_console_config_layout = 12"
  by (simp add: virtio_console_config_layout_def)

section \<open>Activation keeps the rings in order\<close>

definition console_libraries :: "('ep \<Rightarrow> nat \<Rightarrow> epoll_event option) \<Rightarrow> ('q, 'ep) console_env \<Rightarrow> bool" where
  "console_libraries regs env \<longleftrightarrow>
     epoll_contract (ce_ctl env) regs \<and> epoll_create_contract regs (ce_create env) \<and>
     (\<forall>fd. is_ok (ce_try_clone env fd)) \<and> is_ok (ce_new_eventfd env)"

text \<open>A step on the rings that does not panic and changes nothing but watchers.\<close>

definition orderly_step ::
  "('q, 'mem) queue_ops \<Rightarrow> event_bits \<Rightarrow> ('ep \<Rightarrow> nat \<Rightarrow> epoll_event option) \<Rightarrow> ('q, 'ep) rings_world
    \<Rightarrow> ('a, 'e) rust \<times> ('q, 'ep) rings_world \<Rightarrow> bool" where
  "orderly_step qo eb regs s rs \<longleftrightarrow>
     (orderly_rings qo eb regs s \<longrightarrow> is_ok (fst rs) \<and> orderly_rings qo eb regs (snd rs)) \<and> rewatched (fst s) (fst (snd rs))"

lemma orderly_step_bind:
  assumes "orderly_step qo eb regs s (m s)" "\<And>a s'. rewatched (fst s) (fst s') \<Longrightarrow> orderly_step qo eb regs s' (f a s')"
  shows "orderly_step qo eb regs s (bind_method m f s)"
proof -
  obtain r s' where m: "m s = (r, s')" by (rule prod.exhaust)
  with assms(1) have w: "rewatched (fst s) (fst s')" by (simp add: orderly_step_def)
  show ?thesis
  proof (cases r)
    case (Ok a)
    with assms(1) assms(2) [OF w, of a] m w show ?thesis
      by (auto simp: orderly_step_def bind_method_def intro: rewatched_trans)
  qed (use assms(1) m in \<open>auto simp: orderly_step_def bind_method_def\<close>)
qed

lemma orderly_step_return: "orderly_step qo eb regs s (return_method a s)"
  by (simp add: orderly_step_def return_method_def)

text \<open>Setting up a watcher, whatever comes of it.\<close>

lemma setup_watcher_step:
  assumes "epoll_contract ctl regs" "epoll_create_contract regs create" "distinct (item_rings items)"
    and "\<And>i. i \<in> set (item_rings items) \<Longrightarrow> i < length (fst s)" "setup_watcher create ctl eb items s = (r, s')"
  shows "orderly_rings qo eb regs s \<Longrightarrow> orderly_rings qo eb regs s'" "rewatched (fst s) (fst s')"
proof -
  show "orderly_rings qo eb regs s'" if "orderly_rings qo eb regs s"
    using setup_watcher_ok(2) [OF assms(1,2) that assms(3-5)] .
  have "rewatched (fst s) (fst (snd (setup_watcher create ctl eb items s)))"
    by (rule setup_watcher_rewatched) (rule assms(4))
  then show "rewatched (fst s) (fst s')" by (simp add: assms(5))
qed

lemma spawn_port_thread_step:
  assumes "console_libraries regs env" "\<And>fd f. item_rings (items fd f) = [i]" "i < length (fst s)"
  shows "orderly_step qo (ce_bits env) regs s (spawn_port_thread env items stopfd fd s)"
proof (cases fd)
  case None
  then show ?thesis by (simp add: orderly_step_def spawn_port_thread_def)
next
  case (Some f)
  have c: "epoll_contract (ce_ctl env) regs" "epoll_create_contract regs (ce_create env)" "is_ok (ce_try_clone env stopfd)"
    using assms(1) by (simp_all add: console_libraries_def)
  then obtain fd' where fd': "ce_try_clone env stopfd = Ok fd'" by (cases "ce_try_clone env stopfd") auto
  obtain r s' where w: "setup_watcher (ce_create env) (ce_ctl env) (ce_bits env) (items fd' f) s = (r, s')" by (rule prod.exhaust)
  have "distinct (item_rings (items fd' f))" "\<And>j. j \<in> set (item_rings (items fd' f)) \<Longrightarrow> j < length (fst s)"
    using assms(2,3) by simp_all
  note step = setup_watcher_step(1) [OF c(1,2) this w, where qo = qo] setup_watcher_step(2) [OF c(1,2) this w]
  show ?thesis using Some fd' w step by (cases r) (simp_all add: orderly_step_def spawn_port_thread_def)
qed

lemma rx_items_rings [simp]: "item_rings (rx_items env stopfd rxq f) = [rxq]"
  by (simp add: rx_items_def)

lemma tx_items_rings [simp]: "item_rings (tx_items env stopfd txq f) = [txq]"
  by (simp add: tx_items_def)

lemma port_start_step:
  fixes s :: "('q, 'ep) rings_world"
  assumes "console_libraries regs env" "po_state p = Inactive" "rxq < length (fst s)" "txq < length (fst s)"
  shows "orderly_step qo (ce_bits env) regs s (port_start env rxq txq stopfd p s)"
  unfolding port_start_def
proof (intro orderly_step_bind orderly_step_return)
  show "orderly_step qo (ce_bits env) regs s (port_shutdown env p s)"
    using assms(2) by (simp add: port_shutdown_def orderly_step_def)
next
  fix p' and s' :: "('q, 'ep) rings_world" assume "rewatched (fst s) (fst s')"
  then have l: "length (fst s') = length (fst s)" by (rule rewatched_length)
  show "orderly_step qo (ce_bits env) regs s'
      (spawn_port_thread env (\<lambda>stopfd. rx_items env stopfd rxq) stopfd (po_input p') s')"
    by (rule spawn_port_thread_step [OF assms(1)]) (use assms(3) l in simp_all)
  fix rx_thread :: "port_thread option" and s'' :: "('q, 'ep) rings_world" assume "rewatched (fst s') (fst s'')"
  with l have l': "length (fst s'') = length (fst s)" by (simp add: rewatched_length)
  show "orderly_step qo (ce_bits env) regs s''
      (spawn_port_thread env (\<lambda>stopfd. tx_items env stopfd txq) stopfd (po_output p') s'')"
    by (rule spawn_port_thread_step [OF assms(1)]) (use assms(4) l' in simp_all)
qed

lemma queue_index_bound: "p < n \<Longrightarrow> port_id_to_queue_idx d p < num_queues n"
  by (cases d) (auto simp: num_queues_def)

lemma start_ports_step:
  fixes s :: "('q, 'ep) rings_world"
  assumes "console_libraries regs env"
  shows "list_all (\<lambda>p. po_state p = Inactive) ps \<Longrightarrow> num_queues (port_id + length ps) \<le> length (fst s) \<Longrightarrow>
    orderly_step qo (ce_bits env) regs s (start_ports env stopfd port_id ps s)"
proof (induction ps arbitrary: port_id s)
  case Nil
  then show ?case by (simp add: orderly_step_def)
next
  case (Cons p ps)
  have b: "port_id_to_queue_idx d port_id < length (fst s)" for d
    using queue_index_bound [of port_id "port_id + length (p # ps)" d] Cons.prems(2) by simp
  have "is_ok (ce_try_clone env stopfd)" using assms by (simp add: console_libraries_def)
  then obtain stopfd' where c: "ce_try_clone env stopfd = Ok stopfd'" by (cases "ce_try_clone env stopfd") auto
  have "start_ports env stopfd port_id (p # ps) s =
      bind_method (port_start env (port_id_to_queue_idx Rx port_id) (port_id_to_queue_idx Tx port_id) stopfd' p) (\<lambda>p'.
      bind_method (start_ports env stopfd (Suc port_id) ps) (\<lambda>ps'. return_method (p' # ps'))) s"
    using b [of Rx] b [of Tx] c by (simp del: port_id_to_queue_idx.simps)
  moreover have "orderly_step qo (ce_bits env) regs s \<dots>"
  proof (intro orderly_step_bind orderly_step_return)
    show "orderly_step qo (ce_bits env) regs s
        (port_start env (port_id_to_queue_idx Rx port_id) (port_id_to_queue_idx Tx port_id) stopfd' p s)"
      using Cons.prems(1) b by (intro port_start_step [OF assms]) (simp_all del: port_id_to_queue_idx.simps)
    fix p' :: port and s' :: "('q, 'ep) rings_world" assume "rewatched (fst s) (fst s')"
    then have "length (fst s') = length (fst s)" by (rule rewatched_length)
    then show "orderly_step qo (ce_bits env) regs s' (start_ports env stopfd (Suc port_id) ps s')"
      using Cons.prems by (intro Cons.IH) simp_all
  qed
  ultimately show ?case by simp
qed

text \<open>A console that has not been activated.\<close>

definition idle_console :: "nat \<Rightarrow> console \<Rightarrow> bool" where
  "idle_console n d \<longleftrightarrow> length (co_ports d) = n \<and> n \<noteq> 0 \<and> list_all (\<lambda>p. po_state p = Inactive) (co_ports d) \<and>
     length (co_queues d) = num_queues n"

lemma main_worker_new_step:
  assumes "console_libraries regs env" "idle_console n d" "num_queues n \<le> length (fst s)"
  shows "orderly_step qo (ce_bits env) regs s (main_worker_new env (co_ports d) stopfd s)"
proof -
  have "is_ok (ce_new_eventfd env)" using assms(1) by (simp add: console_libraries_def)
  then obtain ev where ev: "ce_new_eventfd env = Ok ev" by (cases "ce_new_eventfd env") auto
  have "\<not> (CONTROL_RXQ_INDEX \<ge> length (fst s) \<or> CONTROL_TXQ_INDEX \<ge> length (fst s))"
    using assms(2,3) by (cases n) (auto simp: idle_console_def num_queues_def CONTROL_RXQ_INDEX_def CONTROL_TXQ_INDEX_def)
  with ev have "main_worker_new env (co_ports d) stopfd s
      = bind_method (start_ports env stopfd 0 (co_ports d)) (\<lambda>ps. return_method (ps, ev)) s"
    by (simp add: main_worker_new_def)
  moreover have "orderly_step qo (ce_bits env) regs s \<dots>"
    using assms by (intro orderly_step_bind orderly_step_return start_ports_step) (simp_all add: idle_console_def)
  ultimately show ?thesis by simp
qed

lemma spawn_main_step:
  assumes "console_libraries regs env" "4 \<le> length (fst s)" "spawn_main env ports ev stopfd s = (t, s')"
  shows "orderly_rings qo (ce_bits env) regs s \<Longrightarrow> orderly_rings qo (ce_bits env) regs s'" "rewatched (fst s) (fst s')"
proof -
  have c: "epoll_contract (ce_ctl env) regs" "epoll_create_contract regs (ce_create env)"
    using assms(1) by (simp_all add: console_libraries_def)
  have i: "item_rings (main_items env ev stopfd) = [2, 3]"
    by (simp add: main_items_def CONTROL_RXQ_INDEX_def CONTROL_TXQ_INDEX_def)
  obtain r s1 where w: "setup_watcher (ce_create env) (ce_ctl env) (ce_bits env) (main_items env ev stopfd) s = (r, s1)"
    by (rule prod.exhaust)
  have d: "distinct (item_rings (main_items env ev stopfd))"
    "\<And>j. j \<in> set (item_rings (main_items env ev stopfd)) \<Longrightarrow> j < length (fst s)"
    using i assms(2) by auto
  have "s' = s1" using assms(3) w by (cases r) (simp_all add: spawn_main_def)
  then show "orderly_rings qo (ce_bits env) regs s \<Longrightarrow> orderly_rings qo (ce_bits env) regs s'" "rewatched (fst s) (fst s')"
    using setup_watcher_step(1) [OF c d w, where qo = qo] setup_watcher_step(2) [OF c d w] by blast+
qed

lemma console_activate_safe:
  assumes "console_libraries regs env" "idle_console n d" "length vs = num_queues n"
    and "orderly_rings qo (ce_bits env) regs (vs, w)" "console_activate env mem (d, vs, w) = (r, d', vs', w')"
  shows "r = Ok () \<and> orderly_rings qo (ce_bits env) regs (vs', w') \<and> rewatched vs vs'"
proof -
  have "is_ok (ce_try_clone env (co_stopfd d))" using assms(1) by (simp add: console_libraries_def)
  then obtain fd where fd: "ce_try_clone env (co_stopfd d) = Ok fd" by (cases "ce_try_clone env (co_stopfd d)") auto
  obtain q s1 where q: "main_worker_new env (co_ports d) fd (vs, w) = (q, s1)" by (rule prod.exhaust)
  have m: "is_ok q" "orderly_rings qo (ce_bits env) regs s1" "rewatched vs (fst s1)"
    using main_worker_new_step [OF assms(1,2), of "(vs, w)" qo fd] assms(3,4) q by (simp_all add: orderly_step_def)
  then obtain ps ev where ok: "q = Ok (ps, ev)" by (cases q) auto
  obtain t s2 where t: "spawn_main env ps ev fd s1 = (t, s2)" by (rule prod.exhaust)
  have l: "4 \<le> length (fst s1)"
    using assms(2,3) rewatched_length [OF m(3)] by (cases n) (simp_all add: idle_console_def num_queues_def)
  have "co_ports d \<noteq> []" using assms(2) by (auto simp: idle_console_def)
  then have "r = Ok ()" "(vs', w') = s2"
    using assms(5) fd q ok t by (cases s2; simp add: console_activate_def)+
  with spawn_main_step(1) [OF assms(1) l t, where qo = qo] spawn_main_step(2) [OF assms(1) l t] m show ?thesis
    by (auto intro: rewatched_trans)
qed

section \<open>The contract of the backend\<close>

lemma console_stop_world: "console_stop_call env (d, w) = (r, d', w') \<Longrightarrow> w' e = None \<or> w' e = w e"
  by (auto simp: console_stop_call_def console_stop_def split: option.splits main_thread.splits if_splits)

lemma console_stop_ports:
  "co_ports (fst (snd (console_stop_call env (d, w)))) = co_ports d" "co_queues (fst (snd (console_stop_call env (d, w)))) = co_queues d"
  by (auto simp: console_stop_call_def console_stop_def split: option.splits main_thread.splits)

lemma console_reset_state: "snd (console_reset env s) = snd (console_stop_call env s)"
  by (auto simp: console_reset_def bind_method_def return_method_def split: prod.splits rust.splits)

text \<open>What the handler's environment must be for the console of \<open>ce\<close>.\<close>

definition console_handler_env ::
  "('ep \<Rightarrow> nat \<Rightarrow> epoll_event option) \<Rightarrow> u64 \<times> u64 \<times> u64 \<Rightarrow> ('q, 'ep) console_env \<Rightarrow> (console, 'q, 'ep) handler_env \<Rightarrow> bool" where
  "console_handler_env regs bits ce env \<longleftrightarrow>
     console_libraries regs ce \<and> queue_contract (he_queue env) \<and> calm_env env \<and> he_ctl env = ce_ctl ce \<and> he_bits env = ce_bits ce \<and>
     he_device env = vhost_user_console (he_protocol_features env) bits ce"

lemmas console_ops_defs = vhost_user_console_def implementer_def console_ops_def impl_set_acked_features_def

lemma console_vhost_backend:
  assumes "console_handler_env regs bits ce env"
  shows "vhost_backend env regs (idle_console n) (num_queues n)"
proof unfold_locales
  note a = assms [unfolded console_handler_env_def]
  show "epoll_contract (he_ctl env) regs" "queue_contract (he_queue env)" "calm_env env"
    using a by (simp_all add: console_libraries_def)
  show "length (dv_queues (he_device env) d) = num_queues n" if "idle_console n d" for d
    using a that by (simp add: console_ops_defs idle_console_def)
  show "r \<noteq> Panic \<and> length vs' = num_queues n \<and> rings_synced (he_queue env) (he_bits env) regs vs' w'"
    if "idle_console n d" "length vs = num_queues n" "rings_synced (he_queue env) (he_bits env) regs vs w"
      "list_all (settled (he_queue env)) vs" "dv_activate (he_device env) mem (d, vs, w) = (r, d', vs', w')" for d vs w mem r d' vs' w'
  proof -
    have "r = Ok () \<and> orderly_rings (he_queue env) (ce_bits ce) regs (vs', w') \<and> rewatched vs vs'"
      by (rule console_activate_safe [where regs = regs and env = ce and mem = mem and d = d and d' = d' and w = w])
        (use a that in \<open>simp_all add: orderly_rings_def console_ops_defs\<close>)
    with that a show ?thesis by (auto simp: orderly_rings_def dest: rewatched_length)
  qed
  show "fst (dv_set_acked_features (he_device env) f d) = Ok ()"
    if "f AND he_protocol_features env = he_protocol_features env" for f d
    using a that by (simp add: console_ops_defs)
  show "idle_console n (snd (dv_set_acked_features (he_device env) f d))" if "idle_console n d" for f d
    using a that by (simp add: console_ops_defs idle_console_def console_set_acked_features_def)
  show "fst (dv_write_config (he_device env) off buf d) \<noteq> Panic" for off buf d
    using a by (simp add: console_ops_defs console_write_config_def)
  show "idle_console n (snd (dv_write_config (he_device env) off buf d))" if "idle_console n d" for off buf d
    using a that by (simp add: console_ops_defs console_write_config_def)
  show "idle_console n (fst (snd (dv_reset (he_device env) (d, w))))" if "idle_console n d" for d w
    using a that by (simp add: console_ops_defs idle_console_def console_reset_state console_stop_ports)
  show "w' e = None \<or> w' e = w e" if "dv_reset (he_device env) (d, w) = (rb, d', w')" for d w rb d' w' e
    using console_stop_world [of ce d w _ d' w' e] console_reset_state [of ce "(d, w)"] that a
    by (cases "console_stop_call ce (d, w)") (auto simp: console_ops_defs)
  show "idle_console n (dv_set_gpu_socket (he_device env) b d)" if "idle_console n d" for b d
    using a that by (simp add: console_ops_defs default_set_gpu_socket_def)
qed

lemma ports_new_idle:
  "(ports_new i xs :: (port list, 'e) rust) = Ok ps \<Longrightarrow> length ps = length xs \<and> list_all (\<lambda>p. po_state p = Inactive) ps"
proof (induction xs arbitrary: i ps)
  case (Cons x xs)
  then obtain p ps' where p: "(port_new (of_nat i) x :: (port, 'e) rust) = Ok p"
    "(ports_new (Suc i) xs :: (port list, 'e) rust) = Ok ps'" "ps = p # ps'"
    by (auto simp: and_then_eq_Ok)
  then have "po_state p = Inactive" by (cases x) (auto split: option.splits)
  with Cons.IH p show ?case by simp
qed simp

lemma console_new_idle:
  assumes "console_new eventfd descriptions = Ok d"
  shows "idle_console (length descriptions) d"
  using assms by (auto simp: console_new_def idle_console_def and_then_eq_Ok split: if_splits dest!: ports_new_idle)

section \<open>A concrete console\<close>

definition plain_console_env :: "(bool \<times> u16, nat \<Rightarrow> epoll_event option) console_env" where
  "plain_console_env = \<lparr>ce_create = first_free, ce_ctl = map_ctl, ce_bits = linux_event_bits, ce_edge_triggered = 0x80000000,
     ce_try_clone = (\<lambda>fd. Ok (fd + 100)), ce_new_eventfd = Ok 50, ce_efd_write = (\<lambda>_. Ok ()), ce_main_panicked = (\<lambda>_. False)\<rparr>"

definition plain_console_handler_env :: "(console, bool \<times> u16, nat \<Rightarrow> epoll_event option) handler_env" where
  "plain_console_handler_env = plain_env (vhost_user_console 0x40000000 (1, 0x200, 8) plain_console_env)"

definition plain_console :: console where
  "plain_console = (case console_new (Ok 3) [ConsoleDescription (Some 10) (Some 11)] of Ok d \<Rightarrow> d)"

definition plain_console_handler :: "request list \<Rightarrow> (console, bool \<times> u16, nat \<Rightarrow> epoll_event option) handler" where
  "plain_console_handler xs = fold (request_step plain_console_handler_env) xs
     (case handler_new plain_console_handler_env plain_console [] (\<lambda>_. None) \<lparr>logs = (\<lambda>_. []), inners = (\<lambda>_. None)\<rparr> of Ok h \<Rightarrow> h)"

lemma plain_console_env_ok: "console_handler_env (\<lambda>ep. ep) (1, 0x200, 8) plain_console_env plain_console_handler_env"
  using plain_env_contracts [of "vhost_user_console 0x40000000 (1, 0x200, 8) plain_console_env"] epoll_contract_map_ctl first_free_contract
  by (simp add: console_handler_env_def plain_console_handler_env_def console_libraries_def plain_console_env_def plain_env_def)

interpretation plain_console_backend: vhost_backend plain_console_handler_env "\<lambda>ep. ep" "idle_console n" "num_queues n" for n
  by (rule console_vhost_backend [OF plain_console_env_ok])

lemma plain_console_new: "console_new (Ok 3) [ConsoleDescription (Some 10) (Some 11)] = Ok plain_console"
  by (simp add: plain_console_def console_new_def)

lemma plain_console_handler_new:
  "handler_new plain_console_handler_env plain_console [] (\<lambda>_. None) \<lparr>logs = (\<lambda>_. []), inners = (\<lambda>_. None)\<rparr> = Ok (plain_console_handler [])"
  by (simp add: plain_console_handler_def handler_new_def plain_console_handler_env_def plain_env_def console_ops_defs plain_console_def
      console_new_def num_queues_def vring_new_def flag_queue_def eval_nat_numeral)

abbreviation unused_ring :: "(bool \<times> u16) vring" where
  "unused_ring \<equiv> \<lparr>queue = (False, 0), enabled = False, kick = None, call = None, err = None, epolls = []\<rparr>"

lemma plain_console_handler_rings:
  "h_vrings (plain_console_handler [SetOwner, SetMemTable [] []]) = replicate 4 unused_ring"
  "h_vrings (plain_console_handler [SetOwner, SetMemTable [] [], SetVringCall 0 None]) = replicate 4 unused_ring"
  by (simp_all add: plain_console_handler_def handler_new_def plain_console_handler_env_def plain_env_def console_ops_defs plain_console_def
      console_new_def num_queues_def vring_new_def flag_queue_def eval_nat_numeral request_step_def replies_def set_owner_def
      set_mem_table_def plain_memory_def set_vring_call_def indexed_def initialize_vring_def on_vring_def set_call_def
      has_kick_event_def is_started_def)

lemma plain_console_conforming:
  "conforming plain_console_handler_env (\<lambda>ep. ep) (SetVringKick 0 (Some 7))
    (plain_console_handler [SetOwner, SetMemTable [] [], SetVringCall 0 None])"
  by (auto simp: plain_console_handler_rings new_kick_fd_def fresh_fd_def other_kicks_def ready_to_activate_def settled_def)

lemma plain_console_session:
  "session plain_console_handler_env (\<lambda>ep. ep) (plain_console_handler [])
    (plain_console_handler [SetOwner, SetMemTable [] [], SetVringCall 0 None])"
proof -
  have step: "session plain_console_handler_env (\<lambda>ep. ep) (plain_console_handler []) (plain_console_handler (xs @ [x]))"
    if "session plain_console_handler_env (\<lambda>ep. ep) (plain_console_handler []) (plain_console_handler xs)"
      "conforming plain_console_handler_env (\<lambda>ep. ep) x (plain_console_handler xs)" for xs x
    using session_step [OF that] by (simp add: plain_console_handler_def)
  have 1: "session plain_console_handler_env (\<lambda>ep. ep) (plain_console_handler []) (plain_console_handler [])"
    by (rule session_start)
  have 2: "session plain_console_handler_env (\<lambda>ep. ep) (plain_console_handler []) (plain_console_handler [SetOwner])"
    using step [OF 1, of SetOwner] by simp
  have 3: "session plain_console_handler_env (\<lambda>ep. ep) (plain_console_handler []) (plain_console_handler [SetOwner, SetMemTable [] []])"
    using step [OF 2, of "SetMemTable [] []"] by simp
  have "conforming plain_console_handler_env (\<lambda>ep. ep) (SetVringCall 0 None) (plain_console_handler [SetOwner, SetMemTable [] []])"
    by (simp add: plain_console_handler_rings ready_to_activate_def settled_def)
  with step [OF 3, of "SetVringCall 0 None"] show ?thesis by simp
qed

section \<open>Properties\<close>



text \<open>Reading the configuration space of the console: an offset beyond its 12 bytes is refused, and every other read
  gets the bytes from the offset on, padded with zeros to the length that was asked for; it never panics.\<close>

lemma console_config_space:
  "console_read_config offset n d =
    (if offset \<ge> 12 then Err ()
     else if offset + n > usize_max then Ok (replicate n 0)
     else Ok (take n (drop offset (put virtio_console_config_layout (co_config d)) @ replicate n 0)))"
proof (cases "offset < 12 \<and> offset + n \<le> usize_max")
  case False
  then show ?thesis by (auto simp: console_read_config_def console_config_bytes.put_length checked_add_def Let_def)
next
  case True
  define bytes where "bytes = drop offset (put virtio_console_config_layout (co_config d))"
  have l: "length bytes = 12 - offset" by (simp add: bytes_def console_config_bytes.put_length)
  have "take (min (offset + n) 12 - offset) bytes = take n bytes"
    using True l by (cases "offset + n \<le> 12") simp_all
  moreover have "n - length (take n bytes) = n - length bytes" by simp
  ultimately show ?thesis
    using True by (simp add: console_read_config_def console_config_bytes.put_length checked_add_def Let_def bytes_def [symmetric])
qed

end
