(* ===== verification/Console_Streams.thy ===== *)
theory Console_Streams
  imports Console_Io
begin

text \<open>
  The standard streams as inputs and outputs of ports, the free functions of \<^verbatim>\<open>virtio-console/src/port_io.rs\<close>, and
  \<^verbatim>\<open>set_raw_mode\<close> of \<^verbatim>\<open>vhost-console/src/main.rs\<close>. The system calls are the record \<open>unix_calls\<close> over the state of the
  kernel; the flags of \<^verbatim>\<open>fcntl\<close> are C integers, negative on failure. An owned descriptor is closed when it is dropped.
\<close>

section \<open>System calls\<close>

type_synonym errno = nat

record termios =
  local_flags :: u32
  other_modes :: nat

record 'k unix_calls =
  ux_dup :: "nat \<Rightarrow> ('k, nat, errno) rust_method"
  ux_close :: "nat \<Rightarrow> 'k \<Rightarrow> 'k"
  ux_getfl :: "nat \<Rightarrow> 'k \<Rightarrow> 32 word \<times> 'k"
  ux_setfl :: "nat \<Rightarrow> 32 word \<Rightarrow> 'k \<Rightarrow> 32 word \<times> 'k"
  ux_errno :: "'k \<Rightarrow> errno"
  ux_poll_out :: "nat \<Rightarrow> ('k, unit, errno) rust_method"
  ux_tcgetattr :: "nat \<Rightarrow> ('k, termios, errno) rust_method"
  ux_tcsetattr :: "nat \<Rightarrow> termios \<Rightarrow> ('k, unit, errno) rust_method"
  ux_O_NONBLOCK :: "32 word"
  ux_ECHO :: u32
  ux_ICANON :: u32

definition STDIN_FILENO :: nat where "STDIN_FILENO = 0"
definition STDOUT_FILENO :: nat where "STDOUT_FILENO = 1"
definition STDERR_FILENO :: nat where "STDERR_FILENO = 2"

section \<open>Streams\<close>

definition make_non_blocking :: "'k unix_calls \<Rightarrow> nat \<Rightarrow> ('k, unit, errno) rust_method" where
  "make_non_blocking u fd k =
     (let (flags, k1) = ux_getfl u fd k
      in if sint flags < 0 then (Err (ux_errno u k1), k1)
         else let (r, k2) = ux_setfl u fd (flags OR ux_O_NONBLOCK u) k1
              in if sint r < 0 then (Err (ux_errno u k2), k2) else (Ok (), k2))"

text \<open>Duplicates the descriptor and makes it non-blocking; a duplicate that cannot be made so is dropped.\<close>

definition raw_fd_dup :: "'k unix_calls \<Rightarrow> nat \<Rightarrow> ('k, nat, errno) rust_method" where
  "raw_fd_dup u raw_fd k =
     (case ux_dup u raw_fd k of
        (Ok fd, k1) \<Rightarrow>
          (case make_non_blocking u fd k1 of
             (Ok _, k2) \<Rightarrow> (Ok fd, k2)
           | (Err e, k2) \<Rightarrow> (Err e, ux_close u fd k2)
           | (Panic, k2) \<Rightarrow> (Panic, k2))
      | (Err e, k1) \<Rightarrow> (Err e, k1)
      | (Panic, k1) \<Rightarrow> (Panic, k1))"

definition stdin_port :: "'k unix_calls \<Rightarrow> ('k, nat, errno) rust_method" where
  "stdin_port u = raw_fd_dup u STDIN_FILENO"

definition output_to_raw_fd_dup :: "'k unix_calls \<Rightarrow> nat \<Rightarrow> ('k, nat, errno) rust_method" where
  "output_to_raw_fd_dup u fd = raw_fd_dup u fd"

definition stdout_port :: "'k unix_calls \<Rightarrow> ('k, nat, errno) rust_method" where
  "stdout_port u = output_to_raw_fd_dup u STDOUT_FILENO"

definition stderr_port :: "'k unix_calls \<Rightarrow> ('k, nat, errno) rust_method" where
  "stderr_port u = output_to_raw_fd_dup u STDERR_FILENO"

definition wait_until_writable :: "'k unix_calls \<Rightarrow> nat \<Rightarrow> ('k, unit, 'e) rust_method" where
  "wait_until_writable u fd k = (let (r, k1) = ux_poll_out u fd k in (unwrap r, k1))"

definition set_raw_mode :: "'k unix_calls \<Rightarrow> nat \<Rightarrow> ('k, unit, errno) rust_method" where
  "set_raw_mode u term = bind_method (ux_tcgetattr u term) (\<lambda>termios.
     ux_tcsetattr u term (termios\<lparr>local_flags := local_flags termios AND NOT (ux_ECHO u OR ux_ICANON u)\<rparr>))"

section \<open>What the calls do to the open files\<close>

text \<open>\<open>file\<close> says which open file a descriptor refers to, \<open>flags\<close> are the status flags of an open file: a duplicate
  refers to the same open file, and \<^verbatim>\<open>F_SETFL\<close> sets the flags of the file.\<close>

definition unix_contract :: "'k unix_calls \<Rightarrow> ('k \<Rightarrow> nat \<Rightarrow> 'f option) \<Rightarrow> ('k \<Rightarrow> 'f \<Rightarrow> 32 word) \<Rightarrow> bool" where
  "unix_contract u file flags \<longleftrightarrow>
     (\<forall>fd k n k'. ux_dup u fd k = (Ok n, k') \<longrightarrow>
        file k fd \<noteq> None \<and> file k n = None \<and> file k' = (file k)(n := file k fd) \<and> flags k' = flags k) \<and>
     (\<forall>fd k r k'. ux_getfl u fd k = (r, k') \<longrightarrow>
        file k' = file k \<and> flags k' = flags k \<and> (0 \<le> sint r \<longrightarrow> (\<exists>f. file k fd = Some f \<and> r = flags k f))) \<and>
     (\<forall>fd b k r k'. ux_setfl u fd b k = (r, k') \<longrightarrow> 0 \<le> sint r \<longrightarrow>
        file k' = file k \<and> (\<exists>f. file k fd = Some f \<and> flags k' = (flags k)(f := b)))"

lemma make_non_blocking_ok:
  assumes "unix_contract u file flags" "make_non_blocking u fd k = (Ok (), k')" "file k fd = Some f"
  shows "file k' = file k \<and> flags k' = (flags k)(f := flags k f OR ux_O_NONBLOCK u)"
proof -
  obtain b k1 where g: "ux_getfl u fd k = (b, k1)" by (rule prod.exhaust)
  obtain r k2 where s: "ux_setfl u fd (b OR ux_O_NONBLOCK u) k1 = (r, k2)" by (rule prod.exhaust)
  have p: "0 \<le> sint b" "0 \<le> sint r" "k' = k2"
    using assms(2) g s by (simp_all add: make_non_blocking_def split: if_splits)
  have "file k1 = file k" "flags k1 = flags k" "b = flags k f"
    using assms(1,3) g p(1) unfolding unix_contract_def by fastforce+
  moreover from this have "file k2 = file k1" "flags k2 = (flags k1)(f := b OR ux_O_NONBLOCK u)"
    using assms(1,3) s p(2) unfolding unix_contract_def by fastforce+
  ultimately show ?thesis by (simp add: p)
qed

lemma raw_fd_dup_ok:
  assumes "unix_contract u file flags" "raw_fd_dup u fd k = (Ok n, k')"
  obtains f where "file k fd = Some f" "file k n = None" "file k' = (file k)(n \<mapsto> f)"
    "flags k' = (flags k)(f := flags k f OR ux_O_NONBLOCK u)"
proof -
  obtain k1 where d: "ux_dup u fd k = (Ok n, k1)" "make_non_blocking u n k1 = (Ok (), k')"
    using assms(2) by (auto simp: raw_fd_dup_def split: prod.splits rust.splits)
  then obtain f where f: "file k fd = Some f" "file k n = None" "file k1 = (file k)(n \<mapsto> f)" "flags k1 = flags k"
    using assms(1) unfolding unix_contract_def by fastforce
  moreover from make_non_blocking_ok [OF assms(1) d(2), of f] f
  have "file k' = (file k)(n \<mapsto> f)" "flags k' = (flags k)(f := flags k f OR ux_O_NONBLOCK u)" by simp_all
  ultimately show thesis using that by blast
qed

section \<open>A concrete kernel\<close>

text \<open>Descriptors are numbers of open files, whose flags are a list.\<close>

type_synonym kernel = "nat list \<times> 32 word list"

definition kernel_file :: "kernel \<Rightarrow> nat \<Rightarrow> nat option" where
  "kernel_file k fd = (if fd < length (fst k) \<and> fst k ! fd < length (snd k) then Some (fst k ! fd) else None)"

definition kernel_flags :: "kernel \<Rightarrow> nat \<Rightarrow> 32 word" where
  "kernel_flags k f = (if f < length (snd k) then snd k ! f else 0)"

definition plain_unix :: "kernel unix_calls" where
  "plain_unix = \<lparr>
     ux_dup = (\<lambda>fd k. case kernel_file k fd of None \<Rightarrow> (Err 9, k) | Some f \<Rightarrow> (Ok (length (fst k)), fst k @ [f], snd k)),
     ux_close = (\<lambda>_ k. k),
     ux_getfl = (\<lambda>fd k. (case kernel_file k fd of None \<Rightarrow> - 1 | Some f \<Rightarrow> kernel_flags k f, k)),
     ux_setfl = (\<lambda>fd b k. case kernel_file k fd of None \<Rightarrow> (- 1, k) | Some f \<Rightarrow> (0, fst k, (snd k)[f := b])),
     ux_errno = (\<lambda>_. 9), ux_poll_out = (\<lambda>_. return_method ()),
     ux_tcgetattr = (\<lambda>_. return_method \<lparr>local_flags = 10, other_modes = 0\<rparr>), ux_tcsetattr = (\<lambda>_ _. return_method ()),
     ux_O_NONBLOCK = 0x800, ux_ECHO = 8, ux_ICANON = 2\<rparr>"

lemma plain_unix_contract: "unix_contract plain_unix kernel_file kernel_flags"
  unfolding unix_contract_def plain_unix_def
  by (auto simp: kernel_file_def kernel_flags_def nth_append nth_list_update fun_eq_iff split: if_splits)

end
