(* ===== verification/Vhost_Daemon.thy ===== *)
theory Vhost_Daemon
  imports Vhost_User_Session
begin

text \<open>
  The daemon around the handler, \<^verbatim>\<open>VhostUserDaemon\<close> of \<^verbatim>\<open>vhost-user/src/lib.rs\<close>: accepting a connection, the
  loop over its requests, waiting for its end and \<^verbatim>\<open>serve\<close>. The crate \<^verbatim>\<open>vhost\<close> (sockets, parsing of messages, and the
  call of the handler's method for a message) is the record \<open>daemon_libs\<close>. Between the start of the daemon thread
  and its join nobody else touches the handler, so the thread is modelled where it is joined: a thread is the connection
  it serves. Both loops may run forever, and are partial functions.
\<close>

section \<open>State and errors\<close>

text \<open>The libraries: creating and preparing a listener, accepting (\<open>None\<close> when there is no connection yet), connecting,
  spawning a thread, and handling one request of a connection with the handler.\<close>

record ('l, 'c, 'h) daemon_libs =
  dl_listener_new :: "('l, vhost_user_error) rust"
  dl_backend_listener_new :: "'l \<Rightarrow> ('l, vhost_user_error) rust"
  dl_accept :: "('l, 'c option, vhost_user_error) rust_method"
  dl_connect :: "('c, vhost_user_error) rust"
  dl_spawn :: "(unit, io_error) rust"
  dl_handle_request :: "('c \<times> 'h, unit, vhost_user_error) rust_method"

datatype daemon_error =
    NewVhostUserHandler handler_error
  | CreateBackendListener vhost_user_error
  | CreateBackendReqHandler vhost_user_error
  | CreateVhostUserListener vhost_user_error
  | StartDaemon io_error
  | WaitDaemon
  | HandleRequest vhost_user_error

fun handler_error_text :: "(nat \<Rightarrow> string) \<Rightarrow> handler_error \<Rightarrow> string" where
  "handler_error_text queue_text (CreateVring e) = ''failed to create vring: '' @ queue_text e"
| "handler_error_text queue_text MissingMemoryMapping = ''Missing memory mapping''"

fun daemon_error_text :: "(nat \<Rightarrow> string) \<Rightarrow> (vhost_user_error \<Rightarrow> string) \<Rightarrow> (io_error \<Rightarrow> string) \<Rightarrow> daemon_error \<Rightarrow> string" where
  "daemon_error_text qt vt it (NewVhostUserHandler e) = ''cannot create vhost-user user handler: '' @ handler_error_text qt e"
| "daemon_error_text qt vt it (CreateBackendListener e) = ''cannot create backend listener: '' @ vt e"
| "daemon_error_text qt vt it (CreateBackendReqHandler e) = ''cannot create backend req handler: '' @ vt e"
| "daemon_error_text qt vt it (CreateVhostUserListener e) = ''cannot create vhost-user-user listener: '' @ vt e"
| "daemon_error_text qt vt it (StartDaemon e) = ''failed to start daemon: '' @ it e"
| "daemon_error_text qt vt it WaitDaemon = ''failed to wait for daemon exit''"
| "daemon_error_text qt vt it (HandleRequest e) = ''failed to handle request: '' @ vt e"

record ('c, 'h) daemon =
  dm_name :: string
  dm_handler :: 'h
  dm_main_thread :: "'c option"

definition daemon_new ::
  "('d, 'q, 'ep) handler_env \<Rightarrow> string \<Rightarrow> 'd \<Rightarrow> guest_memory \<Rightarrow> 'ep world \<Rightarrow> log_store
    \<Rightarrow> (('c, ('d, 'q, 'ep) handler) daemon, daemon_error) rust" where
  "daemon_new env name backend atomic_mem w st =
     and_then (map_err NewVhostUserHandler (handler_new env backend atomic_mem w st)) (\<lambda>h.
       Ok \<lparr>dm_name = name, dm_handler = h, dm_main_thread = None\<rparr>)"

section \<open>The loops\<close>

text \<open>The body of the daemon thread: requests until one fails.\<close>

partial_function (option) request_loop ::
  "('l, 'c, 'h) daemon_libs \<Rightarrow> 'c \<Rightarrow> 'h \<Rightarrow> ((unit, daemon_error) rust \<times> 'h) option" where
  "request_loop libs c h =
     (case dl_handle_request libs (c, h) of
        (r, c', h') \<Rightarrow>
          (case r of
             Ok _ \<Rightarrow> request_loop libs c' h'
           | Err e \<Rightarrow> Some (Err (HandleRequest e), h')
           | Panic \<Rightarrow> Some (Panic, h')))"

partial_function (option) accept_loop :: "('l, 'c, 'h) daemon_libs \<Rightarrow> 'l \<Rightarrow> ('c, daemon_error) rust option" where
  "accept_loop libs l =
     (case dl_accept libs l of
        (r, l') \<Rightarrow>
          (case r of
             Err e \<Rightarrow> Some (Err (CreateBackendListener e))
           | Ok (Some c) \<Rightarrow> Some (Ok c)
           | Ok None \<Rightarrow> accept_loop libs l'
           | Panic \<Rightarrow> Some Panic))"

section \<open>Operations\<close>

definition start_daemon :: "('l, 'c, 'h) daemon_libs \<Rightarrow> 'c \<Rightarrow> (('c, 'h) daemon, unit, daemon_error) rust_method" where
  "start_daemon libs c dm =
     (case map_err StartDaemon (dl_spawn libs) of
        Ok _ \<Rightarrow> (Ok (), dm\<lparr>dm_main_thread := Some c\<rparr>)
      | Err e \<Rightarrow> (Err e, dm)
      | Panic \<Rightarrow> (Panic, dm))"

definition start_client :: "('l, 'c, 'h) daemon_libs \<Rightarrow> (('c, 'h) daemon, unit, daemon_error) rust_method" where
  "start_client libs dm =
     (case map_err CreateBackendReqHandler (dl_connect libs) of
        Ok c \<Rightarrow> start_daemon libs c dm
      | Err e \<Rightarrow> (Err e, dm)
      | Panic \<Rightarrow> (Panic, dm))"

definition daemon_start ::
  "('l, 'c, 'h) daemon_libs \<Rightarrow> 'l \<Rightarrow> ('c, 'h) daemon \<Rightarrow> ((unit, daemon_error) rust \<times> ('c, 'h) daemon) option" where
  "daemon_start libs listener dm =
     (case map_err CreateBackendListener (dl_backend_listener_new libs listener) of
        Ok l \<Rightarrow>
          (case accept_loop libs l of
             None \<Rightarrow> None
           | Some (Ok c) \<Rightarrow> Some (start_daemon libs c dm)
           | Some (Err e) \<Rightarrow> Some (Err e, dm)
           | Some Panic \<Rightarrow> Some (Panic, dm))
      | Err e \<Rightarrow> Some (Err e, dm)
      | Panic \<Rightarrow> Some (Panic, dm))"

text \<open>Joining a thread that panicked is an error.\<close>

fun join_result :: "(unit, daemon_error) rust \<Rightarrow> (unit, daemon_error) rust" where
  "join_result Panic = Err WaitDaemon"
| "join_result (Ok ()) = Ok ()"
| "join_result (Err (HandleRequest (SocketBroken _))) = Ok ()"
| "join_result (Err e) = Err e"

definition daemon_wait ::
  "('l, 'c, 'h) daemon_libs \<Rightarrow> ('c, 'h) daemon \<Rightarrow> ((unit, daemon_error) rust \<times> ('c, 'h) daemon) option" where
  "daemon_wait libs dm =
     (case dm_main_thread dm of
        None \<Rightarrow> Some (Ok (), dm)
      | Some c \<Rightarrow>
          (case request_loop libs c (dm_handler dm) of
             None \<Rightarrow> None
           | Some (r, h) \<Rightarrow> Some (join_result r, dm\<lparr>dm_handler := h, dm_main_thread := None\<rparr>)))"

fun serve_result :: "(unit, daemon_error) rust \<Rightarrow> (unit, daemon_error) rust" where
  "serve_result (Err (HandleRequest Disconnected)) = Ok ()"
| "serve_result (Err (HandleRequest PartialMessage)) = Ok ()"
| "serve_result r = r"

definition daemon_serve ::
  "('l, 'c, 'h) daemon_libs \<Rightarrow> ('c, 'h) daemon \<Rightarrow> ((unit, daemon_error) rust \<times> ('c, 'h) daemon) option" where
  "daemon_serve libs dm =
     (case map_err CreateVhostUserListener (dl_listener_new libs) of
        Ok listener \<Rightarrow>
          (case daemon_start libs listener dm of
             None \<Rightarrow> None
           | Some (Ok _, dm1) \<Rightarrow> map_option (\<lambda>(result, dm2). (serve_result result, dm2)) (daemon_wait libs dm1)
           | Some (r, dm1) \<Rightarrow> Some (r, dm1))
      | Err e \<Rightarrow> Some (Err e, dm)
      | Panic \<Rightarrow> Some (Panic, dm))"

section \<open>Contracts\<close>

text \<open>What a connection does: handling a request either hands one request of a conforming frontend to the handler or
  none at all; it panics only when the handler does; and a frontend sends finitely many messages, counted by \<open>remaining\<close>.
  \<open>I\<close> relates a connection to the state of the handler in which its next message conforms.\<close>

definition one_request ::
  "('d, 'q, 'ep) handler_env \<Rightarrow> ('ep \<Rightarrow> nat \<Rightarrow> epoll_event option) \<Rightarrow> ('d, 'q, 'ep) handler \<Rightarrow> ('d, 'q, 'ep) handler \<Rightarrow> bool" where
  "one_request env regs h h' \<longleftrightarrow> h' = h \<or> (\<exists>x. conforming env regs x h \<and> h' = request_step env x h)"

definition connection_contract ::
  "('c \<times> ('d, 'q, 'ep) handler, unit, vhost_user_error) rust_method \<Rightarrow> ('d, 'q, 'ep) handler_env
    \<Rightarrow> ('ep \<Rightarrow> nat \<Rightarrow> epoll_event option) \<Rightarrow> ('c \<Rightarrow> nat) \<Rightarrow> ('c \<Rightarrow> ('d, 'q, 'ep) handler \<Rightarrow> bool) \<Rightarrow> bool" where
  "connection_contract hr env regs remaining I \<longleftrightarrow>
     (\<forall>c h r c' h'. I c h \<longrightarrow> hr (c, h) = (r, c', h') \<longrightarrow>
        one_request env regs h h' \<and>
        (\<forall>u. r = Ok u \<longrightarrow> remaining c' < remaining c \<and> I c' h') \<and>
        (r = Panic \<longrightarrow> (\<exists>x. conforming env regs x h \<and> fst (handle env x h) = Panic)))"

text \<open>Accepting: there is a connection or an error after finitely many tries, counted by \<open>tries\<close>, and connections
  satisfy \<open>P\<close>.\<close>

definition accept_contract :: "('l, 'c option, vhost_user_error) rust_method \<Rightarrow> ('l \<Rightarrow> nat) \<Rightarrow> ('c \<Rightarrow> bool) \<Rightarrow> bool" where
  "accept_contract acc tries P \<longleftrightarrow>
     (\<forall>l r l'. acc l = (r, l') \<longrightarrow> r \<noteq> Panic \<and> (r = Ok None \<longrightarrow> tries l' < tries l) \<and> (\<forall>c. r = Ok (Some c) \<longrightarrow> P c))"

lemma accept_ends:
  assumes "accept_contract (dl_accept libs) tries P"
  shows "\<exists>r. accept_loop libs l = Some r \<and> ((\<exists>e. r = Err (CreateBackendListener e)) \<or> (\<exists>c. r = Ok c \<and> P c))"
proof (induction "tries l" arbitrary: l rule: less_induct)
  case less
  obtain r l' where a: "dl_accept libs l = (r, l')" by (rule prod.exhaust)
  with assms have "r \<noteq> Panic" "r = Ok None \<Longrightarrow> tries l' < tries l" "\<And>c. r = Ok (Some c) \<Longrightarrow> P c"
    unfolding accept_contract_def by blast+
  with less a show ?case
    by (subst accept_loop.simps) (auto split: rust.split option.split)
qed

text \<open>The loop ends, with the error of the last request.\<close>

lemma request_loop_ends:
  assumes "connection_contract (dl_handle_request libs) env regs remaining I"
    and "\<And>h x. session env regs h0 h \<Longrightarrow> conforming env regs x h \<Longrightarrow> fst (handle env x h) \<noteq> Panic"
  shows "session env regs h0 h \<Longrightarrow> I c h \<Longrightarrow>
    \<exists>e h'. request_loop libs c h = Some (Err (HandleRequest e), h') \<and> session env regs h0 h'"
proof (induction "remaining c" arbitrary: c h rule: less_induct)
  case less
  obtain r c' h' where q: "dl_handle_request libs (c, h) = (r, c', h')" by (metis surj_pair)
  have k: "one_request env regs h h'" "\<And>u. r = Ok u \<Longrightarrow> remaining c' < remaining c \<and> I c' h'"
    "r = Panic \<Longrightarrow> \<exists>x. conforming env regs x h \<and> fst (handle env x h) = Panic"
    using assms(1) less.prems(2) q unfolding connection_contract_def by blast+
  have s: "session env regs h0 h'"
    using k(1) less.prems(1) by (auto simp: one_request_def intro: session_step)
  show ?case
  proof (cases r)
    case (Ok u)
    with k(2) less.hyps s q show ?thesis by (subst request_loop.simps) simp
  next
    case (Err e)
    with s q show ?thesis by (subst request_loop.simps) simp
  next
    case Panic
    with k(3) assms(2) less.prems(1) show ?thesis by blast
  qed
qed

text \<open>How a vhost-user error of the connection comes out of \<^verbatim>\<open>serve\<close>.\<close>

fun hang_up :: "vhost_user_error \<Rightarrow> bool" where
  "hang_up Disconnected = True"
| "hang_up PartialMessage = True"
| "hang_up (SocketBroken _) = True"
| "hang_up _ = False"

lemma serve_connection_error:
  "serve_result (join_result (Err (HandleRequest e))) = (if hang_up e then Ok () else Err (HandleRequest e))"
  by (cases e) simp_all

text \<open>All ways through \<^verbatim>\<open>serve\<close>.\<close>

lemma serve_cases:
  assumes "dl_listener_new libs \<noteq> Panic" "\<And>l. dl_backend_listener_new libs l \<noteq> Panic" "dl_spawn libs \<noteq> Panic"
    and accept: "\<And>l. \<exists>r. accept_loop libs l = Some r \<and> ((\<exists>e. r = Err (CreateBackendListener e)) \<or> (\<exists>c. r = Ok c \<and> P c))"
    and loop: "\<And>c. P c \<Longrightarrow> \<exists>e h'. request_loop libs c (dm_handler dm) = Some (Err (HandleRequest e), h') \<and> Q h'"
  shows "\<exists>r dm'. daemon_serve libs dm = Some (r, dm') \<and>
    ((\<exists>x. r = Err x \<and> dm' = dm) \<or>
     (\<exists>c e. request_loop libs c (dm_handler dm) = Some (Err (HandleRequest e), dm_handler dm') \<and>
        Q (dm_handler dm') \<and> dm_main_thread dm' = None \<and> r = (if hang_up e then Ok () else Err (HandleRequest e))))"
proof (cases "dl_listener_new libs")
  case (Ok l0)
  show ?thesis
  proof (cases "dl_backend_listener_new libs l0")
    case (Ok l)
    note listening = \<open>dl_listener_new libs = Ok l0\<close> Ok
    from accept [of l] consider e where "accept_loop libs l = Some (Err e)" | c where "accept_loop libs l = Some (Ok c)" "P c"
      by blast
    then show ?thesis
    proof cases
      case 1
      with listening show ?thesis by (simp add: daemon_serve_def daemon_start_def)
    next
      case 2
      then obtain e h' where l: "request_loop libs c (dm_handler dm) = Some (Err (HandleRequest e), h')" "Q h'"
        using loop by blast
      show ?thesis
      proof (cases "dl_spawn libs")
        case (Ok u)
        let ?dm = "dm\<lparr>dm_handler := h', dm_main_thread := None\<rparr>"
        have "daemon_serve libs dm = Some (serve_result (join_result (Err (HandleRequest e))), ?dm)"
          using listening 2 l Ok by (simp add: daemon_serve_def daemon_start_def start_daemon_def daemon_wait_def)
        then show ?thesis using l by (intro exI conjI disjI2) (auto simp: serve_connection_error)
      qed (use assms(3) listening 2 in \<open>simp_all add: daemon_serve_def daemon_start_def start_daemon_def\<close>)
    qed
  qed (use assms(2) Ok in \<open>simp_all add: daemon_serve_def daemon_start_def\<close>)
qed (use assms(1) in \<open>simp_all add: daemon_serve_def\<close>)

text \<open>After the wait there is no thread left: a second wait succeeds at once.\<close>

lemma second_wait: "daemon_wait libs dm = Some (r, dm') \<Longrightarrow> daemon_wait libs dm' = Some (Ok (), dm')"
  by (auto simp: daemon_wait_def split: option.splits)

text \<open>A client connects instead of listening, and is then served in the same way.\<close>

lemma client_served:
  assumes "dl_connect libs = Ok c" "dl_spawn libs = Ok ()" "request_loop libs c (dm_handler dm) = Some (r, h')"
  shows "\<exists>dm1. start_client libs dm = (Ok (), dm1) \<and>
    daemon_wait libs dm1 = Some (join_result r, dm\<lparr>dm_handler := h', dm_main_thread := None\<rparr>)"
  using assms by (simp add: start_client_def start_daemon_def daemon_wait_def)

section \<open>A concrete connection\<close>

text \<open>A frontend that sends a list of requests and hangs up.\<close>

fun scripted :: "('d, 'q, 'ep) handler_env \<Rightarrow> (request list \<times> ('d, 'q, 'ep) handler, unit, vhost_user_error) rust_method" where
  "scripted env ([], h) = (Err Disconnected, [], h)"
| "scripted env (x # xs, h) =
     (case handle env x h of
        (Panic, h') \<Rightarrow> (Panic, xs, h')
      | (_, h') \<Rightarrow> (Ok (), xs, h'))"

fun script_conforms :: "('d, 'q, 'ep) handler_env \<Rightarrow> ('ep \<Rightarrow> nat \<Rightarrow> epoll_event option) \<Rightarrow> request list \<Rightarrow> ('d, 'q, 'ep) handler \<Rightarrow> bool" where
  "script_conforms env regs [] h \<longleftrightarrow> True"
| "script_conforms env regs (x # xs) h \<longleftrightarrow> conforming env regs x h \<and> script_conforms env regs xs (request_step env x h)"

lemma scripted_contract: "connection_contract (scripted env) env regs length (script_conforms env regs)"
proof -
  have "one_request env regs h h' \<and> (\<forall>u. r = Ok u \<longrightarrow> length c' < length c \<and> script_conforms env regs c' h') \<and>
      (r = Panic \<longrightarrow> (\<exists>x. conforming env regs x h \<and> fst (handle env x h) = Panic))"
    if "script_conforms env regs c h" "scripted env (c, h) = (r, c', h')" for c h r c' h'
  proof (cases c)
    case (Cons x xs)
    obtain q h1 where q: "handle env x h = (q, h1)" by (rule prod.exhaust)
    with Cons that have "conforming env regs x h" "script_conforms env regs xs h1" "h1 = request_step env x h"
      by (simp_all add: request_step_def del: handle.simps)
    with Cons that q show ?thesis by (cases q) (auto simp: one_request_def simp del: handle.simps)
  qed (use that in \<open>auto simp: one_request_def\<close>)
  then show ?thesis unfolding connection_contract_def by blast
qed

definition scripted_libs :: "('d, 'q, 'ep) handler_env \<Rightarrow> request list \<Rightarrow> (nat, request list, ('d, 'q, 'ep) handler) daemon_libs" where
  "scripted_libs env xs = \<lparr>dl_listener_new = Ok 2, dl_backend_listener_new = Ok,
     dl_accept = (\<lambda>n. (Ok (if n = 0 then Some xs else None), n - 1)), dl_connect = Ok xs, dl_spawn = Ok (), dl_handle_request = scripted env\<rparr>"

lemma scripted_accept: "accept_contract (dl_accept (scripted_libs env xs)) id (\<lambda>c. c = xs)"
  by (auto simp: accept_contract_def scripted_libs_def split: if_splits)

end
