(* ===== verification/Vhost_Programs.thy ===== *)
theory Vhost_Programs
  imports Gpu_Device Console_Device Console_Streams Vhost_Daemon
begin

text \<open>
  The two programs, from their configuration to their end: \<^verbatim>\<open>vhost-gpu\<close> (\<^verbatim>\<open>start_backend\<close> and \<^verbatim>\<open>main\<close>) and
  \<^verbatim>\<open>vhost-console\<close> (\<^verbatim>\<open>main\<close>). Each builds its device, puts a daemon around it, serves one connection and drops the handler,
  which stops the device. A program that does not come back is \<open>None\<close>; the logging is left out.
\<close>

section \<open>The gpu\<close>

datatype start_error =
    CouldNotCreateBackend device_error
  | CouldNotCreateDaemon daemon_error
  | ServeFailed daemon_error

text \<open>The daemon goes out of scope with its handler, whose drop may panic.\<close>

definition drop_daemon ::
  "('d, 'q, 'ep) handler_env \<Rightarrow> ('a, 'e) rust \<times> ('c, ('d, 'q, 'ep) handler) daemon \<Rightarrow> ('a, 'e) rust" where
  "drop_daemon env rd = (if fst (handler_drop env (dm_handler (snd rd))) = Panic then Panic else fst rd)"

definition start_backend ::
  "('r gpu_device, 'q, 'ep) handler_env \<Rightarrow> ('l, 'c, ('r gpu_device, 'q, 'ep) handler) daemon_libs \<Rightarrow> (nat, io_error) rust
    \<Rightarrow> 'ep world \<Rightarrow> log_store \<Rightarrow> gpu_config \<Rightarrow> (unit, start_error) rust option" where
  "start_backend env libs new_eventfd w st config =
     (case and_then (map_err CouldNotCreateBackend (gpu_device_new new_eventfd config)) (\<lambda>device.
             map_err CouldNotCreateDaemon (daemon_new env ''vhost-gpu-backend'' device [] w st)) of
        Ok dm \<Rightarrow> map_option (\<lambda>rd. map_err ServeFailed (drop_daemon env rd)) (daemon_serve libs dm)
      | Err e \<Rightarrow> Some (Err e)
      | Panic \<Rightarrow> Some Panic)"

text \<open>\<^verbatim>\<open>main\<close> returns its exit code.\<close>

definition gpu_main ::
  "('r gpu_device, 'q, 'ep) handler_env \<Rightarrow> ('l, 'c, ('r gpu_device, 'q, 'ep) handler) daemon_libs \<Rightarrow> (nat, io_error) rust
    \<Rightarrow> 'ep world \<Rightarrow> log_store \<Rightarrow> rutabaga_capsets \<Rightarrow> (gpu_capset \<Rightarrow> gpu_capset list) \<Rightarrow> gpu_args \<Rightarrow> (nat, unit) rust option" where
  "gpu_main env libs new_eventfd w st rc flags args =
     (case config_from_args rc flags args of
        Err _ \<Rightarrow> Some (Ok 1)
      | Panic \<Rightarrow> Some Panic
      | Ok (socket_path, config) \<Rightarrow>
          (case start_backend env libs new_eventfd w st config of
             None \<Rightarrow> None
           | Some (Ok _) \<Rightarrow> Some (Ok 0)
           | Some (Err _) \<Rightarrow> Some (Ok 1)
           | Some Panic \<Rightarrow> Some Panic))"

section \<open>The console\<close>

text \<open>The drop of the handler joins the main worker, which may never return; an error of \<^verbatim>\<open>serve\<close> is unwrapped.\<close>

definition console_exit ::
  "('q, 'ep) console_env \<Rightarrow> (unit, daemon_error) rust \<times> ('c, (console, 'q, 'ep) handler) daemon \<Rightarrow> (unit, unit) rust option" where
  "console_exit ce rd =
     (let h = dm_handler (snd rd)
      in case console_stop ce (h_device h, h_world h) of
           None \<Rightarrow> None
         | Some (q, _) \<Rightarrow> Some (if q = Panic then Panic else unwrap (fst rd)))"

definition console_serve ::
  "('q, 'ep) console_env \<Rightarrow> (console, 'q, 'ep) handler_env \<Rightarrow> ('l, 'c, (console, 'q, 'ep) handler) daemon_libs \<Rightarrow> (nat, io_error) rust
    \<Rightarrow> 'ep world \<Rightarrow> log_store \<Rightarrow> nat \<Rightarrow> nat \<Rightarrow> (unit, unit) rust option" where
  "console_serve ce env libs new_eventfd w st input output_fd =
     (case and_then (console_new new_eventfd [ConsoleDescription (Some input) (Some output_fd)]) (\<lambda>console.
             unwrap (daemon_new env ''vhost-user-console'' console [] w st)) of
        Ok dm \<Rightarrow> Option.bind (daemon_serve libs dm) (console_exit ce)
      | _ \<Rightarrow> Some Panic)"

definition console_main ::
  "'k unix_calls \<Rightarrow> ('q, 'ep) console_env \<Rightarrow> (console, 'q, 'ep) handler_env \<Rightarrow> ('l, 'c, (console, 'q, 'ep) handler) daemon_libs
    \<Rightarrow> (nat, io_error) rust \<Rightarrow> 'ep world \<Rightarrow> log_store \<Rightarrow> 'k \<Rightarrow> (unit, unit) rust option" where
  "console_main u ce env libs new_eventfd w st k =
     (case set_raw_mode u STDIN_FILENO k of
        (Ok _, k1) \<Rightarrow>
          (case stdin_port u k1 of
             (Ok input, k2) \<Rightarrow>
               (case stdout_port u k2 of
                  (Ok output_fd, _) \<Rightarrow> console_serve ce env libs new_eventfd w st input output_fd
                | _ \<Rightarrow> Some Panic)
           | _ \<Rightarrow> Some Panic)
      | _ \<Rightarrow> Some Panic)"

section \<open>Serving a backend\<close>

text \<open>What is assumed of the libraries around a daemon: they do not panic, there is a connection after finitely many tries, and
  each connection is that of a conforming frontend.\<close>

definition calm_libs ::
  "('l, 'c, ('d, 'q, 'ep) handler) daemon_libs \<Rightarrow> ('d, 'q, 'ep) handler_env \<Rightarrow> ('ep \<Rightarrow> nat \<Rightarrow> epoll_event option)
    \<Rightarrow> ('c \<Rightarrow> nat) \<Rightarrow> ('l \<Rightarrow> nat) \<Rightarrow> ('c \<Rightarrow> ('d, 'q, 'ep) handler \<Rightarrow> bool) \<Rightarrow> ('d, 'q, 'ep) handler \<Rightarrow> bool" where
  "calm_libs libs env regs remaining tries I h \<longleftrightarrow>
     connection_contract (dl_handle_request libs) env regs remaining I \<and> accept_contract (dl_accept libs) tries (\<lambda>c. I c h) \<and>
     dl_listener_new libs \<noteq> Panic \<and> (\<forall>l. dl_backend_listener_new libs l \<noteq> Panic) \<and> dl_spawn libs \<noteq> Panic"

text \<open>How a daemon ends that started with the handler \<open>h0\<close>.\<close>

definition served ::
  "('l, 'c, ('d, 'q, 'ep) handler) daemon_libs \<Rightarrow> ('d, 'q, 'ep) handler_env \<Rightarrow> ('ep \<Rightarrow> nat \<Rightarrow> epoll_event option)
    \<Rightarrow> ('d, 'q, 'ep) handler \<Rightarrow> (unit, daemon_error) rust \<Rightarrow> ('d, 'q, 'ep) handler \<Rightarrow> bool" where
  "served libs env regs h0 r h \<longleftrightarrow>
     ((\<exists>x. r = Err x) \<and> h = h0) \<or>
     (\<exists>c e. request_loop libs c h0 = Some (Err (HandleRequest e), h) \<and> session env regs h0 h \<and>
        r = (if hang_up e then Ok () else Err (HandleRequest e)))"

lemma served_not_Panic: "served libs env regs h0 r h \<Longrightarrow> r \<noteq> Panic"
  by (auto simp: served_def split: if_splits)

lemma serve_backend:
  assumes "vhost_backend env regs fresh nq" "fresh d" "daemon_new env name d mem w st = Ok dm"
    and "calm_libs libs env regs remaining tries I (dm_handler dm)"
  shows "\<exists>r dm'. daemon_serve libs dm = Some (r, dm') \<and> served libs env regs (dm_handler dm) r (dm_handler dm')"
proof -
  obtain h0 where h0: "handler_new env d mem w st = Ok h0" "dm_handler dm = h0"
    using assms(3) by (auto simp: daemon_new_def rust_simps)
  note libs = assms(4) [unfolded calm_libs_def h0(2)]
  have safe: "fst (handle env x h) \<noteq> Panic" if "session env regs h0 h" "conforming env regs x h" for h x
    by (rule vhost_backend.session_never_panics(1) [OF assms(1,2) h0(1) that])
  have loop: "\<exists>e h'. request_loop libs c (dm_handler dm) = Some (Err (HandleRequest e), h') \<and> session env regs h0 h'" if "I c h0" for c
    unfolding h0(2) by (rule request_loop_ends [OF libs [THEN conjunct1] safe session_start that])
  have accept: "\<exists>r. accept_loop libs l = Some r \<and> ((\<exists>e. r = Err (CreateBackendListener e)) \<or> (\<exists>c. r = Ok c \<and> I c h0))" for l
    by (rule accept_ends [OF libs [THEN conjunct2, THEN conjunct1]])
  have calm: "dl_listener_new libs \<noteq> Panic" "dl_backend_listener_new libs l \<noteq> Panic" "dl_spawn libs \<noteq> Panic" for l
    using libs by simp_all
  have "\<exists>r dm'. daemon_serve libs dm = Some (r, dm') \<and>
    ((\<exists>x. r = Err x \<and> dm' = dm) \<or>
     (\<exists>c e. request_loop libs c (dm_handler dm) = Some (Err (HandleRequest e), dm_handler dm') \<and>
        session env regs h0 (dm_handler dm') \<and> dm_main_thread dm' = None \<and> r = (if hang_up e then Ok () else Err (HandleRequest e))))"
    by (rule serve_cases [of libs "\<lambda>c. I c h0" dm "session env regs h0", OF calm accept loop])
  then obtain r dm' where s: "daemon_serve libs dm = Some (r, dm')"
    and d: "((\<exists>x. r = Err x \<and> dm' = dm) \<or>
     (\<exists>c e. request_loop libs c (dm_handler dm) = Some (Err (HandleRequest e), dm_handler dm') \<and>
        session env regs h0 (dm_handler dm') \<and> dm_main_thread dm' = None \<and> r = (if hang_up e then Ok () else Err (HandleRequest e))))"
    by (elim exE conjE) rule
  from d have "served libs env regs (dm_handler dm) r (dm_handler dm')"
    unfolding served_def h0(2) by (elim disjE exE conjE) (rule disjI1, simp add: h0(2), rule disjI2, intro exI conjI)
  with s show ?thesis by (intro exI conjI)
qed

lemma scripted_calm: "script_conforms env regs xs h \<Longrightarrow> calm_libs (scripted_libs env xs) env regs length id (script_conforms env regs) h"
  using scripted_contract [of env regs] scripted_accept [of env xs]
  by (auto simp: calm_libs_def scripted_libs_def accept_contract_def)

section \<open>Concrete runs\<close>

lemma gpu_plain_handler_new: "handler_new gpu_plain_env plain_gpu [] (\<lambda>_. None) no_logs = Ok (gpu_plain_handler [])"
  by (simp add: gpu_plain_handler_def handler_new_def gpu_plain_env_def plain_env_def gpu_ops_defs gpu_queues_def vring_new_def
      flag_queue_def)

definition sample_gpu_args :: gpu_args where
  "sample_gpu_args = \<lparr>arg_socket_path = ''gpu'', arg_gpu_mode = CliVirglRenderer, arg_capset = None,
     arg_flags = \<lparr>arg_use_egl = True, arg_use_glx = False, arg_use_gles = True, arg_use_surfaceless = True\<rparr>\<rparr>"

lemma bit_flags_6: "bit_flags 6 = [2, 4]"
  by (simp add: bit_flags_def upt_conv_Cons bit_numeral_rec)

lemma sample_gpu_args_config: "config_from_args linux_capsets bit_flags sample_gpu_args = Ok (''gpu'', gd_gpu_config plain_gpu)"
  by (simp add: sample_gpu_args_def plain_gpu_def config_from_args_def gpu_config_new_def validate_capset_def bit_flags_6
      capset_contains_def linux_capsets_def ALL_VIRGLRENDERER_CAPSETS_def VIRGL_def VIRGL2_def
      GFXSTREAM_GLES_def into_gpu_flags_def gpu_flags_default_def)

text \<open>A script none of whose requests panics runs to its end.\<close>

fun script_calm :: "('d, 'q, 'ep) handler_env \<Rightarrow> request list \<Rightarrow> ('d, 'q, 'ep) handler \<Rightarrow> bool" where
  "script_calm env [] h \<longleftrightarrow> True"
| "script_calm env (x # xs) h \<longleftrightarrow> fst (handle env x h) \<noteq> Panic \<and> script_calm env xs (request_step env x h)"

lemma scripted_loop:
  "script_calm env xs h \<Longrightarrow>
    request_loop (scripted_libs env ys) xs h = Some (Err (HandleRequest Disconnected), fold (request_step env) xs h)"
proof (induction xs arbitrary: h)
  case Nil
  show ?case by (subst request_loop.simps) (simp add: scripted_libs_def)
next
  case (Cons x xs)
  obtain q h1 where q: "handle env x h = (q, h1)" by (rule prod.exhaust)
  with Cons.prems have "q \<noteq> Panic" "request_step env x h = h1" by (simp_all add: request_step_def del: handle.simps)
  with Cons q show ?case
    by (subst request_loop.simps) (cases q; simp add: scripted_libs_def del: handle.simps)
qed

lemma scripted_serve:
  assumes "script_calm env xs (dm_handler dm)"
  shows "daemon_serve (scripted_libs env xs) dm
    = Some (Ok (), dm\<lparr>dm_handler := fold (request_step env) xs (dm_handler dm), dm_main_thread := None\<rparr>)"
proof -
  have a: "accept_loop (scripted_libs env xs) n = Some (Ok xs)" for n
    by (induction n) (subst accept_loop.simps, simp add: scripted_libs_def)+
  have l: "dl_listener_new (scripted_libs env xs) = Ok 2" "dl_backend_listener_new (scripted_libs env xs) = Ok" "dl_spawn (scripted_libs env xs) = Ok ()"
    by (simp_all add: scripted_libs_def)
  show ?thesis
    using scripted_loop [OF assms, of xs] a l by (simp add: daemon_serve_def daemon_start_def start_daemon_def daemon_wait_def)
qed

text \<open>A console on a kernel that accepts every registration.\<close>

definition quiet_console_env :: "(bool \<times> u16, unit) console_env" where
  "quiet_console_env = \<lparr>ce_create = (\<lambda>_. Ok (0, ())), ce_ctl = (\<lambda>_ _ _. return_method ()), ce_bits = linux_event_bits,
     ce_edge_triggered = 0x80000000, ce_try_clone = (\<lambda>fd. Ok (fd + 100)), ce_new_eventfd = Ok 50, ce_efd_write = (\<lambda>_. Ok ()),
     ce_main_panicked = (\<lambda>_. False)\<rparr>"

definition quiet_env :: "(console, bool \<times> u16, unit) handler_env" where
  "quiet_env = \<lparr>he_queue = flag_queue, he_ctl = (\<lambda>_ _ _. return_method ()), he_bits = linux_event_bits,
     he_device = vhost_user_console 0x40000000 (1, 0x200, 8) quiet_console_env, he_mem = plain_memory,
     he_mmap = (\<lambda>_ n _. Ok (replicate n 0)), he_protocol_features = 0x40000000, he_event_idx = 29, he_reply_ack = 8,
     he_shared_object = 0x40000, he_debug = True\<rparr>"

definition quiet_console :: console where
  "quiet_console = (case console_new (Ok 3) [ConsoleDescription (Some 3) (Some 4)] of Ok d \<Rightarrow> d)"

definition quiet_handler :: "(console, bool \<times> u16, unit) handler" where
  "quiet_handler = (case handler_new quiet_env quiet_console [] (\<lambda>_. None) no_logs of Ok h \<Rightarrow> h)"

definition first_kick :: "request list" where
  "first_kick = [SetOwner, SetMemTable [] [], SetVringCall 0 None, SetVringKick 0 (Some 7)]"

lemma quiet_console_new: "console_new (Ok 3) [ConsoleDescription (Some 3) (Some 4)] = Ok quiet_console"
  by (simp add: quiet_console_def console_new_def)

lemma quiet_handler_new: "handler_new quiet_env quiet_console [] (\<lambda>_. None) no_logs = Ok quiet_handler"
  by (simp add: quiet_handler_def handler_new_def quiet_env_def console_ops_defs quiet_console_def console_new_def num_queues_def
      vring_new_def flag_queue_def eval_nat_numeral)

lemma quiet_calm: "script_calm quiet_env first_kick quiet_handler"
  by code_simp

abbreviation "quiet_last \<equiv> h_device (fold (request_step quiet_env) first_kick quiet_handler)"

lemma quiet_activated:
  "\<exists>ps. co_worker_thread quiet_last = Some (MainRuns 0 ps)"
proof -
  have "case co_worker_thread quiet_last of Some (MainRuns e ps) \<Rightarrow> e = 0 | _ \<Rightarrow> False" by code_simp
  then show ?thesis by (auto split: option.splits main_thread.splits)
qed

text \<open>A run that ends in such a wait: the first kick of a frontend activates the console, and \<^verbatim>\<open>vhost-console\<close> never exits.\<close>

lemma activated_console_hangs:
  "console_main plain_unix quiet_console_env quiet_env (scripted_libs quiet_env first_kick) (Ok 3) (\<lambda>_. None) no_logs
     ([0, 1, 1], [0, 0]) = None"
proof -
  let ?k = "([0, 1, 1], [0, 0]) :: kernel"
  have k: "set_raw_mode plain_unix STDIN_FILENO ?k = (Ok (), ?k)"
    "stdin_port plain_unix ?k = (Ok 3, ([0, 1, 1, 0], [0x800, 0]))"
    "stdout_port plain_unix ([0, 1, 1, 0], [0x800, 0]) = (Ok 4, ([0, 1, 1, 0, 1], [0x800, 0x800]))"
    by code_simp+
  let ?dm = "\<lparr>dm_name = ''vhost-user-console'', dm_handler = quiet_handler, dm_main_thread = None\<rparr>"
  have n: "daemon_new quiet_env ''vhost-user-console'' quiet_console [] (\<lambda>_. None) no_logs = Ok ?dm"
    by (simp add: daemon_new_def quiet_handler_new)
  have s: "daemon_serve (scripted_libs quiet_env first_kick) ?dm
      = Some (Ok (), ?dm\<lparr>dm_handler := fold (request_step quiet_env) first_kick quiet_handler, dm_main_thread := None\<rparr>)"
    using scripted_serve [of quiet_env first_kick ?dm] quiet_calm by simp
  obtain ps where "co_worker_thread quiet_last = Some (MainRuns 0 ps)" using quiet_activated by blast
  then show ?thesis
    using k s by (simp add: console_main_def console_serve_def quiet_console_new n console_exit_def console_stop_def
        quiet_console_env_def Let_def)
qed

section \<open>Properties\<close>

text \<open>C1: a daemon over any backend that keeps its contract serves one connection and ends: either no connection comes
  about, and the handler is as it was, or the requests go through the handler, as a session of the frontend in which nothing
  panics, until one fails; a frontend that hangs up, also in the middle of a message, counts as success and every other error
  is reported.\<close>

theorem serve_ends:
  assumes "vhost_backend env regs fresh nq" "fresh d" "daemon_new env name d mem w st = Ok dm"
    and "calm_libs libs env regs remaining tries I (dm_handler dm)"
  shows "\<exists>r dm'. daemon_serve libs dm = Some (r, dm') \<and>
    (((\<exists>x. r = Err x) \<and> dm_handler dm' = dm_handler dm) \<or>
     (\<exists>c e. request_loop libs c (dm_handler dm) = Some (Err (HandleRequest e), dm_handler dm') \<and>
        session env regs (dm_handler dm) (dm_handler dm') \<and> r = (if hang_up e then Ok () else Err (HandleRequest e))))"
  using serve_backend [OF assms] unfolding served_def .

theorem serve_ends_witness:
  "\<exists>r dm'. daemon_serve (scripted_libs gpu_plain_env [SetOwner, GetFeatures])
     \<lparr>dm_name = ''gpu'', dm_handler = gpu_plain_handler [], dm_main_thread = None\<rparr> = Some (r, dm') \<and>
     session gpu_plain_env (\<lambda>ep. ep) (gpu_plain_handler []) (dm_handler dm')"
proof -
  let ?dm = "\<lparr>dm_name = ''gpu'', dm_handler = gpu_plain_handler [], dm_main_thread = None\<rparr>"
  have n: "daemon_new gpu_plain_env ''gpu'' plain_gpu [] (\<lambda>_. None) no_logs = Ok ?dm"
    by (simp add: daemon_new_def gpu_plain_handler_new)
  have "calm_libs (scripted_libs gpu_plain_env [SetOwner, GetFeatures]) gpu_plain_env (\<lambda>ep. ep) length id
      (script_conforms gpu_plain_env (\<lambda>ep. ep)) (dm_handler ?dm)"
    by (rule scripted_calm) simp
  from serve_ends [OF gpu_vhost_backend [OF gpu_plain_env_ok] TrueI n this] show ?thesis
    by (auto intro: session_start)
qed





text \<open>Taking the standard input or output as the stream of a port makes the descriptor the process itself has
  non-blocking, and so everybody's who shares that open file: the port's descriptor is a new duplicate, the open file gets
  \<^verbatim>\<open>O_NONBLOCK\<close>, and nothing else changes.\<close>

lemma streams_share_nonblocking:
  assumes "unix_contract u file flags" "raw_fd_dup u fd k = (Ok n, k')"
  shows "\<exists>f. file k fd = Some f \<and> file k n = None \<and> file k' = (file k)(n \<mapsto> f) \<and>
    flags k' = (flags k)(f := flags k f OR ux_O_NONBLOCK u)"
  using raw_fd_dup_ok [OF assms] by metis

lemma streams_share_nonblocking_witness: "kernel_flags ([0, 1, 1, 1], [0, 0x802]) 1 = 2 OR 0x800"
proof -
  have "raw_fd_dup plain_unix 1 ([0, 1, 1], [0, 2]) = (Ok 3, ([0, 1, 1, 1], [0, 0x802]))" by code_simp
  from streams_share_nonblocking [OF plain_unix_contract this] show ?thesis
    by (auto simp: kernel_file_def kernel_flags_def plain_unix_def)
qed

end
