(* ===== verification/Vhost_Postcopy.thy ===== *)
theory Vhost_Postcopy
  imports Vhost_User_Handler
begin

text \<open>
  The handler of \<^verbatim>\<open>vhost-user/src/handler.rs\<close> with the cargo feature \<^verbatim>\<open>postcopy\<close>, which is off by default: each mapping also
  records where its region is mapped locally, and three more requests keep a userfault descriptor over these regions. The
  other fields and requests are those of \<open>Vhost_User_Handler\<close>; the local addresses are a list beside the mappings. The crate
  \<^verbatim>\<open>userfaultfd\<close> and \<^verbatim>\<open>dup\<close> are the record \<open>uffd_ops\<close> over the state of the kernel.
\<close>

section \<open>State and requests\<close>

record 'k uffd_ops =
  uf_create :: "('k, nat, io_error) rust_method"
  uf_dup :: "nat \<Rightarrow> ('k, nat, io_error) rust_method"
  uf_register :: "nat \<Rightarrow> u64 \<Rightarrow> u64 \<Rightarrow> ('k, unit, io_error) rust_method"
  uf_close :: "nat \<Rightarrow> 'k \<Rightarrow> 'k"
  uf_as_ptr :: "guest_region \<Rightarrow> u64"

record ('d, 'q, 'ep) postcopy_handler =
  pc_handler :: "('d, 'q, 'ep) handler"
  pc_local_addrs :: "u64 list"
  pc_uffd :: "nat option"

type_synonym ('d, 'q, 'ep, 'k, 'a) postcopy_method =
  "(('d, 'q, 'ep) postcopy_handler \<times> 'k, 'a, vhost_user_error) rust_method"

text \<open>The local addresses that the requests on the memory map record.\<close>

fun recorded_addrs ::
  "('d, 'q, 'ep) handler_env \<Rightarrow> 'k uffd_ops \<Rightarrow> request \<Rightarrow> ('d, 'q, 'ep) handler \<Rightarrow> u64 list \<Rightarrow> u64 list" where
  "recorded_addrs env uo (SetMemTable ctx files) h addrs =
     (case map_regions (he_mem env) (zip ctx files) of Ok (regions, ms) \<Rightarrow> map (uf_as_ptr uo) regions | _ \<Rightarrow> addrs)"
| "recorded_addrs env uo (AddMemRegion region file) h addrs =
     (case mo_mmap_region (he_mem env) region file of Ok g \<Rightarrow> addrs @ [uf_as_ptr uo g] | _ \<Rightarrow> addrs)"
| "recorded_addrs env uo (RemMemRegion region) h addrs =
     map fst (filter (\<lambda>(a, m). am_gpa_base m \<noteq> mr_guest_phys_addr region) (zip addrs (h_mappings h)))"
| "recorded_addrs env uo _ h addrs = addrs"

definition postcopy_plain ::
  "('d, 'q, 'ep) handler_env \<Rightarrow> 'k uffd_ops \<Rightarrow> request \<Rightarrow> ('d, 'q, 'ep, 'k, reply) postcopy_method" where
  "postcopy_plain env uo x s =
     (let (p, k) = s; (r, h) = handle env x (pc_handler p)
      in (r, p\<lparr>pc_handler := h,
           pc_local_addrs := (if is_ok r then recorded_addrs env uo x (pc_handler p) (pc_local_addrs p) else pc_local_addrs p)\<rparr>, k))"

text \<open>The descriptor that is stored before is dropped, and so is a new one that cannot be duplicated.\<close>

definition postcopy_advice :: "'k uffd_ops \<Rightarrow> ('d, 'q, 'ep, 'k, nat) postcopy_method" where
  "postcopy_advice uo s =
     (let (p, k) = s
      in case uf_create uo k of
           (Err e, k1) \<Rightarrow> (Err (ReqHandlerError (OtherIo 0)), p, k1)
         | (Panic, k1) \<Rightarrow> (Panic, p, k1)
         | (Ok uffd, k1) \<Rightarrow>
             (case uf_dup uo uffd k1 of
                (Err e, k2) \<Rightarrow> (Err (ReqHandlerError e), p, uf_close uo uffd k2)
              | (Panic, k2) \<Rightarrow> (Panic, p, k2)
              | (Ok uffd_file, k2) \<Rightarrow>
                  (Ok uffd_file, p\<lparr>pc_uffd := Some uffd\<rparr>, case pc_uffd p of None \<Rightarrow> k2 | Some old \<Rightarrow> uf_close uo old k2)))"

fun register_mappings :: "'k uffd_ops \<Rightarrow> nat \<Rightarrow> (u64 \<times> addr_mapping) list \<Rightarrow> ('k, unit, vhost_user_error) rust_method" where
  "register_mappings uo uffd [] k = (Ok (), k)"
| "register_mappings uo uffd ((local_addr, m) # ms) k =
     (case uf_register uo uffd local_addr (am_size m) k of
        (Ok _, k1) \<Rightarrow> register_mappings uo uffd ms k1
      | (Err e, k1) \<Rightarrow> (Err (ReqHandlerError (OtherIo 0)), k1)
      | (Panic, k1) \<Rightarrow> (Panic, k1))"

definition postcopy_listen :: "'k uffd_ops \<Rightarrow> ('d, 'q, 'ep, 'k, unit) postcopy_method" where
  "postcopy_listen uo s =
     (let (p, k) = s
      in case pc_uffd p of
           None \<Rightarrow> (Err (ReqHandlerError (OtherIo 0)), s)
         | Some uffd \<Rightarrow>
             (let (r, k1) = register_mappings uo uffd (zip (pc_local_addrs p) (h_mappings (pc_handler p))) k in (r, p, k1)))"

definition postcopy_end :: "'k uffd_ops \<Rightarrow> ('d, 'q, 'ep, 'k, unit) postcopy_method" where
  "postcopy_end uo s =
     (let (p, k) = s
      in (Ok (), p\<lparr>pc_uffd := None\<rparr>, case pc_uffd p of None \<Rightarrow> k | Some old \<Rightarrow> uf_close uo old k))"

datatype postcopy_request = PlainRequest request | PostcopyAdvice | PostcopyListen | PostcopyEnd

fun postcopy_handle ::
  "('d, 'q, 'ep) handler_env \<Rightarrow> 'k uffd_ops \<Rightarrow> postcopy_request \<Rightarrow> ('d, 'q, 'ep, 'k, reply + nat) postcopy_method" where
  "postcopy_handle env uo (PlainRequest x) = (\<lambda>s. let (r, s') = postcopy_plain env uo x s in (map_ok Inl r, s'))"
| "postcopy_handle env uo PostcopyAdvice = (\<lambda>s. let (r, s') = postcopy_advice uo s in (map_ok Inr r, s'))"
| "postcopy_handle env uo PostcopyListen = (\<lambda>s. let (r, s') = postcopy_listen uo s in (map_ok (\<lambda>_. Inl ReplyUnit) r, s'))"
| "postcopy_handle env uo PostcopyEnd = (\<lambda>s. let (r, s') = postcopy_end uo s in (map_ok (\<lambda>_. Inl ReplyUnit) r, s'))"

section \<open>Which requests touch the memory map\<close>

definition keeps_mappings :: "('d, 'q, 'ep, 'a) request_method \<Rightarrow> bool" where
  "keeps_mappings m \<longleftrightarrow> (\<forall>h. h_mappings (snd (m h)) = h_mappings h)"

lemma keeps_bind: "keeps_mappings m \<Longrightarrow> (\<And>a. keeps_mappings (f a)) \<Longrightarrow> keeps_mappings (bind_method m f)"
  unfolding keeps_mappings_def bind_method_def by (auto split: prod.split rust.split) (metis snd_conv)+

lemma keeps_replies: "keeps_mappings m \<Longrightarrow> keeps_mappings (replies f m)"
  by (simp add: keeps_mappings_def replies_def case_prod_beta)

lemma keeps_with_vring: "keeps_mappings (unwrapped (with_vring i f))"
  by (simp add: keeps_mappings_def unwrapped_def with_vring_def case_prod_beta)

lemma keeps_indexed: "keeps_mappings m \<Longrightarrow> keeps_mappings (indexed i m)"
  by (simp add: keeps_mappings_def indexed_def)

lemma keeps_initialize: "keeps_mappings (initialize_vring env i)"
proof -
  have a: "keeps_mappings (activate_device env)"
    by (simp add: keeps_mappings_def activate_device_def Let_def case_prod_beta)
  have b: "keeps_mappings (\<lambda>h. if \<not> h_device_activated h \<and> h_memory_updated h then activate_device env h else (Ok (), h))"
    using a by (simp add: keeps_mappings_def)
  have "keeps_mappings (bind_method (unwrapped (with_vring i (vring_start (he_queue env) (he_ctl env) (he_bits env))))
      (\<lambda>_ h. if \<not> h_device_activated h \<and> h_memory_updated h then activate_device env h else (Ok (), h)))"
    by (intro keeps_bind keeps_with_vring b)
  then show ?thesis by (simp add: keeps_mappings_def initialize_vring_def)
qed

lemma keeps_reset_vrings: "keeps_mappings (reset_vrings env is)"
proof (induction "is")
  case (Cons i "is")
  then have "keeps_mappings (bind_method (unwrapped (with_vring i (vring_stop (he_queue env) (he_ctl env) (he_bits env))))
      (\<lambda>_. reset_vrings env is))"
    by (intro keeps_bind keeps_with_vring)
  then show ?case by (simp add: keeps_mappings_def on_vring_def)
qed (simp add: keeps_mappings_def)

lemma keeps_ring_requests:
  fixes env :: "('d, 'q, 'ep) handler_env"
  shows "keeps_mappings (reset_device env)" "keeps_mappings (set_vring_addr env j d u a)" "keeps_mappings (get_vring_base env j)"
  "keeps_mappings (set_vring_kick env k file)" "keeps_mappings (set_vring_call env k file)"
proof -
  show "keeps_mappings (reset_device env)"
    unfolding keeps_mappings_def reset_device_def
  proof
    fix h :: "('d, 'q, 'ep) handler"
    show "h_mappings (snd (bind_method (reset_vrings env [0..<length (h_vrings h)]) (\<lambda>_ h.
        let h1 = h\<lparr>h_features_acked := False, h_acked_features := 0\<rparr>;
            (r, d, w) = dv_reset (he_device env) (h_device h1, h_world h1)
        in (map_ok (\<lambda>_. ()) (unwrap r), h1\<lparr>h_device := d, h_world := w\<rparr>)) h)) = h_mappings h"
      by (rule keeps_bind [OF keeps_reset_vrings, unfolded keeps_mappings_def, THEN spec])
        (simp add: Let_def case_prod_beta)
  qed
  have "keeps_mappings (set_ring_addresses env j x y z)" for x y z
    unfolding set_ring_addresses_def
    by (rule keeps_indexed) (auto simp: keeps_mappings_def on_queue_def Let_def split: prod.split rust.split)
  then show "keeps_mappings (set_vring_addr env j d u a)"
    by (auto simp: keeps_mappings_def set_vring_addr_def Let_def split: rust.split)
  have "keeps_mappings (\<lambda>h. (Ok (j, x), on_vring (unat j) (set_call None) h))" for x
    by (simp add: keeps_mappings_def on_vring_def)
  then have b: "keeps_mappings (bind_method (unwrapped (with_vring (unat j) (set_kick (he_queue env) (he_ctl env) (he_bits env) None)))
      (\<lambda>_ h. (Ok (j, x), on_vring (unat j) (set_call None) h)))" for x
    by (intro keeps_bind keeps_with_vring)
  show "keeps_mappings (get_vring_base env j)"
    unfolding get_vring_base_def Let_def
  proof (intro keeps_indexed keeps_bind keeps_with_vring)
    show "keeps_mappings (\<lambda>h. bind_method (unwrapped (with_vring (unat j) (set_kick (he_queue env) (he_ctl env) (he_bits env) None)))
        (\<lambda>_ ha. (Ok (j, ucast (q_next_avail (he_queue env) (queue (h_vrings h ! unat j)))), on_vring (unat j) (set_call None) ha)) h)"
      unfolding keeps_mappings_def by (intro allI) (rule b [unfolded keeps_mappings_def, THEN spec])
  qed
  show "keeps_mappings (set_vring_kick env k file)"
    unfolding set_vring_kick_def by (intro keeps_indexed keeps_bind keeps_with_vring keeps_initialize)
  have "keeps_mappings (\<lambda>h. initialize_vring env (unat k) (on_vring (unat k) (set_call file) h))"
    using keeps_initialize [of env "unat k"] by (simp add: keeps_mappings_def on_vring_def)
  then show "keeps_mappings (set_vring_call env k file)"
    unfolding set_vring_call_def by (rule keeps_indexed)
qed

lemma keeps_simple_requests:
  "keeps_mappings set_owner" "keeps_mappings reset_owner" "keeps_mappings (get_features env)" "keeps_mappings (set_features env fs)"
  "keeps_mappings (set_vring_num env j n)" "keeps_mappings (set_vring_base env j n)" "keeps_mappings (set_vring_err k file)"
  "keeps_mappings (get_protocol_features env)" "keeps_mappings (set_protocol_features fs)" "keeps_mappings get_queue_num"
  "keeps_mappings (set_vring_enable env j b)" "keeps_mappings (get_config env off m)" "keeps_mappings (set_config env off buf)"
  "keeps_mappings (set_gpu_socket env sk)" "keeps_mappings inflight_fd" "keeps_mappings get_max_mem_slots"
  "keeps_mappings device_state_todo" "keeps_mappings (set_log_base env fl o2 n2)" "keeps_mappings (return_method a)"
  by (simp_all add: keeps_mappings_def set_owner_def reset_owner_def get_features_def set_features_def get_protocol_features_def
      set_vring_num_def set_vring_base_def set_vring_err_def set_vring_enable_def indexed_def on_queue_def on_vring_def
      set_protocol_features_def get_queue_num_def get_config_def set_config_def set_gpu_socket_def inflight_fd_def
      get_max_mem_slots_def device_state_todo_def set_log_base_def check_feature_def
      bind_method_def return_method_def Let_def case_prod_beta split: rust.split)

fun maps_memory :: "request \<Rightarrow> bool" where
  "maps_memory (SetMemTable _ _) = True"
| "maps_memory (AddMemRegion _ _) = True"
| "maps_memory (RemMemRegion _) = True"
| "maps_memory _ = False"

lemma other_requests_keep_mappings: "\<not> maps_memory x \<Longrightarrow> keeps_mappings (handle env x)"
  by (cases x) (simp_all add: keeps_replies keeps_simple_requests keeps_ring_requests)

section \<open>The local addresses stay in step with the mappings\<close>

text \<open>Every mapping has its local address.\<close>

definition addrs_in_step :: "('d, 'q, 'ep) postcopy_handler \<Rightarrow> bool" where
  "addrs_in_step p \<longleftrightarrow> length (pc_local_addrs p) = length (h_mappings (pc_handler p))"

lemma map_regions_length: "map_regions mo rs = Ok (gs, ms) \<Longrightarrow> length gs = length ms"
  by (induction rs arbitrary: gs ms) (auto simp: and_then_eq_Ok split: prod.splits)

lemma filter_zip_length:
  "length xs = length ys \<Longrightarrow> length (filter (\<lambda>(a, m). P m) (zip xs ys)) = length (filter P ys)"
  by (induction xs ys rule: list_induct2) auto

lemma postcopy_plain_in_step:
  assumes "addrs_in_step p"
  shows "addrs_in_step (fst (snd (postcopy_plain env uo x (p, k))))"
proof (cases "maps_memory x")
  case False
  then have "recorded_addrs env uo x h addrs = addrs" for h addrs by (cases x) simp_all
  with assms other_requests_keep_mappings [OF False, of env] show ?thesis
    by (simp add: addrs_in_step_def postcopy_plain_def keeps_mappings_def case_prod_beta del: handle.simps)
next
  case True
  show ?thesis
  proof (cases x)
    case (SetMemTable ctx files)
    then show ?thesis
      using assms by (auto simp: addrs_in_step_def postcopy_plain_def replies_def set_mem_table_def
          dest: map_regions_length split: rust.splits)
  next
    case (AddMemRegion r f)
    then show ?thesis
      using assms by (auto simp: addrs_in_step_def postcopy_plain_def replies_def add_mem_region_def split: rust.splits)
  next
    case (RemMemRegion r)
    then show ?thesis
      using assms filter_zip_length [of "pc_local_addrs p" "h_mappings (pc_handler p)"]
      by (auto simp: addrs_in_step_def postcopy_plain_def replies_def remove_mem_region_def split: rust.splits)
  qed (use True in simp_all)
qed

lemma postcopy_handle_in_step:
  assumes "addrs_in_step p"
  shows "addrs_in_step (fst (snd (postcopy_handle env uo x (p, k))))"
proof (cases x)
  case (PlainRequest y)
  with postcopy_plain_in_step [OF assms, of env uo y k] show ?thesis by (simp add: case_prod_beta)
qed (use assms in \<open>auto simp: addrs_in_step_def postcopy_advice_def postcopy_listen_def postcopy_end_def Let_def
  split: prod.splits rust.splits option.splits\<close>)

section \<open>What listening registers\<close>

text \<open>\<open>regs\<close> lists what is registered with each descriptor, in order.\<close>

definition uffd_contract :: "'k uffd_ops \<Rightarrow> ('k \<Rightarrow> (nat \<times> u64 \<times> u64) list) \<Rightarrow> bool" where
  "uffd_contract uo regs \<longleftrightarrow>
     (\<forall>fd a n k r k'. uf_register uo fd a n k = (r, k') \<longrightarrow> regs k' = regs k @ (if is_ok r then [(fd, a, n)] else []))"

lemma register_mappings_ok:
  "uffd_contract uo regs \<Longrightarrow> register_mappings uo fd ms k = (Ok (), k') \<Longrightarrow>
    regs k' = regs k @ map (\<lambda>(a, m). (fd, a, am_size m)) ms"
proof (induction ms arbitrary: k)
  case (Cons x ms)
  obtain a m where x: "x = (a, m)" by (rule prod.exhaust)
  obtain r k1 where r: "uf_register uo fd a (am_size m) k = (r, k1)" by (rule prod.exhaust)
  with Cons.prems(2) x have ok: "is_ok r" "register_mappings uo fd ms k1 = (Ok (), k')" by (cases r; simp)+
  with Cons.prems(1) r have "regs k1 = regs k @ [(fd, a, am_size m)]" unfolding uffd_contract_def by fastforce
  with Cons.IH [OF Cons.prems(1) ok(2)] x show ?case by simp
qed simp

text \<open>After any requests, a successful \<^verbatim>\<open>POSTCOPY_LISTEN\<close> registers with the advised descriptor exactly one range for every mapping
  of the handler, in order, at its local address and with its size.\<close>

lemma postcopy_listen_registers:
  assumes "uffd_contract uo regs" "addrs_in_step p"
    and "fold (\<lambda>x s. snd (postcopy_handle env uo x s)) xs (p, k) = (p1, k1)" "postcopy_listen uo (p1, k1) = (Ok (), p2, k2)"
  shows "\<exists>fd. pc_uffd p1 = Some fd \<and> p2 = p1 \<and>
    regs k2 = regs k1 @ map (\<lambda>(a, m). (fd, a, am_size m)) (zip (pc_local_addrs p1) (h_mappings (pc_handler p1))) \<and>
    length (pc_local_addrs p1) = length (h_mappings (pc_handler p1))"
proof -
  have "addrs_in_step (fst (fold (\<lambda>x s. snd (postcopy_handle env uo x s)) xs (p, k)))"
    using assms(2)
  proof (induction xs arbitrary: p k)
    case (Cons x xs)
    obtain p' k' where "snd (postcopy_handle env uo x (p, k)) = (p', k')" by (rule prod.exhaust)
    with postcopy_handle_in_step [OF Cons.prems, of env uo x k] Cons.IH show ?case by simp
  qed simp
  with assms(3) have "addrs_in_step p1" by simp
  moreover obtain fd where fd: "pc_uffd p1 = Some fd" "p2 = p1"
    "register_mappings uo fd (zip (pc_local_addrs p1) (h_mappings (pc_handler p1))) k1 = (Ok (), k2)"
    using assms(4) by (auto simp: postcopy_listen_def Let_def split: option.splits prod.splits)
  ultimately show ?thesis
    using register_mappings_ok [OF assms(1) fd(3)] by (auto simp: addrs_in_step_def)
qed

end
