(* ===== verification/Vhost_Migration.thy ===== *)
theory Vhost_Migration
  imports Vhost_User_Handler
begin

text \<open>
  Live migration from the request to the log: \<^verbatim>\<open>SET_LOG_BASE\<close> (\<^verbatim>\<open>set_log_base\<close> of
  \<^verbatim>\<open>vhost-user/src/handler.rs\<close>) gives every memory region a bitmap that is a window of the mapped
  log, and from then on every write to guest memory marks the bitmap of its region
  (\<^verbatim>\<open>vhost-user/src/bitmap.rs\<close>). The lemmas put the two together: the frontend finds in the log
  exactly the guest pages that were written, whichever regions they are in.
\<close>

section \<open>What \<^verbatim>\<open>SET_LOG_BASE\<close> leaves in the cells\<close>

text \<open>The memory of the guest as \<^verbatim>\<open>vm_memory\<close> maps it: whole pages, each region with a bitmap cell of its own.\<close>

definition migratable :: "guest_region list \<Rightarrow> bool" where
  "migratable gs \<longleftrightarrow> distinct (map (\<lambda>g. inner (gr_bitmap g)) gs) \<and>
     list_all (\<lambda>g. base_address (gr_bitmap g) = 0 \<and>
       unat (gr_start g) mod LOG_PAGE_SIZE = 0 \<and> unat (gr_len g) mod LOG_PAGE_SIZE = 0) gs"

text \<open>The cell of the region holds the window of the region in log \<open>lg\<close>.\<close>

definition logged_region :: "nat \<Rightarrow> log_store \<Rightarrow> guest_region \<Rightarrow> bool" where
  "logged_region lg s g \<longleftrightarrow>
     (case inners s (inner (gr_bitmap g)) of
        None \<Rightarrow> False
      | Some b \<Rightarrow> logmem b = lg \<and> pages_before_region b = page_number (unat (gr_start g)) \<and>
          number_of_pages b = page_number (unat (gr_len g)) \<and> fits b (logs s lg))"

lemma new_bitmaps_OkD:
  "new_bitmaps lg n gs = Ok bs \<Longrightarrow> map fst bs = gs \<and>
    list_all (\<lambda>(g, b). atomic_bitmap_new (gr_start g) (gr_len g) lg n = Ok b) bs"
  by (induction gs arbitrary: bs) (auto simp: rust_simps)

lemma logs_replace_bitmaps [simp]: "logs (replace_bitmaps bs s) = logs s"
  by (induction bs s rule: replace_bitmaps.induct) (simp_all add: replace_bitmap_def)

lemma replace_bitmaps_other:
  "c \<notin> (\<lambda>x. inner (gr_bitmap (fst x))) ` set bs \<Longrightarrow> inners (replace_bitmaps bs s) c = inners s c"
  by (induction bs s rule: replace_bitmaps.induct) (auto simp: replace_bitmap_def)

lemma replaced_bitmap:
  assumes "distinct (map (\<lambda>x. inner (gr_bitmap (fst x))) bs)" "(g, b) \<in> set bs"
  shows "inners (replace_bitmaps bs s) (inner (gr_bitmap g)) = Some b"
  using assms
proof (induction bs arbitrary: s)
  case (Cons x bs)
  show ?case
  proof (cases "x = (g, b)")
    case True
    with Cons.prems(1) replace_bitmaps_other [of "inner (gr_bitmap g)" bs "replace_bitmap (gr_bitmap g) b s"] show ?thesis
      by (simp add: replace_bitmap_def)
  next
    case False
    with Cons.prems Cons.IH show ?thesis by (cases x) auto
  qed
qed simp

lemma atomic_bitmap_new_window:
  "atomic_bitmap_new start len lg n = Ok b \<Longrightarrow>
    logmem b = lg \<and> pages_before_region b = page_number (unat start) \<and> number_of_pages b = page_number (unat len)"
  by (auto simp: atomic_bitmap_new_def Let_def rust_simps ok_or_def split: if_splits option.splits)

lemma set_log_base_logged:
  assumes "set_log_base env file off n h = (Ok (), h')" "distinct (map (\<lambda>g. inner (gr_bitmap g)) (h_atomic_mem h))"
    and "g \<in> set (h_atomic_mem h)"
  shows "logged_region (h_next_log h) (h_store h') g"
proof -
  from assms(1) obtain log bs where m: "mmap_log_from_file (he_mmap env file) off n = Ok log"
    and bs: "new_bitmaps (h_next_log h) (length log) (h_atomic_mem h) = Ok bs"
    and h': "h_store h' = replace_bitmaps bs ((h_store h)\<lparr>logs := (logs (h_store h))(h_next_log h := log)\<rparr>)"
    by (auto simp: set_log_base_def Let_def split: rust.splits)
  from new_bitmaps_OkD [OF bs] have f: "map fst bs = h_atomic_mem h"
    and new: "list_all (\<lambda>(g, b). atomic_bitmap_new (gr_start g) (gr_len g) (h_next_log h) (length log) = Ok b) bs" by auto
  have d: "distinct (map (\<lambda>x. inner (gr_bitmap (fst x))) bs)"
    using assms(2) by (simp add: f [symmetric] o_def)
  from assms(3) f obtain b where b: "(g, b) \<in> set bs" by (metis (no_types, lifting) imageE list.set_map prod.collapse)
  with new have n: "atomic_bitmap_new (gr_start g) (gr_len g) (h_next_log h) (length log) = Ok b"
    by (auto simp: list_all_iff)
  show ?thesis
    using replaced_bitmap [OF d b] atomic_bitmap_new_window [OF n] atomic_bitmap_new_fits [OF n]
    by (simp add: logged_region_def h')
qed

text \<open>A refused request has replaced no bitmap.\<close>

lemma set_log_base_refused:
  "set_log_base env file off n h = (Err e, h') \<Longrightarrow> inners (h_store h') = inners (h_store h)"
  by (auto simp: set_log_base_def Let_def split: rust.splits)

section \<open>What a write marks\<close>

lemma page_number_add: "a mod LOG_PAGE_SIZE = 0 \<Longrightarrow> page_number (a + x) = page_number a + page_number x"
  by (auto simp: page_number_def LOG_PAGE_SIZE_def mod_eq_0_iff_dvd elim!: dvdE)

lemma page_number_interval:
  assumes "0 < len"
  shows "page_number ` {off ..< off + len} = {page_number off .. page_number (off + len - 1)}"
proof (rule set_eqI, rule iffI)
  fix p assume "p \<in> page_number ` {off ..< off + len}"
  then show "p \<in> {page_number off .. page_number (off + len - 1)}"
    by (auto intro!: page_number_mono)
next
  fix p assume p: "p \<in> {page_number off .. page_number (off + len - 1)}"
  let ?x = "max off (p * LOG_PAGE_SIZE)"
  have "p * LOG_PAGE_SIZE \<le> off + len - 1" using p by (simp add: page_number_def LOG_PAGE_SIZE_def) linarith
  moreover have "page_number ?x = p"
    using p by (auto simp: page_number_def LOG_PAGE_SIZE_def max_def)
  ultimately show "p \<in> page_number ` {off ..< off + len}"
    using assms by (intro image_eqI [of _ _ ?x]) auto
qed

text \<open>The guest addresses of a write of \<open>len\<close> bytes at an offset in a region, and when it lies in the region.\<close>

definition write_addresses :: "guest_region \<times> nat \<times> nat \<Rightarrow> nat set" where
  "write_addresses w = (case w of (g, off, len) \<Rightarrow> {unat (gr_start g) + off ..< unat (gr_start g) + off + len})"

definition write_inside :: "guest_memory \<Rightarrow> guest_region \<times> nat \<times> nat \<Rightarrow> bool" where
  "write_inside gs w = (case w of (g, off, len) \<Rightarrow> g \<in> set gs \<and> off + len \<le> unat (gr_len g))"

lemma window_pages_region:
  assumes "unat (gr_start g) mod LOG_PAGE_SIZE = 0" "unat (gr_len g) mod LOG_PAGE_SIZE = 0"
    and "pages_before_region b = page_number (unat (gr_start g))" "number_of_pages b = page_number (unat (gr_len g))"
    and "0 < len" "off + len \<le> unat (gr_len g)"
  shows "window_pages b (page_number off) (page_number (off + len - 1)) = page_number ` write_addresses (g, off, len)"
proof -
  have "page_number (off + len - 1) < page_number (unat (gr_len g))"
    using assms(2,5,6) by (auto simp: page_number_def LOG_PAGE_SIZE_def elim!: dvdE)
  then have "{p. page_number off \<le> p \<and> p \<le> page_number (off + len - 1) \<and> p < number_of_pages b}
      = page_number ` {off ..< off + len}"
    unfolding page_number_interval [OF assms(5)] assms(4) by auto
  then have "window_pages b (page_number off) (page_number (off + len - 1))
      = (\<lambda>x. page_number (unat (gr_start g) + x)) ` {off ..< off + len}"
    using assms(1) by (simp add: window_pages_def image_image assms(3) page_number_add)
  also have "\<dots> = page_number ` ((+) (unat (gr_start g)) ` {off ..< off + len})" by (simp only: image_image)
  also have "(+) (unat (gr_start g)) ` {off ..< off + len} = write_addresses (g, off, len)"
    by (simp add: write_addresses_def ac_simps)
  finally show ?thesis .
qed

lemma region_mark_logged:
  assumes "migratable gs" "\<And>g. g \<in> set gs \<Longrightarrow> logged_region lg s g" "write_inside gs (g, off, len)"
  obtains s' where "region_mark_dirty (gr_bitmap g) off len s = (Ok (), s')"
    "dirty_pages (logs s' lg) = dirty_pages (logs s lg) \<union> page_number ` write_addresses (g, off, len)"
    "\<And>g. g \<in> set gs \<Longrightarrow> logged_region lg s' g"
proof -
  have g: "g \<in> set gs" "off + len \<le> unat (gr_len g)" using assms(3) by (simp_all add: write_inside_def)
  with assms(1) have al: "base_address (gr_bitmap g) = 0" "unat (gr_start g) mod LOG_PAGE_SIZE = 0"
      "unat (gr_len g) mod LOG_PAGE_SIZE = 0" by (auto simp: migratable_def list_all_iff)
  from assms(2) [OF g(1)] obtain b where b: "inners s (inner (gr_bitmap g)) = Some b" "logmem b = lg"
      "pages_before_region b = page_number (unat (gr_start g))" "number_of_pages b = page_number (unat (gr_len g))"
      "fits b (logs s lg)"
    by (auto simp: logged_region_def split: option.splits)
  have lim: "off + len \<le> usize_max" using g(2) unat_u64_lt [of "gr_len g"] by (simp add: usize_max_def del: unat_u64_lt)
  obtain log' where l: "atomic_mark_dirty b off len (logs s lg) = Ok log'" "length log' = length (logs s lg)"
      "dirty_pages log' = dirty_pages (logs s lg) \<union>
         (if len = 0 then {} else window_pages b (page_number off) (page_number (saturating_add off (len - 1))))"
    by (rule atomic_mark_dirty_refines [OF b(5)])
  let ?s = "s\<lparr>logs := (logs s)(lg := log')\<rparr>"
  have "saturating_add off (len - 1) = off + len - 1" if "0 < len"
    using that lim by (simp add: saturating_add_def)
  then have d: "dirty_pages log' = dirty_pages (logs s lg) \<union> page_number ` write_addresses (g, off, len)"
    using l(3) window_pages_region [OF al(2,3) b(3,4) _ g(2)] by (cases "len = 0") (simp_all add: write_addresses_def)
  have "region_mark_dirty (gr_bitmap g) off len s = (Ok (), ?s)"
    using b(1,2) l(1) al(1) lim by (simp add: region_mark_dirty_def checked_add_def)
  moreover have "logged_region lg ?s k" if "k \<in> set gs" for k
    using assms(2) [OF that] fits_length [OF _ l(2)] by (auto simp: logged_region_def split: option.splits)
  ultimately show ?thesis using d that by simp
qed

lemma mark_writes_logged:
  assumes "migratable gs" "\<And>g. g \<in> set gs \<Longrightarrow> logged_region lg s g" "list_all (write_inside gs) ws"
  shows "\<exists>s'. mark_writes (map (\<lambda>(g, off, len). (gr_bitmap g, off, len)) ws) s = (Ok (), s') \<and>
    dirty_pages (logs s' lg) = dirty_pages (logs s lg) \<union> page_number ` (\<Union> (write_addresses ` set ws))"
  using assms(2,3)
proof (induction ws arbitrary: s)
  case (Cons w ws)
  obtain g off len where w: "w = (g, off, len)" by (metis prod_cases3)
  with Cons.prems(2) have i: "write_inside gs (g, off, len)" "list_all (write_inside gs) ws" by simp_all
  obtain s1 where s1: "region_mark_dirty (gr_bitmap g) off len s = (Ok (), s1)"
      "dirty_pages (logs s1 lg) = dirty_pages (logs s lg) \<union> page_number ` write_addresses (g, off, len)"
      "\<And>g. g \<in> set gs \<Longrightarrow> logged_region lg s1 g"
    using region_mark_logged [OF assms(1) Cons.prems(1) i(1)] by blast
  from Cons.IH [OF s1(3) i(2)] s1(1,2) w show ?case by (auto simp: bind_method_def image_Un)
qed simp

section \<open>Properties\<close>

text \<open>C8: after a successful \<^verbatim>\<open>SET_LOG_BASE\<close>, any sequence of writes inside the memory regions is marked without an
  error, and the dirty pages of the shared log are then exactly those it had when it was mapped and the pages of
  the guest addresses that were written.\<close>

theorem migration_log_exact:
  assumes "set_log_base env file off n h = (Ok (), h')" "migratable (h_atomic_mem h)"
    and "list_all (write_inside (h_atomic_mem h)) ws"
  shows "\<exists>s'. mark_writes (map (\<lambda>(g, off, len). (gr_bitmap g, off, len)) ws) (h_store h') = (Ok (), s') \<and>
    dirty_pages (logs s' (h_next_log h))
      = dirty_pages (logs (h_store h') (h_next_log h)) \<union> page_number ` (\<Union> (write_addresses ` set ws))"
proof (rule mark_writes_logged [OF assms(2) _ assms(3)])
  fix g assume "g \<in> set (h_atomic_mem h)"
  with set_log_base_logged [OF assms(1)] assms(2) show "logged_region (h_next_log h) (h_store h') g"
    by (simp add: migratable_def)
qed

text \<open>Two regions, at pages 0 and 16, and a write that crosses a page of the second.\<close>

definition migrating_memory :: guest_memory where
  "migrating_memory = [\<lparr>gr_start = 0, gr_len = 0x2000, gr_bitmap = \<lparr>inner = 0, base_address = 0\<rparr>\<rparr>,
     \<lparr>gr_start = 0x10000, gr_len = 0x4000, gr_bitmap = \<lparr>inner = 1, base_address = 0\<rparr>\<rparr>]"

theorem migration_log_exact_witness:
  "\<exists>h' s'. set_log_base (plain_env idle_device) 3 0 4 ((started_handler ())\<lparr>h_atomic_mem := migrating_memory\<rparr>) = (Ok (), h') \<and>
    mark_writes [(\<lparr>inner = 1, base_address = 0\<rparr>, 0xfff, 2)] (h_store h') = (Ok (), s') \<and>
    dirty_pages (logs s' 0) = {16, 17}"
proof -
  let ?h = "(started_handler ())\<lparr>h_atomic_mem := migrating_memory\<rparr>"
  let ?w = "(\<lparr>gr_start = 0x10000, gr_len = 0x4000, gr_bitmap = \<lparr>inner = 1, base_address = 0\<rparr>\<rparr>, 0xfff, 2)"
  have "fst (set_log_base (plain_env idle_device) 3 0 4 ?h) = Ok () \<and>
      logs (h_store (snd (set_log_base (plain_env idle_device) 3 0 4 ?h))) 0 = replicate 4 0"
    by (simp add: set_log_base_def mmap_log_from_file_def plain_env_def started_handler_def migrating_memory_def
        atomic_bitmap_new_def checked_add_def usize_max_def page_number_def page_word_def LOG_PAGE_SIZE_def LOG_WORD_SIZE_def replace_bitmap_def)
  then obtain h' where h': "set_log_base (plain_env idle_device) 3 0 4 ?h = (Ok (), h')" "logs (h_store h') 0 = replicate 4 0"
    by (metis prod.collapse)
  have m: "migratable (h_atomic_mem ?h)" "list_all (write_inside (h_atomic_mem ?h)) [?w]"
    by (simp_all add: migratable_def migrating_memory_def write_inside_def LOG_PAGE_SIZE_def)
  have z: "dirty_pages (replicate 4 0) = {}" by (simp add: dirty_pages_def)
  have "page_number ` write_addresses ?w = {16, 17}"
  proof -
    have "write_addresses ?w = {0x10fff, 0x11000}" by (auto simp: write_addresses_def)
    then show ?thesis by (simp add: page_number_def LOG_PAGE_SIZE_def)
  qed
  with migration_log_exact [OF h'(1) m] h' z show ?thesis
    by (simp add: started_handler_def)
qed

end
