(* ===== verification/Gpu_Fence_Locks.thy ===== *)
theory Gpu_Fence_Locks
  imports Virtio_Gpu
begin

text \<open>
  The two threads that share the fences of the gpu, step by step, with the two mutexes they take. The
  worker (\<^verbatim>\<open>handle_queue_event\<close> of \<^verbatim>\<open>worker.rs\<close>) holds the lock of its queue from \<^verbatim>\<open>try_lock_queue\<close> to the end
  of the event and takes the lock of the fence state inside it, in \<^verbatim>\<open>process_fence\<close>. The fence handler
  (\<^verbatim>\<open>create_fence_handler\<close> of \<^verbatim>\<open>virtio_gpu.rs\<close>) holds the lock of the fence state for its whole body and
  takes the lock of the queue inside it, for each chain it returns; \<^verbatim>\<open>Vring::try_lock_queue\<close> of
  \<^verbatim>\<open>vring.rs\<close> waits for that lock. \<open>Virtio_Gpu\<close> models each of the two as one function; here a
  program counter says how far a thread has come, which also says which locks it holds. The ring
  is enabled throughout. First what all interleavings keep: the handler acts on the fence state as the
  function \<open>fence_handler\<close> does, and the parked fences stay pending. Then that the two orders of
  locking exclude each other: the threads can come to wait for each other for ever.
\<close>

section \<open>Threads, locks and steps\<close>

text \<open>The worker outside the queue lock, inside it, and inside it while it waits for the fence state.\<close>

datatype worker_pc =
    W_Idle
  | W_Working
  | W_Parking virtio_gpu_ring u64 u16 u32

text \<open>The handler outside the lock of the fence state, inside its \<^verbatim>\<open>while\<close> loop at an index, and inside it with a
  removed descriptor while it waits for the queue.\<close>

datatype handler_pc =
    H_Idle
  | H_Running rutabaga_fence nat
  | H_Locking rutabaga_fence nat fence_descriptor

record 'q fence_world =
  fw_state :: fence_state
  fw_queue :: 'q
  fw_worker :: worker_pc
  fw_handler :: handler_pc

definition fence_ring :: "rutabaga_fence \<Rightarrow> virtio_gpu_ring" where
  "fence_ring f = ring_of (rgf_flags f) (rgf_ctx_id f) (rgf_ring_idx f)"

definition matches :: "rutabaga_fence \<Rightarrow> fence_descriptor \<Rightarrow> bool" where
  "matches f d = fence_done (fence_ring f) (rgf_fence_id f) d"

text \<open>Every step is what one thread does between two operations on a lock; a step that takes a lock
  is possible only while the other thread does not hold it. What the worker does with its queue
  while it holds the lock (popping, executing, answering) is any change of the queue.\<close>

inductive fence_step :: "'q used_ops \<Rightarrow> 'q fence_world \<Rightarrow> 'q fence_world \<Rightarrow> bool" for uo where
  w_lock: "fw_worker w = W_Idle \<Longrightarrow> fence_step uo w (w\<lparr>fw_worker := W_Working\<rparr>)"
| w_queue: "fw_worker w = W_Working \<Longrightarrow> fence_step uo w (w\<lparr>fw_queue := q\<rparr>)"
| w_park: "fw_worker w = W_Working \<Longrightarrow> fence_step uo w (w\<lparr>fw_worker := W_Parking ring fence_id desc_index len\<rparr>)"
| w_process_fence: "fw_worker w = W_Parking ring fence_id desc_index len \<Longrightarrow> fw_handler w = H_Idle \<Longrightarrow>
    fence_step uo w (w\<lparr>fw_worker := W_Working,
      fw_state := snd (process_fence ring fence_id desc_index len (fw_state w))\<rparr>)"
| w_unlock: "fw_worker w = W_Working \<Longrightarrow> fence_step uo w (w\<lparr>fw_worker := W_Idle\<rparr>)"
| h_lock: "fw_handler w = H_Idle \<Longrightarrow> fence_step uo w (w\<lparr>fw_handler := H_Running f 0\<rparr>)"
| h_skip: "fw_handler w = H_Running f i \<Longrightarrow> i < length (descs (fw_state w)) \<Longrightarrow>
    \<not> matches f (descs (fw_state w) ! i) \<Longrightarrow>
    fence_step uo w (w\<lparr>fw_handler := H_Running f (Suc i)\<rparr>)"
| h_remove: "fw_handler w = H_Running f i \<Longrightarrow> i < length (descs (fw_state w)) \<Longrightarrow>
    matches f (descs (fw_state w) ! i) \<Longrightarrow>
    fence_step uo w (w\<lparr>fw_handler := H_Locking f i (descs (fw_state w) ! i),
      fw_state := (fw_state w)\<lparr>descs := remove_at i (descs (fw_state w))\<rparr>\<rparr>)"
| h_complete: "fw_handler w = H_Locking f i d \<Longrightarrow> fw_worker w = W_Idle \<Longrightarrow>
    complete_desc uo d (fw_queue w) = (Ok (), q') \<Longrightarrow>
    fence_step uo w (w\<lparr>fw_handler := H_Running f i, fw_queue := q'\<rparr>)"
| h_unlock: "fw_handler w = H_Running f i \<Longrightarrow> \<not> i < length (descs (fw_state w)) \<Longrightarrow>
    fence_step uo w (w\<lparr>fw_handler := H_Idle,
      fw_state := (fw_state w)\<lparr>completed_fences := (completed_fences (fw_state w))(fence_ring f \<mapsto> rgf_fence_id f)\<rparr>\<rparr>)"

inductive_cases fence_step_elim: "fence_step uo w w'"

definition fence_world_start :: "'q \<Rightarrow> 'q fence_world" where
  "fence_world_start q = \<lparr>fw_state = fence_state_default, fw_queue = q, fw_worker = W_Idle, fw_handler = H_Idle\<rparr>"

text \<open>The worlds that the threads can bring about from the start.\<close>

inductive world_reachable :: "'q used_ops \<Rightarrow> 'q \<Rightarrow> 'q fence_world \<Rightarrow> bool" for uo q where
  start: "world_reachable uo q (fence_world_start q)"
| step: "world_reachable uo q w \<Longrightarrow> fence_step uo w w' \<Longrightarrow> world_reachable uo q w'"

section \<open>What every interleaving keeps\<close>

text \<open>While the handler is at index \<open>i\<close>, the descriptors before it do not match and those not matching are
  the ones of the beginning. \<open>handler_view f s w\<close>: the handler runs for \<open>f\<close> in \<open>w\<close> and found the fence state \<open>s\<close>.\<close>

definition before_kept :: "rutabaga_fence \<Rightarrow> nat \<Rightarrow> fence_state \<Rightarrow> bool" where
  "before_kept f i s \<longleftrightarrow> i \<le> length (descs s) \<and> list_all (\<lambda>d. \<not> matches f d) (take i (descs s))"

fun handler_at :: "rutabaga_fence \<Rightarrow> handler_pc \<Rightarrow> fence_state \<Rightarrow> bool" where
  "handler_at f H_Idle s = False"
| "handler_at f (H_Running f' i) s = (f' = f \<and> before_kept f i s)"
| "handler_at f (H_Locking f' i d) s = (f' = f \<and> before_kept f i s)"

definition handler_view :: "rutabaga_fence \<Rightarrow> fence_state \<Rightarrow> 'q fence_world \<Rightarrow> bool" where
  "handler_view f s w \<longleftrightarrow> handler_at f (fw_handler w) (fw_state w) \<and>
     completed_fences (fw_state w) = completed_fences s \<and>
     filter (\<lambda>d. \<not> matches f d) (descs (fw_state w)) = filter (\<lambda>d. \<not> matches f d) (descs s)"

lemma filter_remove_at:
  assumes "i < length ds" "\<not> P (ds ! i)"
  shows "filter P (remove_at i ds) = filter P ds"
  using assms by (subst (2) id_take_nth_drop [OF assms(1)]) (simp add: remove_at_def)

lemma before_kept_0: "before_kept f 0 s"
  by (simp add: before_kept_def)

lemma before_kept_Suc:
  "before_kept f i s \<Longrightarrow> i < length (descs s) \<Longrightarrow> \<not> matches f (descs s ! i) \<Longrightarrow> before_kept f (Suc i) s"
  by (simp add: before_kept_def take_Suc_conv_app_nth)

lemma before_kept_remove:
  "before_kept f i s \<Longrightarrow> i < length (descs s) \<Longrightarrow> before_kept f i (s\<lparr>descs := remove_at i (descs s)\<rparr>)"
  by (simp add: before_kept_def remove_at_def min_def)

lemma before_kept_end:
  "before_kept f i s \<Longrightarrow> \<not> i < length (descs s) \<Longrightarrow> filter (\<lambda>d. \<not> matches f d) (descs s) = descs s"
  by (simp add: before_kept_def list_all_iff)

lemma handler_view_start: "handler_view f (fw_state w) (w\<lparr>fw_handler := H_Running f 0\<rparr>)"
  by (simp add: handler_view_def before_kept_0)

text \<open>A step of either thread keeps the view, as long as the handler does not leave its lock; when it does, the fence
  state is the one of the function.\<close>

lemma handler_view_step:
  assumes "handler_view f s w" "fence_step uo w w'" "fw_handler w' \<noteq> H_Idle"
  shows "handler_view f s w'"
  using assms(2,1,3)
  by (cases rule: fence_step_elim)
    (auto simp: handler_view_def before_kept_Suc before_kept_remove filter_remove_at)

lemma handler_view_leave:
  assumes "handler_view f s w" "fence_step uo w w'" "fw_handler w' = H_Idle"
  shows "fw_state w' = s\<lparr>descs := filter (\<lambda>d. \<not> matches f d) (descs s),
    completed_fences := (completed_fences s)(fence_ring f \<mapsto> rgf_fence_id f)\<rparr>"
  using assms(2,1,3)
  by (cases rule: fence_step_elim)
    (auto simp: handler_view_def dest!: before_kept_end intro!: fence_state.equality)

lemma handler_view_steps:
  assumes "(\<lambda>a b. fence_step uo a b \<and> fw_handler b \<noteq> H_Idle)\<^sup>*\<^sup>* w w'" "handler_view f s w"
  shows "handler_view f s w'"
  using assms by (induction) (auto intro: handler_view_step)

text \<open>The fences of the parked descriptors are pending at every moment, also while the handler is at work.\<close>

definition world_ok :: "'q fence_world \<Rightarrow> bool" where
  "world_ok w \<longleftrightarrow> fences_pending (fw_state w) \<and>
     (case fw_handler w of H_Idle \<Rightarrow> True
      | H_Running f i \<Rightarrow> before_kept f i (fw_state w)
      | H_Locking f i d \<Rightarrow> before_kept f i (fw_state w))"

lemma fences_pending_remove:
  "fences_pending s \<Longrightarrow> fences_pending (s\<lparr>descs := remove_at i (descs s)\<rparr>)"
  by (auto simp: fences_pending_def last_completed_def list_all_iff remove_at_def dest: in_set_takeD in_set_dropD)

lemma fences_pending_finish:
  assumes "fences_pending s" "before_kept f i s" "\<not> i < length (descs s)"
  shows "fences_pending (s\<lparr>completed_fences := (completed_fences s)(fence_ring f \<mapsto> rgf_fence_id f)\<rparr>)"
  using assms
  by (auto simp: fences_pending_def before_kept_def list_all_iff last_completed_def matches_def fence_done_def)

lemma world_ok_step: "fence_step uo w w' \<Longrightarrow> world_ok w \<Longrightarrow> world_ok w'"
  by (cases rule: fence_step_elim, assumption)
    (auto simp: world_ok_def fences_pending_process_fence before_kept_0 before_kept_Suc before_kept_remove
      fences_pending_remove fences_pending_finish split: handler_pc.splits)

lemma world_ok_reachable: "world_reachable uo q w \<Longrightarrow> world_ok w"
proof (induction rule: world_reachable.induct)
  case start
  show ?case by (simp add: world_ok_def fence_world_start_def fences_pending_default)
qed (rule world_ok_step)

section \<open>Where the threads can stop\<close>

text \<open>The worker holds the queue and waits for the fence state; the handler holds the fence state and waits for the
  queue.\<close>

definition lock_cycle :: "'q fence_world \<Rightarrow> bool" where
  "lock_cycle w \<longleftrightarrow> (\<exists>ring fence_id desc_index len. fw_worker w = W_Parking ring fence_id desc_index len) \<and>
     (\<exists>f i d. fw_handler w = H_Locking f i d)"

lemma lock_cycle_stuck: "lock_cycle w \<Longrightarrow> \<not> fence_step uo w w'"
  by (auto simp: lock_cycle_def elim!: fence_step_elim)

lemma no_lock_cycle_steps:
  assumes "\<not> lock_cycle w" "\<And>d q. fst (complete_desc uo d q) = Ok ()"
  shows "\<exists>w'. fence_step uo w w'"
proof (cases "fw_worker w")
  case W_Idle
  then show ?thesis using w_lock by blast
next
  case W_Working
  then show ?thesis using w_unlock by blast
next
  case (W_Parking ring fence_id desc_index len)
  show ?thesis
  proof (cases "fw_handler w")
    case H_Idle
    with W_Parking show ?thesis using w_process_fence by blast
  next
    case (H_Running f i)
    then show ?thesis using h_skip [of w f i uo] h_remove [of w f i uo] h_unlock [of w f i uo] by blast
  next
    case (H_Locking f i d)
    with W_Parking assms(1) show ?thesis by (auto simp: lock_cycle_def)
  qed
qed

text \<open>From the start: the worker parks a chain for a fence and comes to park a second one; before it gets the fence
  state the renderer signals the first fence, and the handler finds its chain.\<close>

lemma lock_cycle_reachable: "\<exists>w. world_reachable uo q w \<and> lock_cycle w"
proof -
  let ?d = "\<lparr>fd_ring = Global, fd_fence_id = 1, fd_desc_index = 0, fd_len = 0\<rparr>"
  let ?f = "\<lparr>rgf_flags = 0, rgf_fence_id = 1, rgf_ctx_id = 0, rgf_ring_idx = 0\<rparr>"
  let ?w = "\<lambda>ds wp hp. \<lparr>fw_state = \<lparr>descs = ds, completed_fences = (\<lambda>_. None)\<rparr>, fw_queue = q,
     fw_worker = wp, fw_handler = hp\<rparr>"
  let ?p = "W_Parking Global 1 0 0"
  have 0: "world_reachable uo q (?w [] W_Idle H_Idle)"
    using start [of uo q] by (simp add: fence_world_start_def fence_state_default_def)
  have 1: "world_reachable uo q (?w [] W_Working H_Idle)"
    using step [OF 0 w_lock] by simp
  have 2: "world_reachable uo q (?w [] ?p H_Idle)"
    using step [OF 1 w_park] by simp
  have 3: "world_reachable uo q (?w [?d] W_Working H_Idle)"
    using step [OF 2 w_process_fence] by (simp add: process_fence_def)
  have 4: "world_reachable uo q (?w [?d] ?p H_Idle)"
    using step [OF 3 w_park] by simp
  have 5: "world_reachable uo q (?w [?d] ?p (H_Running ?f 0))"
    using step [OF 4 h_lock] by simp
  have "matches ?f ?d" by (simp add: matches_def fence_ring_def ring_of_def fence_done_def)
  with step [OF 5 h_remove [of _ ?f 0]] have "world_reachable uo q (?w [] ?p (H_Locking ?f 0 ?d))"
    by (simp add: remove_at_def)
  then show ?thesis by (intro exI conjI) (assumption, simp add: lock_cycle_def)
qed

lemma complete_all_ok:
  "(\<And>d q. fst (complete_desc uo d q) = Ok ()) \<Longrightarrow> fst (complete_all uo ds q) = Ok ()"
proof (induction ds arbitrary: q)
  case (Cons d ds)
  obtain r q1 where "complete_desc uo d q = (r, q1)" by fastforce
  with Cons.prems [of d q] Cons.IH [of q1] Cons.prems show ?case by (simp add: bind_method_def)
qed (simp add: return_method_def)

section \<open>Properties\<close>

text \<open>C15: the fence handler is atomic for the fence state: whatever the worker does between the steps of the handler,
  when the handler releases its lock the fence state is the one that the uninterrupted function
  computes from the state at which it took the lock.\<close>

theorem handler_atomic:
  assumes "(\<lambda>a b. fence_step uo a b \<and> fw_handler b \<noteq> H_Idle)\<^sup>*\<^sup>* (w\<lparr>fw_handler := H_Running f 0\<rparr>) w1"
    and "fence_step uo w1 w2" "fw_handler w2 = H_Idle"
    and "\<And>d q. fst (complete_desc uo d q) = Ok ()"
  shows "fw_state w2 = fst (snd (fence_handler uo f (fw_state w, q)))"
proof -
  obtain q' where "complete_all uo (filter (matches f) (descs (fw_state w))) q = (Ok (), q')"
    using complete_all_ok [OF assms(4)] by (metis prod.collapse)
  then have "complete_all uo (filter (fence_done (fence_ring f) (rgf_fence_id f)) (descs (fw_state w))) q = (Ok (), q')"
    by (simp add: matches_def [abs_def])
  from fence_loop_ok [OF this, of "[]"]
    handler_view_leave [OF handler_view_steps [OF assms(1) handler_view_start] assms(2,3)]
  show ?thesis by (simp add: fence_handler_eq fence_ring_def matches_def)
qed

text \<open>The witness: the worker takes its queue while the handler is inside its loop, changes it and lets it go again
  before the handler can return the chain.\<close>

definition easy_used :: "u16 list used_ops" where
  "easy_used = \<lparr>uo_available = (\<lambda>_. True), uo_add_used = (\<lambda>h n q. (Ok (), q @ [h])), uo_signal = (\<lambda>q. (Ok (), q))\<rparr>"

lemma complete_desc_easy_used: "complete_desc easy_used d q = (Ok (), q @ [fd_desc_index d])"
  by (simp add: complete_desc_def easy_used_def)

definition sample_fence :: "u64 \<Rightarrow> rutabaga_fence" where
  "sample_fence n = \<lparr>rgf_flags = 0, rgf_fence_id = n, rgf_ctx_id = 0, rgf_ring_idx = 0\<rparr>"

definition one_parked :: fence_state where
  "one_parked = \<lparr>descs = [\<lparr>fd_ring = Global, fd_fence_id = 1, fd_desc_index = 7, fd_len = 24\<rparr>], completed_fences = (\<lambda>_. None)\<rparr>"

lemma fence_ring_sample: "fence_ring (sample_fence n) = Global"
  by (simp add: fence_ring_def sample_fence_def ring_of_def)

theorem handler_atomic_witness:
  "\<exists>w2. fence_step easy_used
        \<lparr>fw_state = \<lparr>descs = [], completed_fences = (\<lambda>_. None)\<rparr>, fw_queue = [3, 7], fw_worker = W_Idle,
         fw_handler = H_Running (sample_fence 1) 0\<rparr> w2 \<and>
     fw_state w2 = fst (snd (fence_handler easy_used (sample_fence 1) (one_parked, [])))"
proof -
  let ?d = "\<lparr>fd_ring = Global, fd_fence_id = 1, fd_desc_index = 7, fd_len = 24\<rparr>"
  let ?w = "\<lambda>ds q wp hp. \<lparr>fw_state = \<lparr>descs = ds, completed_fences = (\<lambda>_. None)\<rparr>, fw_queue = q,
     fw_worker = wp, fw_handler = hp\<rparr>"
  let ?R = "\<lambda>a b. fence_step easy_used a b \<and> fw_handler b \<noteq> H_Idle"
  let ?f = "sample_fence 1"
  let ?w2 = "(?w [] [3, 7] W_Idle H_Idle)\<lparr>fw_state := \<lparr>descs = [], completed_fences = [Global \<mapsto> 1]\<rparr>\<rparr>"
  have m: "matches ?f ?d" by (simp add: matches_def fence_ring_sample fence_done_def) (simp add: sample_fence_def)
  have 1: "?R (?w [?d] [] W_Idle (H_Running ?f 0)) (?w [?d] [] W_Working (H_Running ?f 0))"
    using w_lock [of "?w [?d] [] W_Idle (H_Running ?f 0)" easy_used] by simp
  have 2: "?R (?w [?d] [] W_Working (H_Running ?f 0)) (?w [] [] W_Working (H_Locking ?f 0 ?d))"
    using h_remove [of "?w [?d] [] W_Working (H_Running ?f 0)" ?f 0 easy_used] m by (simp add: remove_at_def)
  have 3: "?R (?w [] [] W_Working (H_Locking ?f 0 ?d)) (?w [] [3] W_Working (H_Locking ?f 0 ?d))"
    using w_queue [of "?w [] [] W_Working (H_Locking ?f 0 ?d)" easy_used "[3]"] by simp
  have 4: "?R (?w [] [3] W_Working (H_Locking ?f 0 ?d)) (?w [] [3] W_Idle (H_Locking ?f 0 ?d))"
    using w_unlock [of "?w [] [3] W_Working (H_Locking ?f 0 ?d)" easy_used] by simp
  have 5: "?R (?w [] [3] W_Idle (H_Locking ?f 0 ?d)) (?w [] [3, 7] W_Idle (H_Running ?f 0))"
    using h_complete [of "?w [] [3] W_Idle (H_Locking ?f 0 ?d)" ?f 0 ?d easy_used "[3, 7]"]
    by (simp add: complete_desc_easy_used)
  have 6: "fence_step easy_used (?w [] [3, 7] W_Idle (H_Running ?f 0)) ?w2"
    using h_unlock [of "?w [] [3, 7] W_Idle (H_Running ?f 0)" ?f 0 easy_used] fence_ring_sample [of 1]
    by (simp add: sample_fence_def)
  have "?R\<^sup>*\<^sup>* ((?w [?d] [] W_Idle H_Idle)\<lparr>fw_handler := H_Running ?f 0\<rparr>) (?w [] [3, 7] W_Idle (H_Running ?f 0))"
    unfolding fence_world.simps
    apply (rule converse_rtranclp_into_rtranclp [where r = ?R], rule 1)
    apply (rule converse_rtranclp_into_rtranclp [where r = ?R], rule 2)
    apply (rule converse_rtranclp_into_rtranclp [where r = ?R], rule 3)
    apply (rule converse_rtranclp_into_rtranclp [where r = ?R], rule 4)
    apply (rule r_into_rtranclp [where r = ?R], rule 5)
    done
  from handler_atomic [OF this 6, of "[]"] 6 show ?thesis
    by (intro exI [of _ ?w2]) (simp add: complete_desc_easy_used one_parked_def)
qed

text \<open>C16: whatever the interleaving of the two threads, at every moment the parked chains wait for fences later than
  the last completed one of their ring, so no chain is parked for a fence that has been signalled.\<close>

theorem parked_pending_in_every_interleaving:
  assumes "world_reachable uo q w"
  shows "fences_pending (fw_state w)"
  using world_ok_reachable [OF assms] by (simp add: world_ok_def)

theorem parked_pending_in_every_interleaving_witness:
  "fences_pending (snd (process_fence Global 5 3 24 fence_state_default))"
proof -
  let ?w = "(fence_world_start [])\<lparr>fw_worker := W_Parking Global 5 3 24\<rparr>"
  let ?uo = easy_used
  have "world_reachable ?uo [] ((fence_world_start [])\<lparr>fw_worker := W_Working\<rparr>)"
    by (rule step [OF start w_lock]) (simp add: fence_world_start_def)
  then have "world_reachable ?uo [] ?w"
    using step [OF _ w_park [of "(fence_world_start [])\<lparr>fw_worker := W_Working\<rparr>"]] by simp
  from step [OF this w_process_fence [of ?w Global 5 3 24]]
  have "world_reachable ?uo [] (?w\<lparr>fw_worker := W_Working,
      fw_state := snd (process_fence Global 5 3 24 fence_state_default)\<rparr>)"
    by (simp add: fence_world_start_def)
  from parked_pending_in_every_interleaving [OF this] show ?thesis by simp
qed

text \<open>C17: the two threads can stop each other for ever, and only in one way: the worker waits for the fence state with
  its queue locked and the handler waits for that queue with the fence state locked. Such a state can be reached
  from the start, with one parked chain, whatever the queue does.\<close>

theorem fence_threads_deadlock:
  assumes "\<And>d q. fst (complete_desc uo d q) = Ok ()"
  shows "(\<exists>w. world_reachable uo q w \<and> (\<forall>w'. \<not> fence_step uo w w')) \<and>
    (\<forall>w. (\<forall>w'. \<not> fence_step uo w w') \<longleftrightarrow> lock_cycle w)"
  using lock_cycle_reachable [of uo q] lock_cycle_stuck no_lock_cycle_steps [OF _ assms] by blast

theorem fence_threads_deadlock_witness:
  "\<exists>w. world_reachable easy_used [] w \<and> (\<forall>w'. \<not> fence_step easy_used w w')"
  by (rule conjunct1 [OF fence_threads_deadlock]) (simp add: complete_desc_easy_used)

end
