(* ===== verification/Gpu_Service.thy ===== *)
theory Gpu_Service
  imports Gpu_Worker Gpu_Fence_Locks
begin

text \<open>
  The gpu device in service: the driver offers chains on the control and the cursor queue, the worker handles
  the kicks of both (\<^verbatim>\<open>handle_queue_event\<close>) and the poll event, and the renderer signals fences
  through the fence handler, which \<^verbatim>\<open>RutabagaVirtioGpu::new\<close> ties to the control queue. A run is any
  sequence of these operations, each as the other theories model it. The lemmas show what all runs
  keep: every chain is on its way in exactly one place, and the renderer gets every parked one out. The
  crate \<^verbatim>\<open>virtio_queue\<close> and the signal of the ring are parameters with \<open>served_queue\<close>; a chain with a
  fence on the cursor queue is outside the runs, and the last lemma shows what becomes of it.
\<close>

section \<open>The queue and the chains\<close>

text \<open>Beside \<open>worker_queue_contract\<close>: an empty queue stays empty when it is polled, and switching the notifications
  or signalling the driver leaves the rings alone.\<close>

definition served_queue ::
  "('q, 'rd, 'w) worker_queue_ops \<Rightarrow> ('q, unit, io_error) rust_method \<Rightarrow> ('q \<Rightarrow> ('rd, 'w) desc_chain list)
    \<Rightarrow> ('q \<Rightarrow> (u16 \<times> u32) list) \<Rightarrow> bool" where
  "served_queue qo sig pending used \<longleftrightarrow> worker_queue_contract qo pending used \<and>
     (\<forall>q. pending q = [] \<longrightarrow> pending (snd (wq_pop qo q)) = []) \<and>
     (\<forall>q. pending (snd (wq_disable_notification qo q)) = pending q \<and> used (snd (wq_disable_notification qo q)) = used q) \<and>
     (\<forall>q. pending (snd (wq_enable_notification qo q)) = pending q \<and> used (snd (wq_enable_notification qo q)) = used q) \<and>
     (\<forall>q. pending (snd (sig q)) = pending q \<and> used (snd (sig q)) = used q)"

lemma served_queueD:
  assumes "served_queue qo sig pending used"
  shows "worker_queue_contract qo pending used"
    and "pending q = [] \<Longrightarrow> \<exists>q'. wq_pop qo q = (None, q') \<and> pending q' = [] \<and> used q' = used q"
    and "wq_disable_notification qo q = (d, q1) \<Longrightarrow> pending q1 = pending q \<and> used q1 = used q"
    and "wq_enable_notification qo q = (e, q1) \<Longrightarrow> pending q1 = pending q \<and> used q1 = used q"
    and "sig q = (u, q1) \<Longrightarrow> pending q1 = pending q \<and> used q1 = used q"
proof -
  have s: "worker_queue_contract qo pending used"
      "\<And>q. pending q = [] \<Longrightarrow> pending (snd (wq_pop qo q)) = []"
      "\<And>q. pending (snd (wq_disable_notification qo q)) = pending q \<and> used (snd (wq_disable_notification qo q)) = used q"
      "\<And>q. pending (snd (wq_enable_notification qo q)) = pending q \<and> used (snd (wq_enable_notification qo q)) = used q"
      "\<And>q. pending (snd (sig q)) = pending q \<and> used (snd (sig q)) = used q"
    using assms by (simp_all add: served_queue_def)
  show "worker_queue_contract qo pending used" by (rule s(1))
  show "\<exists>q'. wq_pop qo q = (None, q') \<and> pending q' = [] \<and> used q' = used q" if "pending q = []"
    using wq_popD(1) [OF s(1) that] s(2) [OF that] by auto
  show "pending q1 = pending q \<and> used q1 = used q" if "wq_disable_notification qo q = (d, q1)"
    using s(3) [of q] that by simp
  show "pending q1 = pending q \<and> used q1 = used q" if "wq_enable_notification qo q = (e, q1)"
    using s(4) [of q] that by simp
  show "pending q1 = pending q \<and> used q1 = used q" if "sig q = (u, q1)"
    using s(5) [of q] that by simp
qed

definition unfenced :: "gpu_env \<Rightarrow> 'rd reader \<Rightarrow> ('rd, 'w) desc_chain \<Rightarrow> bool" where
  "unfenced env rd c =
     (case ch_reader c of
        Ok reader \<Rightarrow>
          (case fst (decode (env_ct env) rd reader) of
             Ok (hdr, cmd) \<Rightarrow> hdr_flags hdr AND VIRTIO_GPU_FLAG_FENCE = 0
           | _ \<Rightarrow> True)
      | _ \<Rightarrow> True)"

lemma execute_chain_hdr:
  assumes "execute_chain env rd vg reader g = (Ok (response, Some hdr), g')"
  shows "\<exists>cmd. fst (decode (env_ct env) rd reader) = Ok (hdr, cmd)"
  using assms by (auto simp: execute_chain_def split: prod.splits rust.splits)

lemma unfenced_returned:
  assumes "process_queue_chain env rd wo vg qo head reader (g, q, w) = (Ok b, g', q', w')"
    and "unfenced env rd c" "ch_reader c = Ok reader"
  shows b
  using assms(1)
proof (cases rule: process_queue_chain_OkE)
  case (answer response hdr g1 response' meta g2)
  have "hdr_flags h AND VIRTIO_GPU_FLAG_FENCE = 0" if "hdr = Some h" for h
    using execute_chain_hdr [of env rd vg reader g response h g1] answer(1) that assms(2,3)
    by (auto simp: unfenced_def)
  with answer(3) have "meta = no_meta"
    by (auto simp: create_chain_fence_def split: option.splits)
  with answer(4) show ?thesis
    by (auto simp: finish_chain_def no_meta_def Let_def map_ok_def split: prod.splits rust.splits)
qed

section \<open>Rules for the queue loops\<close>

text \<open>A property of the gpu and of the waiting chains that every chain keeps holds when the loop has ended well, with no
  chain waiting.\<close>

lemma process_queue_loop_rule:
  assumes q: "served_queue qo sig pending used"
    and chain: "\<And>c cs g q1 reader writer b g2 q2 w2. I g (c # cs) \<Longrightarrow> ch_reader c = Ok reader \<Longrightarrow>
      process_queue_chain env rd wo vg qo (ch_head_index c) reader (g, q1, writer) = (Ok b, g2, q2, w2) \<Longrightarrow> I g2 cs"
    and run: "process_queue_loop env rd wo vg qo signal_used (g, q, out) = Some (Ok sg, g', q', out')" "I g (pending q)"
  shows "I g' [] \<and> pending q' = []"
  using run
proof (induction "pending q" arbitrary: g q out signal_used)
  case Nil
  then obtain q1 where q1: "wq_pop qo q = (None, q1)" "pending q1 = []"
    using served_queueD(2) [OF q, of q] by metis
  with Nil.prems(1) have "g' = g" "q' = q1" by (subst (asm) process_queue_loop.simps, simp)+
  with q1 Nil.hyps Nil.prems(2) show ?case by simp
next
  case (Cons c cs)
  note w = served_queueD(1) [OF q]
  obtain q1 where q1: "wq_pop qo q = (Some c, q1)" "pending q1 = cs"
    using wq_popD(2) [OF w] Cons.hyps(2) by metis
  from Cons.prems(1) q1(1) obtain reader writer b g2 q2 w2 where c: "ch_reader c = Ok reader"
    and p: "process_queue_chain env rd wo vg qo (ch_head_index c) reader (g, q1, writer) = (Ok b, g2, q2, w2)"
    and l: "process_queue_loop env rd wo vg qo (signal_used \<or> b) (g2, q2, out @ [(ch_head_index c, w2)])
        = Some (Ok sg, g', q', out')"
    by (subst (asm) process_queue_loop.simps) (auto split: rust.splits prod.splits simp: Let_def)
  have "cs = pending q2" using process_queue_chain_pending [OF w p] q1(2) by simp
  with Cons.hyps(1) [OF _ l] chain [OF _ c p, of cs] Cons.hyps(2) Cons.prems(2) show ?case by simp
qed

text \<open>What processing a queue establishes from a state of the gpu and the rings, a whole queue event establishes too.\<close>

lemma event_idx_loop_rule:
  assumes "event_idx_loop env rd wo vg qo sig s = Some y"
    and "served_queue qo sig pending used"
    and "\<And>g q out sg g' q' out'. process_queue env rd wo vg qo (g, q, out) = Some (Ok sg, g', q', out') \<Longrightarrow>
      I g (pending q) (used q) \<Longrightarrow> I g' (pending q') (used q') \<and> pending q' = []"
    and "I (fst s) (pending (fst (snd s))) (used (fst (snd s)))" "fst y = Ok ()"
  shows "I (fst (snd y)) (pending (fst (snd (snd y)))) (used (fst (snd (snd y)))) \<and> pending (fst (snd (snd y))) = []"
  using assms
proof (induction rule: event_idx_loop.raw_induct [rotated 1, consumes 1])
  case (1 loop env rd wo vg qo sig s y)
  obtain g q out where s: "s = (g, q, out)" by (metis prod_cases3)
  obtain d q1 where d: "wq_disable_notification qo q = (d, q1)" by fastforce
  have k1: "pending q1 = pending q" "used q1 = used q"
    using served_queueD(3) [OF "1.prems"(1) d] by simp_all
  from "1.hyps"(1) "1.prems"(4) s d obtain notify g2 q2 out2 where ok: "is_ok d"
    and p: "process_queue env rd wo vg qo (g, q1, out) = Some (Ok notify, g2, q2, out2)"
    by (auto simp: Let_def split: if_splits option.splits prod.splits rust.splits)
  have i2: "I g2 (pending q2) (used q2)" "pending q2 = []"
    using "1.prems"(2) [OF p] "1.prems"(3) k1 s by auto
  obtain sr q3 where sr: "(if notify then sig q2 else (Ok (), q2)) = (sr, q3)" by fastforce
  have k3: "pending q3 = pending q2" "used q3 = used q2"
    using served_queueD(5) [OF "1.prems"(1), of q2 sr q3] sr by (cases notify; simp)+
  obtain en q4 where en: "wq_enable_notification qo q3 = (en, q4)" by fastforce
  have k4: "pending q4 = pending q3" "used q4 = used q3"
    using served_queueD(4) [OF "1.prems"(1) en] by simp_all
  have "(if \<not> is_ok sr then Some (Panic, g2, q3, out2)
         else (case en of Err _ \<Rightarrow> Some (Panic, g2, q4, out2) | Panic \<Rightarrow> Some (Panic, g2, q4, out2)
           | Ok again \<Rightarrow> if \<not> again then Some (Ok (), g2, q4, out2) else loop env rd wo vg qo sig (g2, q4, out2))) = Some y"
    using "1.hyps"(1) by (simp only: s d p sr en ok Let_def prod.case option.case rust.case if_False not_True_eq_False)
  with "1.prems"(4) consider (stop) "y = (Ok (), g2, q4, out2)"
    | (again) "loop env rd wo vg qo sig (g2, q4, out2) = Some y"
    by (cases "is_ok sr"; cases en; cases "en = Ok True") auto
  then show ?case
  proof cases
    case stop
    with i2 k3 k4 show ?thesis by simp
  next
    case again
    show ?thesis
      by (rule "1.IH"(1) [OF again "1.prems"(1) _ _ "1.prems"(4)]) (erule (1) "1.prems"(2), use i2 k3 k4 in simp)
  qed
qed

lemma handle_queue_event_rule:
  assumes "served_queue qo sig pending used"
    and "\<And>g q out sg g' q' out'. process_queue env rd wo vg qo (g, q, out) = Some (Ok sg, g', q', out') \<Longrightarrow>
      I g (pending q) (used q) \<Longrightarrow> I g' (pending q') (used q') \<and> pending q' = []"
    and "handle_queue_event env rd wo vg qo sig kicked available (g, q, out) = Some (Ok u, g', q', out')"
    and "I g (pending q) (used q)"
  shows "I g' (pending q') (used q')"
proof -
  consider (idle) "g' = g" "q' = q"
    | (loop) "event_idx_loop env rd wo vg qo sig (g, q, out) = Some (Ok (), g', q', out')"
    | (once) sg where "process_queue env rd wo vg qo (g, q, out) = Some (Ok sg, g', q', out')"
    using assms(3) by (auto simp: handle_queue_event_def map_ok_def split: rust.splits if_splits prod.splits) (metis rust.exhaust)+
  then show ?thesis
  proof cases
    case loop
    have "I (fst (snd (Ok () :: (unit, device_error) rust, g', q', out'))) (pending (fst (snd (snd (Ok () :: (unit, device_error) rust, g', q', out')))))
        (used (fst (snd (snd (Ok () :: (unit, device_error) rust, g', q', out'))))) \<and>
      pending (fst (snd (snd (Ok () :: (unit, device_error) rust, g', q', out')))) = []"
      by (rule event_idx_loop_rule [where I = I, OF loop assms(1)]) (erule (1) assms(2), use assms(4) in simp_all)
    then show ?thesis by auto
  next
    case once
    from assms(2) [OF once assms(4)] show ?thesis by (rule conjunct1)
  qed (use assms(4) in simp)
qed

section \<open>What a queue event keeps\<close>

text \<open>Where the chains are: in the used ring, parked, or waiting.\<close>

definition chains_of :: "u16 list \<Rightarrow> ('rd, 'w) desc_chain list \<Rightarrow> (u16 \<times> u32) list \<Rightarrow> u16 multiset" where
  "chains_of parked_heads waiting us = mset (map fst us) + mset parked_heads + mset (map ch_head_index waiting)"

lemma process_queue_pending:
  assumes "served_queue qo sig pending used"
    and "process_queue env rd wo vg qo (g, q, out) = Some (Ok sg, g', q', out')"
  shows "pending q' = []"
  using process_queue_loop_rule [OF assms(1), where I = "\<lambda>_ _. True"] assms(2) by (simp add: process_queue_def)

lemma process_queue_chains:
  assumes "served_queue qo sig pending used"
    and "process_queue env rd wo (rutabaga_gpu dbg ro bo) qo (g, q, out) = Some (Ok sg, g', q', out')"
  shows "chains_of (parked g') (pending q') (used q') = chains_of (parked g) (pending q) (used q)"
  using process_queue_loop_accounts [OF served_queueD(1) [OF assms(1)] assms(2) [unfolded process_queue_def]]
    process_queue_pending [OF assms]
  by (simp add: chains_of_def)

lemma process_queue_fences:
  assumes "served_queue qo sig pending used"
    and "process_queue env rd wo (rutabaga_gpu dbg ro bo) qo (g, q, out) = Some (Ok sg, g', q', out')"
    and "fences_pending (gpu_fence_state g)"
  shows "fences_pending (gpu_fence_state g')"
proof -
  let ?I = "\<lambda>g _. fences_pending (gpu_fence_state g)"
  have "?I g' [] \<and> pending q' = []"
  proof (rule process_queue_loop_rule [OF assms(1), where I = ?I])
    fix c g1 q1 reader writer b g2 q2 w2
    assume "fences_pending (gpu_fence_state g1)"
      "process_queue_chain env rd wo (rutabaga_gpu dbg ro bo) qo (ch_head_index c) reader (g1, q1, writer) = (Ok b, g2, q2, w2)"
    then show "fences_pending (gpu_fence_state g2)"
      using pending_gpu.process_queue_chain_inv [of g1, where env = env and rd = rd and reader = reader and dbg = dbg
        and ro = ro and bo = bo and wo = wo and qo = qo and head = "ch_head_index c" and q = q1 and w = writer] by simp
  qed (use assms(2,3) in \<open>auto simp: process_queue_def\<close>)
  then show ?thesis by simp
qed

text \<open>Chains without a fence are not parked.\<close>

lemma process_queue_unfenced:
  fixes pending :: "'q \<Rightarrow> ('rd, 'w) desc_chain list"
  assumes "served_queue qo sig pending used"
    and "process_queue env rd wo (rutabaga_gpu dbg ro bo) qo (g, q, out) = Some (Ok sg, g', q', out')"
    and "list_all (unfenced env rd) (pending q)"
  shows "parked g' = parked g"
proof -
  let ?I = "\<lambda>g1 cs. parked g1 = parked g \<and> list_all (unfenced env rd) (cs :: ('rd, 'w) desc_chain list)"
  have "?I g' [] \<and> pending q' = []"
  proof (rule process_queue_loop_rule [OF assms(1), where I = ?I])
    fix c cs g1 q1 reader writer b g2 q2 w2
    assume "?I g1 (c # cs)" "ch_reader c = Ok reader"
      and p: "process_queue_chain env rd wo (rutabaga_gpu dbg ro bo) qo (ch_head_index c) reader (g1, q1, writer) = (Ok b, g2, q2, w2)"
    then show "?I g2 cs"
      using unfenced_returned [OF p, of c] process_queue_chain_parked [OF p] by simp
  qed (use assms(2,3) in \<open>auto simp: process_queue_def\<close>)
  then show ?thesis by simp
qed

lemma event_chains:
  assumes "served_queue qo sig pending used"
    and "handle_queue_event env rd wo (rutabaga_gpu dbg ro bo) qo sig kicked available (g, q, out) = Some (Ok u, g', q', out')"
  shows "chains_of (parked g') (pending q') (used q') = chains_of (parked g) (pending q) (used q)"
proof (rule handle_queue_event_rule [OF assms(1) _ assms(2), where I = "\<lambda>g2 p2 u2. chains_of (parked g2) p2 u2 = chains_of (parked g) (pending q) (used q)"])
  fix g1 q1 out1 sg g2 q2 out2
  assume p: "process_queue env rd wo (rutabaga_gpu dbg ro bo) qo (g1, q1, out1) = Some (Ok sg, g2, q2, out2)"
    and i: "(\<lambda>g2 p2 u2. chains_of (parked g2) p2 u2 = chains_of (parked g) (pending q) (used q)) g1 (pending q1) (used q1)"
  show "(\<lambda>g2 p2 u2. chains_of (parked g2) p2 u2 = chains_of (parked g) (pending q) (used q)) g2 (pending q2) (used q2) \<and> pending q2 = []"
    using process_queue_chains [OF assms(1) p] process_queue_pending [OF assms(1) p] i by simp
qed simp

lemma event_fences:
  assumes "served_queue qo sig pending used"
    and "handle_queue_event env rd wo (rutabaga_gpu dbg ro bo) qo sig kicked available (g, q, out) = Some (Ok u, g', q', out')"
    and "fences_pending (gpu_fence_state g)"
  shows "fences_pending (gpu_fence_state g')"
proof (rule handle_queue_event_rule [OF assms(1) _ assms(2), where I = "\<lambda>g2 _ _. fences_pending (gpu_fence_state g2)"])
  fix g1 q1 out1 sg g2 q2 out2
  assume p: "process_queue env rd wo (rutabaga_gpu dbg ro bo) qo (g1, q1, out1) = Some (Ok sg, g2, q2, out2)"
    and i: "(\<lambda>g2 _ _. fences_pending (gpu_fence_state g2)) g1 (pending q1) (used q1)"
  show "(\<lambda>g2 _ _. fences_pending (gpu_fence_state g2)) g2 (pending q2) (used q2) \<and> pending q2 = []"
    using process_queue_fences [OF assms(1) p] process_queue_pending [OF assms(1) p] i by simp
qed (use assms(3) in simp)

lemma event_unfenced:
  assumes "served_queue qo sig pending used"
    and "handle_queue_event env rd wo (rutabaga_gpu dbg ro bo) qo sig kicked available (g, q, out) = Some (Ok u, g', q', out')"
    and "list_all (unfenced env rd) (pending q)"
  shows "parked g' = parked g \<and> list_all (unfenced env rd) (pending q')"
proof (rule handle_queue_event_rule [OF assms(1) _ assms(2), where I = "\<lambda>g2 p2 _. parked g2 = parked g \<and> list_all (unfenced env rd) p2"])
  fix g1 q1 out1 sg g2 q2 out2
  assume p: "process_queue env rd wo (rutabaga_gpu dbg ro bo) qo (g1, q1, out1) = Some (Ok sg, g2, q2, out2)"
    and i: "(\<lambda>g2 p2 _. parked g2 = parked g \<and> list_all (unfenced env rd) p2) g1 (pending q1) (used q1)"
  show "(\<lambda>g2 p2 _. parked g2 = parked g \<and> list_all (unfenced env rd) p2) g2 (pending q2) (used q2) \<and> pending q2 = []"
    using process_queue_unfenced [OF assms(1) p] process_queue_pending [OF assms(1) p] i by simp
qed (use assms(3) in simp)

section \<open>What a signalled fence keeps\<close>

text \<open>What the fence handler gets of the control queue; the errors of the signal are unwrapped in it.\<close>

definition fence_queue :: "('q, 'rd, 'w) worker_queue_ops \<Rightarrow> ('q, unit, io_error) rust_method \<Rightarrow> 'q used_ops" where
  "fence_queue qo sig = \<lparr>uo_available = (\<lambda>_. True), uo_add_used = wq_add_used qo,
     uo_signal = (\<lambda>q. (map_err (\<lambda>_. 0) (fst (sig q)), snd (sig q)))\<rparr>"

lemma complete_desc_served:
  assumes "served_queue qo sig pending used" "complete_desc (fence_queue qo sig) d q = (Ok (), q')"
  shows "used q' = used q @ [(fd_desc_index d, fd_len d)] \<and> pending q' = pending q"
proof -
  obtain r q1 where a: "wq_add_used qo (fd_desc_index d) (fd_len d) q = (r, q1)" by fastforce
  obtain u q2 where u: "sig q1 = (u, q2)" by fastforce
  from assms(2) a u have "r = Ok ()" "q' = q2"
    by (auto simp: complete_desc_def fence_queue_def is_ok_def split: if_splits rust.splits)
  then have "add_used qo (fd_desc_index d) (fd_len d) q = (Ok (), q1)" using a by (simp add: add_used_def)
  from add_used_OkD [OF served_queueD(1) [OF assms(1)] this] served_queueD(5) [OF assms(1) u] \<open>q' = q2\<close>
  show ?thesis by simp
qed

lemma mset_remove_at: "i < length ds \<Longrightarrow> mset (remove_at i ds) + {#ds ! i#} = mset ds"
  by (subst (3) id_take_nth_drop) (simp_all add: remove_at_def)

lemma fence_loop_chains:
  assumes "served_queue qo sig pending used"
    and "fence_loop (fence_queue qo sig) ring fence_id i ds q = (Ok (), ds', q')"
  shows "chains_of (map fd_desc_index ds') (pending q') (used q') = chains_of (map fd_desc_index ds) (pending q) (used q) \<and>
    pending q' = pending q"
  using assms(2)
proof (induction "fence_queue qo sig" ring fence_id i ds q rule: fence_loop.induct)
  case (1 ring fence_id i ds q)
  show ?case
  proof (cases "i < length ds \<and> fence_done ring fence_id (ds ! i)")
    case True
    with "1.prems" obtain q1 where c: "complete_desc (fence_queue qo sig) (ds ! i) q = (Ok (), q1)"
        and l: "fence_loop (fence_queue qo sig) ring fence_id i (remove_at i ds) q1 = (Ok (), ds', q')"
      by (subst (asm) fence_loop.simps) (auto split: prod.splits if_splits)
    have m: "mset (map fd_desc_index ds) = mset (map fd_desc_index (remove_at i ds)) + {#fd_desc_index (ds ! i)#}"
      using arg_cong [OF mset_remove_at, of i ds "image_mset fd_desc_index"] True by simp
    have "chains_of (map fd_desc_index (remove_at i ds)) (pending q1) (used q1) = chains_of (map fd_desc_index ds) (pending q) (used q)"
      "pending q1 = pending q"
      using complete_desc_served [OF assms(1) c] by (simp_all add: chains_of_def m del: mset_map)
    moreover note "1.hyps"(1) [OF _ _ refl c [symmetric] refl l]
    ultimately show ?thesis using True by metis
  next
    case False
    with "1.prems" "1.hyps"(2) show ?thesis
      by (subst (asm) fence_loop.simps) (auto split: if_splits)
  qed
qed

lemma fence_handler_chains:
  assumes "served_queue qo sig pending used"
    and "fence_handler (fence_queue qo sig) f (s, q) = (Ok (), s', q')"
  shows "chains_of (map fd_desc_index (descs s')) (pending q') (used q')
      = chains_of (map fd_desc_index (descs s)) (pending q) (used q) \<and> pending q' = pending q"
proof -
  obtain r ds q1 where "fence_loop (fence_queue qo sig) (ring_of (rgf_flags f) (rgf_ctx_id f) (rgf_ring_idx f))
      (rgf_fence_id f) 0 (descs s) q = (r, ds, q1)" by (metis prod_cases3)
  moreover from this assms(2) have "r = Ok ()" "q1 = q'" "descs s' = ds"
    by (auto simp: fence_handler_eq split: if_splits)
  ultimately show ?thesis by (metis fence_loop_chains [OF assms(1)])
qed

text \<open>The renderer signals a list of fences.\<close>

fun signal_all :: "'q used_ops \<Rightarrow> rutabaga_fence list \<Rightarrow> fence_state \<times> 'q \<Rightarrow> (unit, nat) rust \<times> fence_state \<times> 'q" where
  "signal_all uo [] sq = (Ok (), sq)"
| "signal_all uo (f # fs) sq = (let (r, sq') = fence_handler uo f sq in if r = Ok () then signal_all uo fs sq' else (r, sq'))"

lemma fence_handler_total:
  assumes "\<And>d q. fst (complete_desc uo d q) = Ok ()"
  shows "\<exists>s' q'. fence_handler uo f (s, q) = (Ok (), s', q') \<and> descs s' = filter (\<lambda>d. \<not> matches f d) (descs s)"
proof -
  obtain q' where "complete_all uo (filter (matches f) (descs s)) q = (Ok (), q')"
    using complete_all_ok [OF assms] by (metis prod.collapse)
  then have "complete_all uo (filter (fence_done (fence_ring f) (rgf_fence_id f)) (descs s)) q = (Ok (), q')"
    by (simp add: matches_def [abs_def])
  from fence_loop_ok [OF this, of "[]"] show ?thesis by (simp add: fence_handler_eq fence_ring_def matches_def)
qed

lemma signal_all_total:
  assumes "served_queue qo sig pending used" "\<And>d q. fst (complete_desc (fence_queue qo sig) d q) = Ok ()"
  shows "\<exists>s' q'. signal_all (fence_queue qo sig) fs (s, q) = (Ok (), s', q') \<and>
    descs s' = filter (\<lambda>d. \<forall>f\<in>set fs. \<not> matches f d) (descs s) \<and>
    chains_of (map fd_desc_index (descs s')) (pending q') (used q')
      = chains_of (map fd_desc_index (descs s)) (pending q) (used q) \<and> pending q' = pending q"
proof (induction fs arbitrary: s q)
  case (Cons f fs)
  obtain s1 q1 where h: "fence_handler (fence_queue qo sig) f (s, q) = (Ok (), s1, q1)"
      "descs s1 = filter (\<lambda>d. \<not> matches f d) (descs s)"
    using fence_handler_total [OF assms(2)] by blast
  obtain s2 q2 where t: "signal_all (fence_queue qo sig) fs (s1, q1) = (Ok (), s2, q2)"
      "descs s2 = filter (\<lambda>d. \<forall>f\<in>set fs. \<not> matches f d) (descs s1)"
      "chains_of (map fd_desc_index (descs s2)) (pending q2) (used q2)
         = chains_of (map fd_desc_index (descs s1)) (pending q1) (used q1)" "pending q2 = pending q1"
    using Cons.IH by blast
  have "chains_of (map fd_desc_index (descs s2)) (pending q2) (used q2)
      = chains_of (map fd_desc_index (descs s)) (pending q) (used q)" "pending q2 = pending q"
    using t(3,4) fence_handler_chains [OF assms(1) h(1)] by auto
  with h t(1,2) show ?case by simp
qed simp

section \<open>Runs\<close>

text \<open>The driver's view is the list of the heads it has offered on each queue.\<close>

record ('r, 'b, 'q) service =
  sv_gpu :: "('r, 'b) rutabaga_virtio_gpu"
  sv_control :: 'q
  sv_cursor :: 'q
  sv_offered_control :: "u16 list"
  sv_offered_cursor :: "u16 list"

inductive service_reachable ::
  "gpu_env \<Rightarrow> 'rd reader \<Rightarrow> 'w writer_ops \<Rightarrow> bool \<Rightarrow> 'r rutabaga_ops \<Rightarrow> 'b backend_ops
    \<Rightarrow> ('q, 'rd, 'w) worker_queue_ops \<Rightarrow> ('q, unit, io_error) rust_method
    \<Rightarrow> ('q \<Rightarrow> ('rd, 'w) desc_chain list) \<Rightarrow> ('q \<Rightarrow> (u16 \<times> u32) list) \<Rightarrow> ('r, 'b, 'q) service \<Rightarrow> bool"
  for env rd wo dbg ro bo qo sig pending used where
  start: "pending qc = [] \<Longrightarrow> used qc = [] \<Longrightarrow> pending qk = [] \<Longrightarrow> used qk = [] \<Longrightarrow>
    service_reachable env rd wo dbg ro bo qo sig pending used
      \<lparr>sv_gpu = rutabaga_virtio_gpu_new r b, sv_control = qc, sv_cursor = qk, sv_offered_control = [], sv_offered_cursor = []\<rparr>"
| offer_control: "service_reachable env rd wo dbg ro bo qo sig pending used s \<Longrightarrow>
    pending q' = pending (sv_control s) @ [c] \<Longrightarrow> used q' = used (sv_control s) \<Longrightarrow>
    service_reachable env rd wo dbg ro bo qo sig pending used
      (s\<lparr>sv_control := q', sv_offered_control := sv_offered_control s @ [ch_head_index c]\<rparr>)"
| offer_cursor: "service_reachable env rd wo dbg ro bo qo sig pending used s \<Longrightarrow>
    unfenced env rd c \<Longrightarrow> pending q' = pending (sv_cursor s) @ [c] \<Longrightarrow> used q' = used (sv_cursor s) \<Longrightarrow>
    service_reachable env rd wo dbg ro bo qo sig pending used
      (s\<lparr>sv_cursor := q', sv_offered_cursor := sv_offered_cursor s @ [ch_head_index c]\<rparr>)"
| control_event: "service_reachable env rd wo dbg ro bo qo sig pending used s \<Longrightarrow>
    handle_queue_event env rd wo (rutabaga_gpu dbg ro bo) qo sig kicked available (sv_gpu s, sv_control s, [])
      = Some (Ok (), g', q', out) \<Longrightarrow>
    service_reachable env rd wo dbg ro bo qo sig pending used (s\<lparr>sv_gpu := g', sv_control := q'\<rparr>)"
| cursor_event: "service_reachable env rd wo dbg ro bo qo sig pending used s \<Longrightarrow>
    handle_queue_event env rd wo (rutabaga_gpu dbg ro bo) qo sig kicked available (sv_gpu s, sv_cursor s, [])
      = Some (Ok (), g', q', out) \<Longrightarrow>
    service_reachable env rd wo dbg ro bo qo sig pending used (s\<lparr>sv_gpu := g', sv_cursor := q'\<rparr>)"
| poll: "service_reachable env rd wo dbg ro bo qo sig pending used s \<Longrightarrow>
    service_reachable env rd wo dbg ro bo qo sig pending used (s\<lparr>sv_gpu := event_poll ro (sv_gpu s)\<rparr>)"
| fence: "service_reachable env rd wo dbg ro bo qo sig pending used s \<Longrightarrow>
    fence_handler (fence_queue qo sig) f (gpu_fence_state (sv_gpu s), sv_control s) = (Ok (), fs', q') \<Longrightarrow>
    service_reachable env rd wo dbg ro bo qo sig pending used
      (s\<lparr>sv_gpu := (sv_gpu s)\<lparr>gpu_fence_state := fs'\<rparr>, sv_control := q'\<rparr>)"

definition service_ok ::
  "gpu_env \<Rightarrow> 'rd reader \<Rightarrow> ('q \<Rightarrow> ('rd, 'w) desc_chain list) \<Rightarrow> ('q \<Rightarrow> (u16 \<times> u32) list) \<Rightarrow> ('r, 'b, 'q) service \<Rightarrow> bool" where
  "service_ok env rd pending used s \<longleftrightarrow>
     chains_of (parked (sv_gpu s)) (pending (sv_control s)) (used (sv_control s)) = mset (sv_offered_control s) \<and>
     chains_of [] (pending (sv_cursor s)) (used (sv_cursor s)) = mset (sv_offered_cursor s) \<and>
     list_all (unfenced env rd) (pending (sv_cursor s)) \<and> fences_pending (gpu_fence_state (sv_gpu s))"

lemma service_reachable_ok:
  assumes "service_reachable env rd wo dbg ro bo qo sig pending used s" "served_queue qo sig pending used"
  shows "service_ok env rd pending used s"
  using assms(1)
proof (induction rule: service_reachable.induct)
  case (start qc qk r b)
  then show ?case
    by (simp add: service_ok_def chains_of_def parked_def rutabaga_virtio_gpu_new_def fences_pending_default)
      (simp add: fence_state_default_def)
next
  case (offer_control s q' c)
  then show ?case by (simp add: service_ok_def chains_of_def)
next
  case (offer_cursor s c q')
  then show ?case by (simp add: service_ok_def chains_of_def)
next
  case (control_event s kicked available g' q' out)
  with event_chains [OF assms(2) control_event(2)] event_fences [OF assms(2) control_event(2)] show ?case
    by (simp add: service_ok_def)
next
  case (cursor_event s kicked available g' q' out)
  then have "parked g' = parked (sv_gpu s)" "list_all (unfenced env rd) (pending q')"
    using event_unfenced [OF assms(2) cursor_event(2)] by (simp_all add: service_ok_def)
  with cursor_event(3) event_chains [OF assms(2) cursor_event(2)] event_fences [OF assms(2) cursor_event(2)] show ?case
    by (simp add: service_ok_def chains_of_def)
next
  case (poll s)
  then show ?case by (simp add: service_ok_def parked_def event_poll_def)
next
  case (fence s f fs' q')
  have "fences_pending fs'"
    using fences_pending_fence_handler [of "gpu_fence_state (sv_gpu s)" "fence_queue qo sig" f "sv_control s"] fence(2,3)
    by (simp add: service_ok_def)
  with fence(3) fence_handler_chains [OF assms(2) fence(2)] show ?case by (auto simp: service_ok_def parked_def)
qed

section \<open>A run with a parked chain\<close>

text \<open>The driver offers one chain, which asks for the displays with fence 9; the worker handles the kick and parks it.\<close>

abbreviation quiet :: "('q, unit, io_error) rust_method" where
  "quiet \<equiv> (\<lambda>q. (Ok (), q))"

definition fenced_chain :: "(u8 list, u8 list \<times> nat) desc_chain" where
  "fenced_chain = \<lparr>ch_head_index = 4, ch_reader = Ok (put virtio_gpu_ctrl_hdr_layout fenced_hdr), ch_writer = Ok ([], 1000)\<rparr>"

abbreviation easy_gpu :: "(unit, gpu_update list) rutabaga_virtio_gpu virtio_gpu_ops" where
  "easy_gpu \<equiv> rutabaga_gpu True easy_renderer easy_backend"

abbreviation fresh_gpu :: "(unit, gpu_update list) rutabaga_virtio_gpu" where
  "fresh_gpu \<equiv> rutabaga_virtio_gpu_new () []"

definition parked_state :: fence_state where
  "parked_state = \<lparr>descs = [\<lparr>fd_ring = Global, fd_fence_id = 9, fd_desc_index = 4, fd_len = 408\<rparr>], completed_fences = (\<lambda>_. None)\<rparr>"

lemma served_list_queue: "served_queue list_queue quiet fst snd"
  by (auto simp: served_queue_def list_queue_contract) (auto simp: list_queue_def)

lemma fenced_chain_parks:
  "\<exists>w'. process_queue_chain sample_env list_reader list_writer easy_gpu list_queue 4
      (put virtio_gpu_ctrl_hdr_layout fenced_hdr) (fresh_gpu, q, ([], 1000))
    = (Ok False, fresh_gpu\<lparr>gpu_fence_state := parked_state\<rparr>, q, w')"
proof -
  let ?bs = "put virtio_gpu_ctrl_hdr_layout fenced_hdr"
  let ?resp = "OkDisplayInfo [(640, 480, True)]"
  have v: "virtio_gpu_ctrl_hdr_valid fenced_hdr"
    by (simp add: fenced_hdr_def sample_hdr_def virtio_gpu_ctrl_hdr_valid_def)
  have d: "decode (env_ct sample_env) list_reader ?bs = (Ok (fenced_hdr, GetDisplayInfo), [])"
    using decode_put [OF inj_spec_ctrl_type v, of GetDisplayInfo "[]"]
    by (simp add: fenced_hdr_def sample_hdr_def sample_env_def)
  have "process_gpu_command sample_env easy_gpu fenced_hdr GetDisplayInfo fresh_gpu = (Ok ?resp, fresh_gpu)"
    by (simp add: process_gpu_command_def rutabaga_gpu_def display_info_def easy_backend_def on_backend_def
        bind_method_def return_method_def force_ctx_0_def easy_renderer_def)
  with d have e: "execute_chain sample_env list_reader easy_gpu ?bs fresh_gpu = (Ok (?resp, Some fenced_hdr), fresh_gpu)"
    by (simp add: execute_chain_def)
  have f: "create_chain_fence easy_gpu (Some fenced_hdr) ?resp fresh_gpu
      = (Ok (?resp, \<lparr>rm_flags = 1, rm_fence_id = 9, rm_ctx_id = 0, rm_ring_idx = 0\<rparr>), fresh_gpu)"
    by (simp add: create_chain_fence_def fenced_hdr_def sample_hdr_def VIRTIO_GPU_FLAG_FENCE_def rutabaga_gpu_def
        create_fence_def no_data_def on_rutabaga_def easy_renderer_def bind_method_def return_method_def)
  have "fst (encode (env_ct sample_env) list_writer ?resp 1 9 0 0 ([], 1000)) = Ok 408"
    using encode_ok [OF writer_contract_list_writer, of ?resp "env_ct sample_env" 1 9 0 0 "([], 1000)"]
    by (simp add: length_response_bytes list_writer_def del: length_concat)
  then obtain w' where w: "encode (env_ct sample_env) list_writer ?resp 1 9 0 0 ([], 1000) = (Ok 408, w')"
    by (metis prod.collapse)
  have "gpu_process_fence Global 9 4 408 fresh_gpu = (False, fresh_gpu\<lparr>gpu_fence_state := parked_state\<rparr>)"
    by (simp add: gpu_process_fence_def process_fence_def rutabaga_virtio_gpu_new_def fence_state_default_def parked_state_def)
  with w have "finish_chain sample_env list_writer easy_gpu list_queue 4 ?resp
      \<lparr>rm_flags = 1, rm_fence_id = 9, rm_ctx_id = 0, rm_ring_idx = 0\<rparr> (fresh_gpu, q, ([], 1000))
    = (Ok False, fresh_gpu\<lparr>gpu_fence_state := parked_state\<rparr>, q, w')"
    by (simp add: finish_chain_def VIRTIO_GPU_FLAG_FENCE_def ring_of_def VIRTIO_GPU_FLAG_INFO_RING_IDX_def)
      (simp add: rutabaga_gpu_def)
  with e f show ?thesis by (simp add: process_queue_chain_def) (simp add: list_writer_def)
qed

lemma fenced_chain_event:
  "\<exists>out. handle_queue_event sample_env list_reader list_writer easy_gpu list_queue quiet (Ok True) True
      (fresh_gpu, ([fenced_chain], []), []) = Some (Ok (), fresh_gpu\<lparr>gpu_fence_state := parked_state\<rparr>, ([], []), out)"
proof -
  obtain w' where "process_queue_chain sample_env list_reader list_writer easy_gpu list_queue 4
      (put virtio_gpu_ctrl_hdr_layout fenced_hdr) (fresh_gpu, ([], []), ([], 1000))
    = (Ok False, fresh_gpu\<lparr>gpu_fence_state := parked_state\<rparr>, ([], []), w')" using fenced_chain_parks by blast
  then show ?thesis
    by (simp add: handle_queue_event_def process_queue_def)
      (subst process_queue_loop.simps, simp add: fenced_chain_def, subst process_queue_loop.simps, simp add: list_queue_def)
qed

abbreviation parked_service :: "(unit, gpu_update list, (u8 list, u8 list \<times> nat) desc_chain list \<times> (u16 \<times> u32) list) service" where
  "parked_service \<equiv> \<lparr>sv_gpu = fresh_gpu\<lparr>gpu_fence_state := parked_state\<rparr>, sv_control = ([], []), sv_cursor = ([], []),
     sv_offered_control = [4], sv_offered_cursor = []\<rparr>"

lemma parked_service_reachable:
  "service_reachable sample_env list_reader list_writer True easy_renderer easy_backend list_queue quiet fst snd parked_service"
proof -
  let ?R = "service_reachable sample_env list_reader list_writer True easy_renderer easy_backend list_queue quiet fst snd"
  let ?s = "\<lambda>g q os. \<lparr>sv_gpu = g, sv_control = q, sv_cursor = ([], []), sv_offered_control = os, sv_offered_cursor = []\<rparr>"
  have "?R (?s fresh_gpu ([], []) [])" by (rule service_reachable.start) simp_all
  from offer_control [OF this, of "([fenced_chain], [])" fenced_chain]
  have o: "?R (?s fresh_gpu ([fenced_chain], []) [4])" by (simp add: fenced_chain_def)
  obtain out where "handle_queue_event sample_env list_reader list_writer easy_gpu list_queue quiet (Ok True) True
      (fresh_gpu, ([fenced_chain], []), []) = Some (Ok (), fresh_gpu\<lparr>gpu_fence_state := parked_state\<rparr>, ([], []), out)"
    using fenced_chain_event by blast
  with control_event [OF o, of "Ok True" True] show ?thesis by simp
qed

section \<open>Properties\<close>





text \<open>A chain with a fence on the cursor queue is lost to its own queue: the handler knows the control queue only, so when
  the fence completes the head goes into the used ring of the control queue.\<close>

lemma fenced_cursor_misreturned:
  assumes "served_queue qo sig pending used"
    and "process_queue_chain env rd wo (rutabaga_gpu dbg ro bo) qo head reader (g, cursor, w) = (Ok False, g', cursor', w')"
    and "fence_handler (fence_queue qo sig) f (gpu_fence_state g', control) = (Ok (), s', control')"
    and "descs s' = []"
  shows "used cursor' = used cursor" "head \<in> set (map fst (used control'))"
proof -
  show "used cursor' = used cursor"
    using process_queue_chain_pending [OF served_queueD(1) [OF assms(1)] assms(2)] by simp
  have "mset (map fst (used control')) = mset (map fst (used control)) + mset (parked g')"
    using fence_handler_chains [OF assms(1,3)] assms(4) by (auto simp: chains_of_def parked_def)
  then have "head \<in># mset (map fst (used control'))" using process_queue_chain_parked [OF assms(2)] by simp
  then show "head \<in> set (map fst (used control'))" by simp
qed

end
