(* ===== verification/Console_Data.thy ===== *)
theory Console_Data
  imports Console_Io
begin

text \<open>
  The bytes that the threads of a console port move. \<open>Console_Io\<close> counts them; here guest memory is a function from
  addresses to bytes, the input has the bytes that \<^verbatim>\<open>read(2)\<close> can give at the moment, and the output the bytes it was
  given, so that the order and the place of every byte can be stated. The parameters \<^verbatim>\<open>try_access\<close>, \<^verbatim>\<open>read(2)\<close> and
  \<^verbatim>\<open>write(2)\<close> come with contracts that say where in memory a piece lies and which bytes are transferred.
\<close>

section \<open>Guest memory\<close>

type_synonym memory = "u64 \<Rightarrow> u8"

text \<open>The addresses of a piece of memory, and of the descriptors of a chain in their order.\<close>

definition span :: "u64 \<Rightarrow> nat \<Rightarrow> u64 list" where
  "span a n = map (\<lambda>k. a + of_nat k) [0..<n]"

definition buffer :: "descriptor list \<Rightarrow> u64 list" where
  "buffer ds = concat (map (\<lambda>d. span (de_addr d) (unat (de_len d))) ds)"

definition writable_buffer :: "io_chain \<Rightarrow> u64 list" where
  "writable_buffer c = buffer (filter de_write_only (ioc_descriptors c))"

definition readable_buffer :: "io_chain \<Rightarrow> u64 list" where
  "readable_buffer c = buffer (filter (Not \<circ> de_write_only) (ioc_descriptors c))"

text \<open>Writing bytes at addresses, one after the other, as far as both reach.\<close>

fun write_at :: "memory \<Rightarrow> u64 list \<Rightarrow> u8 list \<Rightarrow> memory" where
  "write_at m (a # as) (b # bs) = write_at (m(a := b)) as bs"
| "write_at m _ _ = m"

lemma length_span [simp]: "length (span a n) = n"
  by (simp add: span_def)

lemma take_span: "k \<le> n \<Longrightarrow> take k (span a n) = span a k"
  by (simp add: span_def take_map)

lemma span_Suc: "span a (Suc n) = span a n @ [a + of_nat n]"
  by (simp add: span_def)

lemma span_append: "span a (k + n) = span a k @ span (a + of_nat k) n"
proof (induction n)
  case 0
  then show ?case by (simp add: span_def)
next
  case (Suc n)
  then show ?case by (simp add: span_Suc add.assoc)
qed

lemma nth_span: "k < n \<Longrightarrow> span a n ! k = a + of_nat k"
  by (simp add: span_def)

lemma buffer_simps [simp]:
  "buffer [] = []" "buffer (d # ds) = span (de_addr d) (unat (de_len d)) @ buffer ds"
  by (simp_all add: buffer_def)

lemma length_buffer: "length (buffer ds) = chain_room ds"
  by (induction ds) (simp_all add: chain_room_def)

lemma write_at_Nil [simp]: "write_at m as [] = m"
  by (cases as) simp_all

lemma write_at_append: "write_at m (as @ bs) xs = write_at (write_at m as xs) bs (drop (length as) xs)"
  by (induction m as xs rule: write_at.induct) (simp_all del: fun_upd_apply)

lemma write_at_other: "a \<notin> set as \<Longrightarrow> write_at m as bs a = m a"
  by (induction m as bs rule: write_at.induct) auto

lemma write_at_min:
  "write_at m as bs = write_at m (take (min (length as) (length bs)) as) (take (min (length as) (length bs)) bs)"
  by (induction m as bs rule: write_at.induct) (simp_all del: fun_upd_apply)

lemma map_write_at:
  "distinct as \<Longrightarrow> length bs \<le> length as \<Longrightarrow> map (write_at m as bs) (take (length bs) as) = bs"
  by (induction m as bs rule: write_at.induct) (auto simp: write_at_other simp del: fun_upd_apply, simp)

section \<open>Contracts\<close>

text \<open>\<^verbatim>\<open>try_access\<close> on \<open>n > 0\<close> mapped bytes works through them in order: every piece begins where the sum of what the
  earlier ones reported ends and lies in what is left; it stops at the end, or at a piece that reports nothing.\<close>

definition piece_steps :: "nat \<Rightarrow> u64 \<Rightarrow> 'st piece_access \<Rightarrow> (nat \<Rightarrow> 'st \<Rightarrow> bool) \<Rightarrow> bool" where
  "piece_steps n addr f I \<longleftrightarrow>
     (\<forall>t s m. t < n \<longrightarrow> I t s \<longrightarrow> 0 < m \<longrightarrow> m \<le> n - t \<longrightarrow> (\<exists>k s'. f (addr + of_nat t) m s = Some (Ok k, s') \<and> k \<le> m \<and> I (t + k) s'))"

definition stops_at :: "nat \<Rightarrow> u64 \<Rightarrow> 'st piece_access \<Rightarrow> (nat \<Rightarrow> 'st \<Rightarrow> bool) \<Rightarrow> nat \<Rightarrow> 'st \<Rightarrow> bool" where
  "stops_at n addr f I k s' \<longleftrightarrow>
     k = n \<or> (\<exists>m s0. 0 < m \<and> m \<le> n - k \<and> I k s0 \<and> f (addr + of_nat k) m s0 = Some (Ok 0, s'))"

definition located_access :: "u64 set \<Rightarrow> 'st try_access \<Rightarrow> bool" where
  "located_access mapped ta \<longleftrightarrow>
     (\<forall>n addr f s I. 0 < n \<longrightarrow> set (span addr n) \<subseteq> mapped \<longrightarrow> piece_steps n addr f I \<longrightarrow> I 0 s \<longrightarrow>
        (\<exists>k s'. ta n addr f s = Some (Ok k, s') \<and> k \<le> n \<and> I k s' \<and> stops_at n addr f I k s'))"

text \<open>\<^verbatim>\<open>read(2)\<close> on a non-blocking descriptor, while nothing new arrives: it gives some of the bytes it has, in order, and
  puts them at the piece; it would block or reports the end when it has none.\<close>

definition stream_read :: "'i port_read \<Rightarrow> ('i \<Rightarrow> u8 list) \<Rightarrow> ('i \<Rightarrow> memory) \<Rightarrow> bool" where
  "stream_read rdv source mem \<longleftrightarrow>
     (\<forall>a m i. 0 < m \<longrightarrow> (\<exists>r i'. rdv a m i = (r, i') \<and>
        ((\<exists>k. r = Ok k \<and> 0 < k \<and> k \<le> m \<and> k \<le> length (source i) \<and> source i' = drop k (source i) \<and>
              mem i' = write_at (mem i) (span a k) (source i)) \<or>
         ((r = Ok 0 \<or> r = Err WouldBlock) \<and> source i = [] \<and> source i' = [] \<and> mem i' = mem i))))"

text \<open>\<^verbatim>\<open>write(2)\<close>: it takes at least one byte, or would block and takes some after the output was waited for.\<close>

definition takes :: "memory \<Rightarrow> ('o \<Rightarrow> u8 list) \<Rightarrow> u64 \<Rightarrow> nat \<Rightarrow> 'o \<Rightarrow> nat \<Rightarrow> 'o \<Rightarrow> bool" where
  "takes mem sink a m x k x' \<longleftrightarrow> 0 < k \<and> k \<le> m \<and> sink x' = sink x @ map mem (span a k)"

definition stream_write :: "'o port_output \<Rightarrow> ('o \<Rightarrow> u8 list) \<Rightarrow> memory \<Rightarrow> bool" where
  "stream_write po sink mem \<longleftrightarrow>
     (\<forall>a m x. 0 < m \<longrightarrow> (\<exists>r x'. out_write po a m x = (r, x') \<and>
        ((\<exists>k. r = Ok k \<and> takes mem sink a m x k x') \<or>
         (r = Err WouldBlock \<and> (\<exists>k y. out_write po a m (out_wait po x') = (Ok k, y) \<and> takes mem sink a m x k y)))))"

lemma located_accessD:
  assumes "located_access mapped ta" "0 < n" "set (span addr n) \<subseteq> mapped" "piece_steps n addr f I" "I 0 s"
  obtains k s' where "ta n addr f s = Some (Ok k, s')" "k \<le> n" "I k s'" "stops_at n addr f I k s'"
  using assms unfolding located_access_def by blast

section \<open>Receiving\<close>

text \<open>A descriptor takes what there is, up to its length; afterwards it is full or the input is exhausted.\<close>

lemma read_piece_data:
  assumes "stream_read rdv source mem" "0 < m"
  obtains (some) k i' where "read_piece rdv a m (i, eof) = Some (Ok k, i', eof)" "0 < k" "k \<le> m" "k \<le> length (source i)"
      "source i' = drop k (source i)" "mem i' = write_at (mem i) (span a k) (source i)"
    | (none) i' eof' where "read_piece rdv a m (i, eof) = Some (Ok 0, i', eof')" "source i = []" "source i' = []" "mem i' = mem i"
proof -
  obtain r i' where "rdv a m i = (r, i')"
    "(\<exists>k. r = Ok k \<and> 0 < k \<and> k \<le> m \<and> k \<le> length (source i) \<and> source i' = drop k (source i) \<and>
        mem i' = write_at (mem i) (span a k) (source i)) \<or>
     ((r = Ok 0 \<or> r = Err WouldBlock) \<and> source i = [] \<and> source i' = [] \<and> mem i' = mem i)"
    using assms unfolding stream_read_def by metis
  then show ?thesis using some none by (auto simp: read_piece_def)
qed

lemma read_to_desc_data:
  fixes i :: 'i
  assumes "located_access mapped ta" "stream_read rdv source mem"
    and "de_len d \<noteq> 0" "set (span (de_addr d) (unat (de_len d))) \<subseteq> mapped"
  defines "k \<equiv> min (unat (de_len d)) (length (source i))"
  shows "\<exists>i' eof'. read_to_desc ta rdv d (i, eof) = Some (Ok k, i', eof') \<and> source i' = drop k (source i) \<and>
    mem i' = write_at (mem i) (span (de_addr d) (unat (de_len d))) (source i) \<and> (eof' \<longrightarrow> eof \<or> source i' = [])"
proof -
  let ?n = "unat (de_len d)" and ?a = "de_addr d"
  let ?I = "\<lambda>t (i', eof'). t \<le> length (source i) \<and> source i' = drop t (source i) \<and>
      mem i' = write_at (mem i) (span ?a t) (source i) \<and> (eof' \<longrightarrow> eof \<or> source i' = [])"
  have n: "0 < ?n" using assms(3) by (simp add: unat_gt_0)
  have steps: "piece_steps ?n ?a (read_piece rdv) ?I"
    unfolding piece_steps_def
  proof (intro allI impI)
    fix t m :: nat and st :: "'i \<times> bool"
    assume I: "?I t st" and m: "0 < m"
    obtain i1 e1 where st: "st = (i1, e1)" by fastforce
    show "\<exists>k s'. read_piece rdv (?a + of_nat t) m st = Some (Ok k, s') \<and> k \<le> m \<and> ?I (t + k) s'"
      using assms(2) m
    proof (cases rule: read_piece_data [where a = "?a + of_nat t" and i = i1 and eof = e1])
      case (some k i')
      then show ?thesis using I st by (auto simp: span_append write_at_append add.commute [of k t])
    next
      case (none i' eof')
      then show ?thesis using I st by auto
    qed
  qed
  have "?I 0 (i, eof)" by (simp add: span_def)
  from located_accessD [of mapped ta ?n ?a "read_piece rdv" ?I, OF assms(1) n assms(4) steps this] obtain j st' where
    r: "ta ?n ?a (read_piece rdv) (i, eof) = Some (Ok j, st')" "j \<le> ?n" "?I j st'" "stops_at ?n ?a (read_piece rdv) ?I j st'" .
  obtain i' eof' where st': "st' = (i', eof')" by fastforce
  have full: "j = ?n \<or> j = length (source i)"
    using r(4) unfolding stops_at_def
  proof (elim disjE exE conjE)
    fix m s0 assume m: "0 < m" and I0: "?I j s0" and f: "read_piece rdv (?a + of_nat j) m s0 = Some (Ok 0, st')"
    obtain i0 e0 where s0: "s0 = (i0, e0)" by fastforce
    have "source i0 = []"
      using assms(2) m by (cases rule: read_piece_data [where a = "?a + of_nat j" and i = i0 and eof = e0]) (use f s0 in auto)
    then show ?thesis using I0 s0 by simp
  qed simp
  have "j = k" using full r(2,3) st' unfolding k_def by auto
  moreover have "write_at (mem i) (span ?a k) (source i) = write_at (mem i) (span ?a ?n) (source i)"
  proof (cases "k = ?n")
    case False
    then have "k = length (source i)" "k \<le> ?n" unfolding k_def by auto
    then show ?thesis
      using write_at_append [of "mem i" "span ?a k" "span (?a + of_nat k) (?n - k)" "source i"]
      by (simp add: span_append [symmetric])
  qed simp
  ultimately show ?thesis using r(1,3) st' unfolding read_to_desc_def by auto
qed

text \<open>A chain takes what there is, up to the size of its writable descriptors.\<close>

definition usable :: "u64 set \<Rightarrow> descriptor list \<Rightarrow> bool" where
  "usable mapped ds \<longleftrightarrow> list_all (\<lambda>d. de_len d \<noteq> 0) ds \<and> set (buffer ds) \<subseteq> mapped"

lemma usable_Cons [simp]:
  "usable mapped (d # ds) \<longleftrightarrow> de_len d \<noteq> 0 \<and> set (span (de_addr d) (unat (de_len d))) \<subseteq> mapped \<and> usable mapped ds"
  by (auto simp: usable_def)

lemma min_split_add: "min n l + min b (l - n) = min (n + b) (l :: nat)"
  by arith

lemma rx_descs_data:
  assumes "located_access mapped ta" "stream_read rdv source mem"
  shows "usable mapped ds \<Longrightarrow>
    \<exists>sg' i' eof'. rx_descs ta rdv ds b sg (i, eof) = Some (Ok (b + min (length (buffer ds)) (length (source i)), sg'), i', eof') \<and>
      source i' = drop (length (buffer ds)) (source i) \<and> mem i' = write_at (mem i) (buffer ds) (source i) \<and>
      (eof' \<longrightarrow> eof \<or> source i' = [])"
proof (induction ds arbitrary: b sg i eof)
  case Nil
  then show ?case by simp
next
  case (Cons d ds)
  let ?n = "unat (de_len d)"
  have d: "de_len d \<noteq> 0" "set (span (de_addr d) ?n) \<subseteq> mapped" "usable mapped ds" using Cons.prems by simp_all
  obtain i1 eof1 where r: "read_to_desc ta rdv d (i, eof) = Some (Ok (min ?n (length (source i))), i1, eof1)"
    "source i1 = drop (min ?n (length (source i))) (source i)" "mem i1 = write_at (mem i) (span (de_addr d) ?n) (source i)"
    "eof1 \<longrightarrow> eof \<or> source i1 = []"
    using read_to_desc_data [OF assms d(1,2)] by blast
  have n: "0 < ?n" using d(1) by (simp add: unat_gt_0)
  have s1: "source i1 = drop ?n (source i)" using r(2) by (simp add: min_def)
  show ?case
  proof (cases "source i = []")
    case True
    with r show ?thesis by (auto simp: min_def)
  next
    case False
    define k where "k = min ?n (length (source i))"
    have k: "k \<noteq> 0" unfolding k_def using n False by (simp add: min_def)
    obtain sg' i' eof' where i': "rx_descs ta rdv ds (b + k) True (i1, eof1)
        = Some (Ok (b + k + min (length (buffer ds)) (length (source i1)), sg'), i', eof')"
      "source i' = drop (length (buffer ds)) (source i1)" "mem i' = write_at (mem i1) (buffer ds) (source i1)"
      "eof' \<longrightarrow> eof1 \<or> source i' = []"
      using Cons.IH [OF d(3), of "b + k" True i1 eof1] by blast
    have sum: "b + k + min (length (buffer ds)) (length (source i1)) = b + min (length (buffer (d # ds))) (length (source i))"
      unfolding s1 k_def by (simp only: length_drop min_split_add add.assoc buffer_simps length_append length_span)
    have "rx_descs ta rdv (d # ds) b sg (i, eof)
        = Some (Ok (b + min (length (buffer (d # ds))) (length (source i)), sg'), i', eof')"
      unfolding sum [symmetric] using r(1) [folded k_def] k i'(1) by simp
    moreover have "source i' = drop (length (buffer (d # ds))) (source i)"
      using i'(2) s1 by (simp add: add.commute)
    moreover have "mem i' = write_at (mem i) (buffer (d # ds)) (source i)"
      using i'(3) r(3) s1 by (simp add: write_at_append)
    moreover have "eof' \<longrightarrow> eof \<or> source i' = []" using i'(2,4) r(4) by auto
    ultimately show ?thesis by blast
  qed
qed

text \<open>The reference: the writable descriptors of all waiting chains are one long buffer, which is filled with the bytes
  of the input; a chain is returned when it got at least one byte, with the number it got.\<close>

fun filled :: "nat \<Rightarrow> io_chain list \<Rightarrow> (u16 \<times> u32) list" where
  "filled n [] = []"
| "filled n (c # cs) =
     (if n = 0 then []
      else (ioc_head_index c, of_nat (min (length (writable_buffer c)) n)) # filled (n - length (writable_buffer c)) cs)"

definition ring_buffer :: "io_chain list \<Rightarrow> u64 list" where
  "ring_buffer cs = concat (map writable_buffer cs)"

definition receivable :: "u64 set \<Rightarrow> io_chain \<Rightarrow> bool" where
  "receivable mapped c \<longleftrightarrow> writable_buffer c \<noteq> [] \<and> usable mapped (filter de_write_only (ioc_descriptors c))"

lemma filled_0 [simp]: "filled 0 cs = []"
  by (cases cs) simp_all

lemma ring_buffer_simps [simp]:
  "ring_buffer [] = []" "ring_buffer (c # cs) = writable_buffer c @ ring_buffer cs"
  by (simp_all add: ring_buffer_def)

definition received ::
  "('q \<Rightarrow> io_chain list) \<Rightarrow> ('q \<Rightarrow> (u16 \<times> u32) list) \<Rightarrow> ('i \<Rightarrow> u8 list) \<Rightarrow> ('i \<Rightarrow> memory)
    \<Rightarrow> ('i, 'q) rx_state \<Rightarrow> ('i, 'q) rx_state \<Rightarrow> bool" where
  "received pending used source mem s s' \<longleftrightarrow>
     used (rx_queue s') = used (rx_queue s) @ filled (length (source (rx_input s))) (pending (rx_queue s)) \<and>
     source (rx_input s') = drop (length (ring_buffer (pending (rx_queue s)))) (source (rx_input s)) \<and>
     mem (rx_input s') = write_at (mem (rx_input s)) (ring_buffer (pending (rx_queue s))) (source (rx_input s))"

lemma rx_chains_data:
  assumes "io_queue_contract qo pending used" "located_access mapped ta" "stream_read rdv source mem"
  shows "list_all (receivable mapped) (pending (rx_queue s)) \<Longrightarrow> \<not> rx_eof s \<Longrightarrow>
    \<exists>ex s'. rx_chains ta rdv qo port_id s = Some (Ok ex, s') \<and> received pending used source mem s s'"
proof (induction "pending (rx_queue s)" arbitrary: s)
  case Nil
  then obtain q' where "ioq_pop qo (rx_queue s) = (None, q')" "used q' = used (rx_queue s)"
    using io_popD(1) [OF assms(1)] by metis
  then show ?case by (subst rx_chains.simps) (simp add: received_def Nil.hyps [symmetric])
next
  case (Cons c cs)
  let ?q = "rx_queue s" and ?src = "source (rx_input s)" and ?buf = "writable_buffer c"
  let ?ds = "filter de_write_only (ioc_descriptors c)"
  obtain q1 where q1: "ioq_pop qo ?q = (Some c, q1)" "pending q1 = cs" "used q1 = used ?q"
    "used (ioq_go_to_previous qo q1) = used ?q"
    using io_popD(2) [OF assms(1)] Cons.hyps(2) by metis
  have c: "receivable mapped c" "list_all (receivable mapped) cs" using Cons.prems(1) Cons.hyps(2) [symmetric] by simp_all
  then have "usable mapped ?ds" by (simp add: receivable_def)
  from rx_descs_data [OF assms(2,3) this, of 0 "rx_signal s" "rx_input s" "rx_eof s"] obtain sg i eof where
    d: "rx_descs ta rdv ?ds 0 (rx_signal s) (rx_input s, rx_eof s) = Some (Ok (min (length ?buf) (length ?src), sg), i, eof)"
      "source i = drop (length ?buf) ?src" "mem i = write_at (mem (rx_input s)) ?buf ?src" "eof \<longrightarrow> source i = []"
    using Cons.prems(2) by (auto simp: writable_buffer_def)
  have pend: "pending ?q = c # cs" using Cons.hyps(2) ..
  show ?case
  proof (cases "?src = []")
    case True
    then show ?thesis using d q1 by (subst rx_chains.simps) (simp add: received_def pend)
  next
    case False
    define n where "n = min (length ?buf) (length ?src)"
    have n: "n \<noteq> 0" unfolding n_def using False c(1) by (simp add: receivable_def min_def)
    note d1 = d(1) [folded n_def]
    let ?q2 = "snd (ioq_add_used qo (ioc_head_index c) (of_nat n) q1)"
    let ?s2 = "s\<lparr>rx_signal := sg, rx_eof := eof, rx_input := i, rx_queue := ?q2\<rparr>"
    have q2: "used ?q2 = used ?q @ [(ioc_head_index c, of_nat n)]" "pending ?q2 = cs"
      using io_add_usedD [OF assms(1)] q1 by simp_all
    have fill: "filled (length ?src) (c # cs) = (ioc_head_index c, of_nat n) # filled (length (source i)) cs"
      using False d(2) by (simp add: n_def)
    have mem: "write_at (mem i) (ring_buffer cs) (source i) = write_at (mem (rx_input s)) (ring_buffer (c # cs)) ?src"
      using d(2,3) by (simp add: write_at_append)
    have src: "drop (length (ring_buffer cs)) (source i) = drop (length (ring_buffer (c # cs))) ?src"
      using d(2) by (simp add: add.commute)
    show ?thesis
    proof (cases eof)
      case True
      then have "source i = []" using d(4) by simp
      moreover have "rx_chains ta rdv qo port_id s = Some (Ok BreakEvents, ?s2\<lparr>rx_control := port_open port_id False (rx_control s)\<rparr>)"
        using q1(1) d1 n True by (subst rx_chains.simps) simp
      ultimately show ?thesis
        using q2 fill mem src by (simp add: received_def pend del: filled.simps ring_buffer_simps)
    next
      case nofin: False
      have "rx_chains ta rdv qo port_id s = rx_chains ta rdv qo port_id ?s2"
        using q1(1) d1 n nofin by (subst rx_chains.simps) simp
      moreover obtain ex s' where "rx_chains ta rdv qo port_id ?s2 = Some (Ok ex, s')" "received pending used source mem ?s2 s'"
        using Cons.hyps(1) [of ?s2] q2 c(2) nofin by auto
      ultimately show ?thesis
        using q2 fill mem src by (simp add: received_def pend del: filled.simps ring_buffer_simps)
    qed
  qed
qed

section \<open>Transmitting\<close>

lemma write_piece_data:
  assumes "stream_write po sink mem" "0 < m"
  obtains k x' where "write_piece po a m x = Some (Ok k, x')" "takes mem sink a m x k x'"
proof -
  obtain r x1 where w: "out_write po a m x = (r, x1)"
    "(\<exists>k. r = Ok k \<and> takes mem sink a m x k x1) \<or>
     (r = Err WouldBlock \<and> (\<exists>k y. out_write po a m (out_wait po x1) = (Ok k, y) \<and> takes mem sink a m x k y))"
    using assms unfolding stream_write_def by metis
  from w(2) show ?thesis
  proof (elim disjE exE conjE)
    fix k assume "r = Ok k" "takes mem sink a m x k x1"
    with w(1) that show ?thesis by (simp add: write_piece.simps)
  next
    fix k y assume "r = Err WouldBlock" "out_write po a m (out_wait po x1) = (Ok k, y)" "takes mem sink a m x k y"
    with w(1) that show ?thesis by (simp add: write_piece.simps)
  qed
qed

lemma write_desc_data:
  assumes "located_access mapped ta" "stream_write po sink mem"
    and "de_len d \<noteq> 0" "set (span (de_addr d) (unat (de_len d))) \<subseteq> mapped"
  shows "\<exists>x'. write_desc_to_output ta po d x = Some (Ok (unat (de_len d)), x') \<and>
    sink x' = sink x @ map mem (span (de_addr d) (unat (de_len d)))"
proof -
  let ?n = "unat (de_len d)" and ?a = "de_addr d"
  let ?I = "\<lambda>t x'. t \<le> ?n \<and> sink x' = sink x @ map mem (span ?a t)"
  have n: "0 < ?n" using assms(3) by (simp add: unat_gt_0)
  have steps: "piece_steps ?n ?a (write_piece po) ?I"
    unfolding piece_steps_def
  proof (intro allI impI)
    fix t m :: nat and y
    assume I: "?I t y" and m: "0 < m" "m \<le> ?n - t" and t: "t < ?n"
    obtain k y' where w: "write_piece po (?a + of_nat t) m y = Some (Ok k, y')" "takes mem sink (?a + of_nat t) m y k y'"
      using write_piece_data [OF assms(2) m(1)] by metis
    then have "k \<le> m" "?I (t + k) y'" using I m t by (auto simp: takes_def span_append)
    with w(1) show "\<exists>k s'. write_piece po (?a + of_nat t) m y = Some (Ok k, s') \<and> k \<le> m \<and> ?I (t + k) s'" by blast
  qed
  have "?I 0 x" by (simp add: span_def)
  from located_accessD [of mapped ta ?n ?a "write_piece po" ?I, OF assms(1) n assms(4) steps this] obtain k x' where
    r: "ta ?n ?a (write_piece po) x = Some (Ok k, x')" "k \<le> ?n" "?I k x'" "stops_at ?n ?a (write_piece po) ?I k x'" .
  have "k = ?n"
    using r(4) unfolding stops_at_def
  proof (elim disjE exE conjE)
    fix m x0 assume m: "0 < m" and f: "write_piece po (?a + of_nat k) m x0 = Some (Ok 0, x')"
    obtain j y' where "write_piece po (?a + of_nat k) m x0 = Some (Ok j, y')" "takes mem sink (?a + of_nat k) m x0 j y'"
      using write_piece_data [OF assms(2) m] by metis
    with f show ?thesis by (simp add: takes_def)
  qed
  with r show ?thesis unfolding write_desc_to_output_def by auto
qed

lemma tx_descs_data:
  assumes "located_access mapped ta" "stream_write po sink mem"
  shows "usable mapped ds \<Longrightarrow>
    \<exists>x'. tx_descs ta po ds b sg x = Some (Ok (b + length (buffer ds), sg \<or> ds \<noteq> []), x') \<and>
      sink x' = sink x @ map mem (buffer ds)"
proof (induction ds arbitrary: b sg x)
  case Nil
  then show ?case by simp
next
  case (Cons d ds)
  have d: "de_len d \<noteq> 0" "set (span (de_addr d) (unat (de_len d))) \<subseteq> mapped" "usable mapped ds" using Cons.prems by simp_all
  obtain x1 where x1: "write_desc_to_output ta po d x = Some (Ok (unat (de_len d)), x1)"
    "sink x1 = sink x @ map mem (span (de_addr d) (unat (de_len d)))"
    using write_desc_data [OF assms d(1,2)] by blast
  obtain x' where x': "tx_descs ta po ds (b + unat (de_len d)) True x1 = Some (Ok (b + unat (de_len d) + length (buffer ds), True \<or> ds \<noteq> []), x')"
    "sink x' = sink x1 @ map mem (buffer ds)"
    using Cons.IH [OF d(3), of "b + unat (de_len d)" True x1] by blast
  have "unat (de_len d) \<noteq> 0" using d(1) by (simp add: unat_eq_zero)
  with x1 x' show ?case by (simp add: add.assoc)
qed

definition transmittable :: "u64 set \<Rightarrow> io_chain \<Rightarrow> bool" where
  "transmittable mapped c \<longleftrightarrow> readable_buffer c \<noteq> [] \<and> usable mapped (filter (Not \<circ> de_write_only) (ioc_descriptors c))"

lemma tx_chains_data:
  assumes "io_queue_contract qo pending used" "located_access mapped ta" "stream_write po sink mem"
  shows "list_all (transmittable mapped) (pending (tx_queue s)) \<Longrightarrow>
    \<exists>s'. tx_chains ta po qo s = Some (Ok (), s') \<and>
      used (tx_queue s') = used (tx_queue s) @ map (\<lambda>c. (ioc_head_index c, of_nat (length (readable_buffer c)))) (pending (tx_queue s)) \<and>
      sink (tx_output s') = sink (tx_output s) @ map mem (concat (map readable_buffer (pending (tx_queue s))))"
proof (induction "pending (tx_queue s)" arbitrary: s)
  case Nil
  then obtain q' where "ioq_pop qo (tx_queue s) = (None, q')" "used q' = used (tx_queue s)"
    using io_popD(1) [OF assms(1)] by metis
  then show ?case by (subst tx_chains.simps) (simp add: Nil.hyps [symmetric])
next
  case (Cons c cs)
  let ?q = "tx_queue s" and ?ds = "filter (Not \<circ> de_write_only) (ioc_descriptors c)"
  have pend: "pending ?q = c # cs" using Cons.hyps(2) ..
  obtain q1 where q1: "ioq_pop qo ?q = (Some c, q1)" "pending q1 = cs" "used q1 = used ?q"
    using io_popD(2) [OF assms(1) pend] by metis
  have c: "transmittable mapped c" "list_all (transmittable mapped) cs" using Cons.prems pend by simp_all
  define n where "n = length (readable_buffer c)"
  have n: "n \<noteq> 0" "?ds \<noteq> []" using c(1) by (auto simp: n_def transmittable_def readable_buffer_def)
  obtain x where d: "tx_descs ta po ?ds 0 (tx_signal s) (tx_output s) = Some (Ok (n, True), x)"
    "sink x = sink (tx_output s) @ map mem (readable_buffer c)"
    using tx_descs_data [OF assms(2,3), of ?ds 0 "tx_signal s" "tx_output s"] c(1) n(2)
    by (auto simp: transmittable_def readable_buffer_def n_def)
  let ?q2 = "snd (ioq_add_used qo (ioc_head_index c) (of_nat n) q1)"
  let ?s2 = "s\<lparr>tx_signal := True, tx_output := x, tx_queue := ?q2\<rparr>"
  have q2: "used ?q2 = used ?q @ [(ioc_head_index c, of_nat n)]" "pending ?q2 = cs"
    using io_add_usedD [OF assms(1)] q1 by simp_all
  have "tx_chains ta po qo s = tx_chains ta po qo ?s2"
    using q1(1) d(1) n by (subst tx_chains.simps) simp
  moreover obtain s' where "tx_chains ta po qo ?s2 = Some (Ok (), s')"
    "used (tx_queue s') = used ?q2 @ map (\<lambda>c. (ioc_head_index c, of_nat (length (readable_buffer c)))) cs"
    "sink (tx_output s') = sink x @ map mem (concat (map readable_buffer cs))"
    using Cons.hyps(1) [of ?s2] q2 c(2) by auto
  ultimately show ?case using q2(1) d(2) by (simp add: pend n_def)
qed

section \<open>A concrete memory, input and output\<close>

text \<open>All addresses are mapped in one region, so a piece is all that is left; a piece of length zero is tried once.\<close>

function walk_pieces :: "nat \<Rightarrow> u64 \<Rightarrow> 'st piece_access \<Rightarrow> nat \<Rightarrow> 'st \<Rightarrow> ((nat, guest_memory_error) rust \<times> 'st) option" where
  "walk_pieces left addr f acc s =
     (case f addr left s of
        None \<Rightarrow> None
      | Some (Err e, s') \<Rightarrow> Some (Err e, s')
      | Some (Panic, s') \<Rightarrow> Some (Panic, s')
      | Some (Ok k, s') \<Rightarrow>
          if k = 0 \<or> left \<le> k then Some (Ok (acc + k), s') else walk_pieces (left - k) (addr + of_nat k) f (acc + k) s')"
  by pat_completeness auto
termination
  by (relation "measure (\<lambda>(left, _). left)") auto

declare walk_pieces.simps [simp del]

definition flat_access :: "'st try_access" where
  "flat_access n addr f s = walk_pieces n addr f 0 s"

fun list_stream :: "(u8 list \<times> memory) port_read" where
  "list_stream a n (bs, m) =
     (if n = 0 then (Ok 0, bs, m) else if bs = [] then (Err WouldBlock, bs, m)
      else (Ok (min n (length bs)), drop (min n (length bs)) bs, write_at m (span a (min n (length bs))) bs))"

text \<open>The output blocks before every other write and takes at most two bytes at once.\<close>

definition slow_output :: "memory \<Rightarrow> (bool \<times> u8 list) port_output" where
  "slow_output m = \<lparr>out_write = (\<lambda>a n (free, out). if free then (Ok (min n 2), False, out @ map m (span a (min n 2)))
                                                    else (Err WouldBlock, False, out)),
     out_wait = (\<lambda>(free, out). (True, out))\<rparr>"

lemma walk_pieces_located:
  "piece_steps n addr f I \<Longrightarrow> t < n \<Longrightarrow> I t s \<Longrightarrow>
    \<exists>k s'. walk_pieces (n - t) (addr + of_nat t) f t s = Some (Ok k, s') \<and> k \<le> n \<and> I k s' \<and> stops_at n addr f I k s'"
proof (induction "n - t" arbitrary: t s rule: less_induct)
  case less
  obtain k s' where k: "f (addr + of_nat t) (n - t) s = Some (Ok k, s')" "k \<le> n - t" "I (t + k) s'"
    using less.prems unfolding piece_steps_def by (metis diff_is_0_eq le_refl not_gr_zero not_le)
  show ?case
  proof (cases "k = 0 \<or> n - t \<le> k")
    case True
    then have "walk_pieces (n - t) (addr + of_nat t) f t s = Some (Ok (t + k), s')"
      using k(1) by (subst walk_pieces.simps) simp
    moreover have "stops_at n addr f I (t + k) s'"
    proof (cases "n - t \<le> k")
      case False
      with True have "k = 0" by simp
      with k less.prems(2,3) show ?thesis
        unfolding stops_at_def by (intro disjI2 exI [of _ "n - t"] exI [of _ s]) simp
    qed (use k(2) less.prems(2) in \<open>simp add: stops_at_def\<close>)
    ultimately show ?thesis using k less.prems(2) by (intro exI [of _ "t + k"] exI [of _ s']) simp
  next
    case False
    then have "walk_pieces (n - t) (addr + of_nat t) f t s = walk_pieces (n - (t + k)) (addr + of_nat (t + k)) f (t + k) s'"
      using k(1) by (subst walk_pieces.simps) (simp add: add.assoc)
    moreover have "t + k < n" "n - (t + k) < n - t" using False k(2) less.prems(2) by linarith+
    ultimately show ?thesis using less.hyps [of "t + k" s'] k(3) less.prems(1) by simp
  qed
qed

lemma flat_access_located: "located_access UNIV flat_access"
  unfolding located_access_def flat_access_def
proof (intro allI impI)
  fix n addr s and f :: "'st piece_access" and I
  assume "0 < n" "piece_steps n addr f I" "I 0 s"
  with walk_pieces_located [of n addr f I 0 s]
  show "\<exists>k s'. walk_pieces n addr f 0 s = Some (Ok k, s') \<and> k \<le> n \<and> I k s' \<and> stops_at n addr f I k s'" by simp
qed

lemma list_stream_contract: "stream_read list_stream fst snd"
  unfolding stream_read_def
proof (intro allI impI)
  fix a and m :: nat and i :: "u8 list \<times> memory"
  assume "0 < m"
  moreover obtain bs mm where "i = (bs, mm)" by fastforce
  ultimately show "\<exists>r i'. list_stream a m i = (r, i') \<and>
        ((\<exists>k. r = Ok k \<and> 0 < k \<and> k \<le> m \<and> k \<le> length (fst i) \<and> fst i' = drop k (fst i) \<and>
              snd i' = write_at (snd i) (span a k) (fst i)) \<or>
         ((r = Ok 0 \<or> r = Err WouldBlock) \<and> fst i = [] \<and> fst i' = [] \<and> snd i' = snd i))"
    by (cases "bs = []") auto
qed

lemma slow_output_contract: "stream_write (slow_output m) snd m"
  by (auto simp: stream_write_def slow_output_def takes_def)

section \<open>Properties\<close>

text \<open>C12: what a guest receives. While nothing new arrives, serving the receive ring of a port is the same as treating the
  writable descriptors of all waiting chains as one long buffer: the bytes that the input has are taken from it in
  order and stand in that buffer from its beginning without a gap, as far as it reaches; the chains that got at least
  one byte are returned in order, each with the number of its bytes; and the thread does not panic.\<close>

theorem port_input_delivered:
  assumes "io_queue_contract qo pending used" "located_access mapped ta" "stream_read rdv source mem"
    and "list_all (receivable mapped) (pending (rx_queue s))" "distinct (ring_buffer (pending (rx_queue s)))" "\<not> rx_eof s"
  defines "n \<equiv> min (length (ring_buffer (pending (rx_queue s)))) (length (source (rx_input s)))"
  shows "\<exists>ex s'. rx_chains ta rdv qo port_id s = Some (Ok ex, s') \<and>
    used (rx_queue s') = used (rx_queue s) @ filled (length (source (rx_input s))) (pending (rx_queue s)) \<and>
    source (rx_input s) = map (mem (rx_input s')) (take n (ring_buffer (pending (rx_queue s)))) @ source (rx_input s') \<and>
    (\<forall>a. a \<notin> set (take n (ring_buffer (pending (rx_queue s)))) \<longrightarrow> mem (rx_input s') a = mem (rx_input s) a)"
proof -
  let ?buf = "ring_buffer (pending (rx_queue s))" and ?src = "source (rx_input s)"
  obtain ex s' where r: "rx_chains ta rdv qo port_id s = Some (Ok ex, s')" "received pending used source mem s s'"
    using rx_chains_data [OF assms(1-4,6), of port_id] by blast
  have w: "write_at (mem (rx_input s)) ?buf ?src = write_at (mem (rx_input s)) (take n ?buf) (take n ?src)"
    unfolding n_def by (rule write_at_min)
  have "map (write_at (mem (rx_input s)) (take n ?buf) (take n ?src)) (take n ?buf) = take n ?src"
    using map_write_at [of "take n ?buf" "take n ?src" "mem (rx_input s)"] assms(5) by (simp add: n_def)
  then have "?src = map (mem (rx_input s')) (take n ?buf) @ source (rx_input s')"
    using r(2) by (simp add: received_def w) (simp add: n_def min_def)
  moreover have "mem (rx_input s') a = mem (rx_input s) a" if "a \<notin> set (take n ?buf)" for a
    using r(2) that by (simp add: received_def w write_at_other)
  ultimately show ?thesis using r by (auto simp: received_def)
qed

definition sample_chains :: "io_chain list" where
  "sample_chains = [
     \<lparr>ioc_head_index = 3, ioc_descriptors = [\<lparr>de_addr = 0, de_len = 2, de_write_only = True\<rparr>, \<lparr>de_addr = 64, de_len = 2, de_write_only = True\<rparr>]\<rparr>,
     \<lparr>ioc_head_index = 5, ioc_descriptors = [\<lparr>de_addr = 16, de_len = 4, de_write_only = True\<rparr>]\<rparr>]"

definition reading_sample :: "u8 list \<Rightarrow> (u8 list \<times> memory, io_chain list \<times> io_chain list \<times> (u16 \<times> u32) list) rx_state" where
  "reading_sample bs = \<lparr>rx_signal = False, rx_eof = False, rx_input = (bs, (\<lambda>_. 0)), rx_queue = ([], sample_chains, []),
     rx_control = console_control_new, rx_notified = 0\<rparr>"

theorem port_input_delivered_witness:
  "\<exists>ex s'. rx_chains flat_access list_stream list_io_queue 1 (reading_sample [1, 2, 3, 4, 5]) = Some (Ok ex, s') \<and>
    snd (snd (rx_queue s')) = [(3, 4), (5, 1)] \<and> map (snd (rx_input s')) [0, 1, 64, 65, 16] = [1, 2, 3, 4, 5]"
proof -
  let ?s = "reading_sample [1, 2, 3, 4, 5]"
  have b: "ring_buffer sample_chains = [0, 1, 64, 65, 16, 17, 18, 19]"
    by (simp add: ring_buffer_def writable_buffer_def sample_chains_def span_def upt_rec)
  have w: "map writable_buffer sample_chains = [[0, 1, 64, 65], [16, 17, 18, 19]]"
    by (simp add: writable_buffer_def sample_chains_def span_def upt_rec)
  have q: "fst (snd (rx_queue ?s)) = sample_chains" "fst (rx_input ?s) = [1, 2, 3, 4, 5]" "\<not> rx_eof ?s" "snd (snd (rx_queue ?s)) = []"
    by (simp_all add: reading_sample_def)
  have "list_all (receivable UNIV) (fst (snd (rx_queue ?s)))"
    unfolding q by (simp add: receivable_def usable_def writable_buffer_def sample_chains_def span_def)
  moreover have "distinct (ring_buffer (fst (snd (rx_queue ?s))))" unfolding q b by simp
  ultimately obtain ex s' where r: "rx_chains flat_access list_stream list_io_queue 1 ?s = Some (Ok ex, s')"
    "snd (snd (rx_queue s')) = filled (Suc (Suc (Suc (Suc (Suc 0))))) sample_chains"
    "[1, 2, 3, 4, 5] = map (snd (rx_input s')) [0, 1, 64, 65, 16] @ fst (rx_input s')"
    using port_input_delivered [OF list_io_queue_contract flat_access_located list_stream_contract, of ?s 1] q b by auto
  have "filled (Suc (Suc (Suc (Suc (Suc 0))))) sample_chains = [(3, 4), (5, 1)]"
    using w by (simp add: sample_chains_def)
  with r show ?thesis by auto
qed

text \<open>C13: what a guest sends. If the output takes something whenever it was waited for, serving the transmit ring of a
  port ends without a panic, however often the output blocks or takes only a part: the readable descriptors of all
  waiting chains are given to the output in order and without a gap, and every chain is returned with its full length.\<close>

theorem port_output_delivered:
  assumes "io_queue_contract qo pending used" "located_access mapped ta" "stream_write po sink mem"
    and "list_all (transmittable mapped) (pending (tx_queue s))"
  shows "\<exists>s'. tx_chains ta po qo s = Some (Ok (), s') \<and>
    used (tx_queue s') = used (tx_queue s) @ map (\<lambda>c. (ioc_head_index c, of_nat (length (readable_buffer c)))) (pending (tx_queue s)) \<and>
    sink (tx_output s') = sink (tx_output s) @ map mem (concat (map readable_buffer (pending (tx_queue s))))"
  using assms by (rule tx_chains_data)

definition writing_sample :: "(bool \<times> u8 list, io_chain list \<times> io_chain list \<times> (u16 \<times> u32) list) tx_state" where
  "writing_sample = \<lparr>tx_signal = False, tx_output = (False, []),
     tx_queue = ([], [\<lparr>ioc_head_index = 3, ioc_descriptors = [\<lparr>de_addr = 0, de_len = 3, de_write_only = False\<rparr>,
       \<lparr>de_addr = 8, de_len = 1, de_write_only = False\<rparr>]\<rparr>], []), tx_notified = 0\<rparr>"

theorem port_output_delivered_witness:
  "\<exists>s'. tx_chains flat_access (slow_output (\<lambda>a. ucast a + 7)) list_io_queue writing_sample = Some (Ok (), s') \<and>
    snd (snd (tx_queue s')) = [(3, 4)] \<and> snd (tx_output s') = [7, 8, 9, 15]"
proof -
  have p: "fst (snd (tx_queue writing_sample)) = [\<lparr>ioc_head_index = 3, ioc_descriptors = [\<lparr>de_addr = 0, de_len = 3, de_write_only = False\<rparr>,
       \<lparr>de_addr = 8, de_len = 1, de_write_only = False\<rparr>]\<rparr>]"
    by (simp add: writing_sample_def)
  have "list_all (transmittable UNIV) (fst (snd (tx_queue writing_sample)))"
    unfolding p by (simp add: transmittable_def usable_def readable_buffer_def span_def)
  from port_output_delivered [OF list_io_queue_contract flat_access_located slow_output_contract this, of "\<lambda>a. ucast a + 7"]
  show ?thesis
    unfolding p by (auto simp: writing_sample_def readable_buffer_def span_def upt_rec)
qed

section \<open>Where the bytes do not arrive\<close>

text \<open>When something arrives while a chain is served, the next descriptor is tried although the last one is not full, and
  its bytes are counted as if they stood right after the others. The input below first has two bytes, then nothing,
  then one more: the guest is told of three bytes, the third of which it never gets, and finds it in the second descriptor.\<close>

fun scripted_stream :: "(u8 list list \<times> memory) port_read" where
  "scripted_stream a n ([], m) = (Err WouldBlock, [], m)"
| "scripted_stream a n (bs # script, m) =
     (if bs = [] then (Err WouldBlock, script, m) else (Ok (min n (length bs)), script, write_at m (span a n) bs))"

lemma late_bytes_misplaced:
  "\<exists>i. rx_descs flat_access scripted_stream
      [\<lparr>de_addr = 0, de_len = 4, de_write_only = True\<rparr>, \<lparr>de_addr = 64, de_len = 4, de_write_only = True\<rparr>] 0 False
      (([[1, 2], [], [3]], (\<lambda>_. 0)), False) = Some (Ok (3, True), i, False) \<and>
    snd i 0 = 1 \<and> snd i 1 = 2 \<and> snd i 2 = 0 \<and> snd i 64 = 3"
  by (simp add: read_to_desc_def flat_access_def walk_pieces.simps read_piece_def span_def upt_rec)

text \<open>A writable descriptor of length zero is read as the end of the input: reading nothing gives nothing.\<close>

lemma empty_descriptor_is_eof:
  "\<exists>i. rx_descs flat_access list_stream
      [\<lparr>de_addr = 0, de_len = 1, de_write_only = True\<rparr>, \<lparr>de_addr = 64, de_len = 0, de_write_only = True\<rparr>] 0 False
      (([1, 2, 3], (\<lambda>_. 0)), False) = Some (Ok (1, True), i, True) \<and> fst i = [2, 3]"
  by (simp add: read_to_desc_def flat_access_def walk_pieces.simps read_piece_def span_def upt_rec)

end
