(* ===== verification/Bitmap_Tests.thy ===== *)
theory Bitmap_Tests
  imports Bitmap
begin

text \<open>
  The unit tests of the dirty-page log, \<^verbatim>\<open>mod tests\<close> of \<^verbatim>\<open>vhost-user/src/bitmap.rs\<close>, over the model: a test is a
  Boolean definition that runs the same calls with the same arguments, and a lemma that it holds. The temporary file of
  zeroes is what the system call \<^verbatim>\<open>mmap\<close> maps; a guest region is its start and length; every bitmap has a cell of its own and
  the logs of a test are one mapping, number 0.
\<close>

section \<open>Helpers of the tests\<close>

definition range_is_clean :: "bitmap_region \<Rightarrow> nat \<Rightarrow> nat \<Rightarrow> log_store \<Rightarrow> bool" where
  "range_is_clean b start len s \<longleftrightarrow> (\<forall>offset\<in>{start..<start + len}. region_dirty_at b offset s = Ok False)"

definition range_is_dirty :: "bitmap_region \<Rightarrow> nat \<Rightarrow> nat \<Rightarrow> log_store \<Rightarrow> bool" where
  "range_is_dirty b start len s \<longleftrightarrow> (\<forall>offset\<in>{start..<start + len}. region_dirty_at b offset s = Ok True)"

definition tmp_file :: "nat \<Rightarrow> nat \<Rightarrow> (u8 list, io_error) rust" where
  "tmp_file len offset = Ok (replicate len 0)"

definition test_all :: "bitmap_region \<Rightarrow> nat \<Rightarrow> log_store \<Rightarrow> bool" where
  "test_all b len s \<longleftrightarrow>
     range_is_clean b 0 len s \<and> range_is_dirty b 0 len (snd (region_mark_dirty b 0 len s))"

text \<open>The common beginning of the tests: map the log, make a bitmap for a region of \<open>pages\<close> pages at page \<open>first\<close>, and
  put it into the default bitmap of cell \<open>cell\<close>.\<close>

definition mapped_log :: "nat \<Rightarrow> log_store" where
  "mapped_log len = \<lparr>logs = (\<lambda>_. case mmap_log_from_file tmp_file 0 (of_nat len) of Ok log \<Rightarrow> log | _ \<Rightarrow> []), inners = (\<lambda>_. None)\<rparr>"

definition with_bitmap :: "nat \<Rightarrow> nat \<Rightarrow> nat \<Rightarrow> log_store \<Rightarrow> (bitmap_region \<times> log_store, io_error) rust" where
  "with_bitmap cell first pages s =
     and_then (atomic_bitmap_new (of_nat (LOG_PAGE_SIZE * first)) (of_nat (LOG_PAGE_SIZE * pages)) 0 (length (logs s 0))) (\<lambda>log.
       let (bitmap, s') = with_len cell 0 s in Ok (bitmap, replace_bitmap bitmap log s'))"

section \<open>The tests\<close>

definition test_bitmap_region_bigger_than_log :: bool where
  "test_bitmap_region_bigger_than_log \<longleftrightarrow> \<not> is_ok (with_bitmap 0 0 16 (mapped_log 1))"

definition test_bitmap_log_and_region_same_size :: bool where
  "test_bitmap_log_and_region_same_size \<longleftrightarrow>
     (case with_bitmap 0 0 32 (mapped_log 4) of Ok (bitmap, s) \<Rightarrow> test_all bitmap (LOG_PAGE_SIZE * 32) s | _ \<Rightarrow> False)"

definition test_bitmap_region_smaller_than_log :: bool where
  "test_bitmap_region_smaller_than_log \<longleftrightarrow>
     (case with_bitmap 0 0 16 (mapped_log 4) of Ok (bitmap, s) \<Rightarrow> test_all bitmap (LOG_PAGE_SIZE * 16) s | _ \<Rightarrow> False)"

definition test_bitmap_region_smaller_than_one_word :: bool where
  "test_bitmap_region_smaller_than_one_word \<longleftrightarrow>
     (case with_bitmap 0 0 6 (mapped_log 4) of Ok (bitmap, s) \<Rightarrow> test_all bitmap (LOG_PAGE_SIZE * 6) s | _ \<Rightarrow> False)"

text \<open>Two regions whose pages 8 to 10 and 14 share a byte of the log.\<close>

definition two_regions :: "(bitmap_region \<times> bitmap_region \<times> log_store, io_error) rust" where
  "two_regions =
     and_then (with_bitmap 0 0 11 (mapped_log 4)) (\<lambda>(bitmap0, s).
     and_then (with_bitmap 1 14 1 s) (\<lambda>(bitmap1, s'). Ok (bitmap0, bitmap1, s')))"

definition test_bitmap_two_regions_overlapping_word_first_dirty :: bool where
  "test_bitmap_two_regions_overlapping_word_first_dirty \<longleftrightarrow>
     (case two_regions of
        Ok (bitmap0, bitmap1, s) \<Rightarrow>
          range_is_clean bitmap0 0 (LOG_PAGE_SIZE * 11) s \<and> range_is_clean bitmap1 0 LOG_PAGE_SIZE s \<and>
          (let s' = snd (region_mark_dirty bitmap0 0 (LOG_PAGE_SIZE * 11) s)
           in range_is_dirty bitmap0 0 (LOG_PAGE_SIZE * 11) s' \<and> range_is_clean bitmap1 0 LOG_PAGE_SIZE s')
      | _ \<Rightarrow> False)"

definition test_bitmap_two_regions_overlapping_word_second_dirty :: bool where
  "test_bitmap_two_regions_overlapping_word_second_dirty \<longleftrightarrow>
     (case two_regions of
        Ok (bitmap0, bitmap1, s) \<Rightarrow>
          range_is_clean bitmap0 0 (LOG_PAGE_SIZE * 11) s \<and> range_is_clean bitmap1 0 LOG_PAGE_SIZE s \<and>
          (let s' = snd (region_mark_dirty bitmap1 0 LOG_PAGE_SIZE s)
           in range_is_dirty bitmap1 0 LOG_PAGE_SIZE s' \<and> range_is_clean bitmap0 0 (LOG_PAGE_SIZE * 11) s')
      | _ \<Rightarrow> False)"

definition test_bitmap_region_slice :: bool where
  "test_bitmap_region_slice \<longleftrightarrow>
     (case with_bitmap 0 0 32 (mapped_log 4) of
        Ok (bitmap, s) \<Rightarrow>
          (let region_len = LOG_PAGE_SIZE * 32;
               slice_len = region_len div 2;
               slice = slice_at bitmap slice_len;
               s' = snd (region_mark_dirty slice 0 slice_len s)
           in range_is_clean bitmap 0 region_len s \<and> range_is_clean slice 0 slice_len s \<and>
              range_is_dirty slice 0 slice_len s' \<and> range_is_clean bitmap 0 slice_len s' \<and>
              range_is_dirty bitmap slice_len (region_len - slice_len) s')
      | _ \<Rightarrow> False)"

section \<open>The tests hold\<close>

lemma dirty_pages_zeroes [simp]: "dirty_pages (replicate n 0) = {}"
  by (simp add: dirty_pages_def)

lemma logs_mapped_log [simp]: "n < 2 ^ 62 \<Longrightarrow> logs (mapped_log n) l = replicate n 0"
  by (simp add: mapped_log_def mmap_log_from_file_def tmp_file_def unat_of_nat)

lemma inners_mapped_log [simp]: "inners (mapped_log n) c = None"
  by (simp add: mapped_log_def)

lemma store_ok_mapped_log [simp]: "store_ok (mapped_log n)"
  by (simp add: store_ok_def)

text \<open>The bitmap of a region that lies within the first \<open>2 ^ 20\<close> pages, when the log covers it.\<close>

definition window_of :: "nat \<Rightarrow> nat \<Rightarrow> atomic_bitmap" where
  "window_of first pages = \<lparr>logmem = 0, pages_before_region = first, number_of_pages = pages\<rparr>"

lemma window_of_simps [simp]:
  "logmem (window_of f n) = 0" "pages_before_region (window_of f n) = f" "number_of_pages (window_of f n) = n"
  by (simp_all add: window_of_def)

lemma atomic_bitmap_new_small:
  assumes "first < 2 ^ 20" "0 < pages" "pages < 2 ^ 20"
  shows "atomic_bitmap_new (of_nat (LOG_PAGE_SIZE * first)) (of_nat (LOG_PAGE_SIZE * pages)) 0 n =
    (if page_word (first + pages - 1) < n then Ok (window_of first pages) else Err InvalidData)"
proof -
  have u: "unat (of_nat (LOG_PAGE_SIZE * k) :: u64) = LOG_PAGE_SIZE * k" if "k < 2 ^ 20" for k
    using that by (simp add: unat_of_nat LOG_PAGE_SIZE_def del: of_nat_mult)
  have e: "page_number (LOG_PAGE_SIZE * first + (LOG_PAGE_SIZE * pages - 1)) = first + pages - 1"
    using assms(2) unfolding page_number_def LOG_PAGE_SIZE_def by linarith
  have c: "checked_add (LOG_PAGE_SIZE * first) (LOG_PAGE_SIZE * pages - 1)
      = Some (LOG_PAGE_SIZE * first + (LOG_PAGE_SIZE * pages - 1))"
    using assms by (simp add: checked_add_def usize_max_def LOG_PAGE_SIZE_def)
  have p: "page_number (LOG_PAGE_SIZE * k) = k" "0 < LOG_PAGE_SIZE" for k
    by (simp_all add: page_number_def LOG_PAGE_SIZE_def)
  show ?thesis
    unfolding atomic_bitmap_new_def u [OF assms(1)] u [OF assms(3)] Let_def c ok_or_simps and_then_simps e p(1)
    using assms(2) p(2) by (simp add: window_of_def)
qed

lemma with_bitmap_ok:
  assumes "first < 2 ^ 20" "0 < pages" "pages < 2 ^ 20" "page_word (first + pages - 1) < length (logs s 0)"
  shows "with_bitmap cell first pages s =
    Ok (\<lparr>inner = cell, base_address = 0\<rparr>, s\<lparr>inners := (inners s)(cell \<mapsto> window_of first pages)\<rparr>)"
  using assms by (simp add: with_bitmap_def atomic_bitmap_new_small with_len_def replace_bitmap_def del: of_nat_mult)

lemma store_ok_window:
  "store_ok s \<Longrightarrow> first + pages \<le> LOG_WORD_SIZE * length (logs s 0) \<Longrightarrow>
    store_ok (s\<lparr>inners := (inners s)(cell \<mapsto> window_of first pages)\<rparr>)"
  by (auto simp: store_ok_def fits_def)

text \<open>A bitmap whose pages are not in the log is clean; marking makes a range inside the window dirty.\<close>

lemma range_is_cleanI:
  assumes "store_ok s" "inners s (inner r) = Some b" "base_address r + start + len \<le> usize_max"
    "\<And>p. page_number (base_address r + start) \<le> p \<Longrightarrow> p < number_of_pages b \<Longrightarrow>
      p * LOG_PAGE_SIZE < base_address r + start + len \<Longrightarrow> pages_before_region b + p \<notin> dirty_pages (logs s (logmem b))"
  shows "range_is_clean r start len s"
  unfolding range_is_clean_def
proof
  fix x assume "x \<in> {start..<start + len}"
  then have x: "start \<le> x" "x < start + len" by auto
  have "page_number (base_address r + start) \<le> page_number (base_address r + x)"
    using x(1) by (intro page_number_mono) simp
  moreover have "page_number (base_address r + x) * LOG_PAGE_SIZE < base_address r + start + len"
    using x(2) div_times_less_eq_dividend [of "base_address r + x" LOG_PAGE_SIZE] unfolding page_number_def by linarith
  ultimately show "region_dirty_at r x s = Ok False"
    using assms x by (auto simp: region_dirty_at_iff saturating_add_def Let_def)
qed

lemma range_is_dirty_mark:
  assumes "store_ok s" "{start..<start + len} \<subseteq> region_tracked r s"
  shows "range_is_dirty r start len (snd (region_mark_dirty r start len s))"
  using assms region_mark_sets [of s start _ len r] by (auto simp: range_is_dirty_def)

text \<open>What a marking inside the window of \<open>r\<close> leaves for another bitmap of the same log.\<close>

lemma range_is_clean_mark:
  assumes "store_ok s" "inners s (inner r) = Some a" "base_address r + off + len \<le> usize_max" "0 < len"
    and c: "inners s (inner c) = Some b" "base_address c + start + n \<le> usize_max" "logmem b = logmem a"
    and clean: "dirty_pages (logs s (logmem a)) = {}"
    and apart: "\<And>p q. page_number (base_address c + start) \<le> p \<Longrightarrow> p < number_of_pages b \<Longrightarrow>
      p * LOG_PAGE_SIZE < base_address c + start + n \<Longrightarrow>
      page_number (base_address r + off) \<le> q \<Longrightarrow> q \<le> page_number (base_address r + off + (len - 1)) \<Longrightarrow>
      q < number_of_pages a \<Longrightarrow> pages_before_region b + p \<noteq> pages_before_region a + q"
  shows "range_is_clean c start n (snd (region_mark_dirty r off len s))"
proof (rule region_mark_dirty_cases [OF assms(1), of r off len])
  assume "inners s (inner r) = None \<or> base_address r + off > usize_max"
  then show ?thesis using assms(2,3) by auto
next
  fix a' log'
  assume m: "inners s (inner r) = Some a'" "region_mark_dirty r off len s = (Ok (), s\<lparr>logs := (logs s)(logmem a' := log')\<rparr>)"
    and d: "dirty_pages log' = dirty_pages (logs s (logmem a')) \<union>
        (if len = 0 then {}
         else window_pages a' (page_number (base_address r + off))
                (page_number (saturating_add (base_address r + off) (len - 1))))"
  have a: "a' = a" using m(1) assms(2) by simp
  have sat: "saturating_add (base_address r + off) (len - 1) = base_address r + off + (len - 1)"
    using assms(3) by (simp add: saturating_add_def)
  have "store_ok (s\<lparr>logs := (logs s)(logmem a := log')\<rparr>)"
    using store_ok_mark [OF assms(1), of r off len] m a by simp
  then show ?thesis
    unfolding m(2) snd_conv a
    using c d sat clean assms(4) apart
    by (intro range_is_cleanI [where b = b]) (auto simp: a window_pages_def)
qed

lemma window_tracked:
  "inners s (inner r) = Some (window_of f n) \<Longrightarrow> base_address r + start + len \<le> LOG_PAGE_SIZE * n \<Longrightarrow> n < 2 ^ 20 \<Longrightarrow>
    {start..<start + len} \<subseteq> region_tracked r s"
  by (auto simp: region_tracked_def usize_max_def page_number_def LOG_PAGE_SIZE_def)

lemma test_all_window:
  assumes "0 < n" "n \<le> 32"
  shows "case with_bitmap 0 0 n (mapped_log 4) of Ok (bitmap, s) \<Rightarrow> test_all bitmap (LOG_PAGE_SIZE * n) s | _ \<Rightarrow> False"
proof -
  let ?s = "(mapped_log 4)\<lparr>inners := (inners (mapped_log 4))(0 \<mapsto> window_of 0 n)\<rparr>"
  let ?r = "\<lparr>inner = 0, base_address = 0\<rparr>"
  have "page_word (n - 1) < 4" using assms by (intro page_word_lt) (simp add: LOG_WORD_SIZE_def)
  then have w: "with_bitmap 0 0 n (mapped_log 4) = Ok (?r, ?s)"
    using assms by (subst with_bitmap_ok) simp_all
  have ok: "store_ok ?s" using assms by (intro store_ok_window) (simp_all add: LOG_WORD_SIZE_def)
  have "range_is_clean ?r 0 (LOG_PAGE_SIZE * n) ?s"
    using ok assms by (intro range_is_cleanI [where b = "window_of 0 n"]) (simp_all add: usize_max_def LOG_PAGE_SIZE_def)
  moreover have "range_is_dirty ?r 0 (LOG_PAGE_SIZE * n) (snd (region_mark_dirty ?r 0 (LOG_PAGE_SIZE * n) ?s))"
    using ok assms by (intro range_is_dirty_mark window_tracked [where f = 0 and n = n]) simp_all
  ultimately show ?thesis by (simp add: w test_all_def)
qed

lemma bigger_than_log_holds: "test_bitmap_region_bigger_than_log"
  using atomic_bitmap_new_small [of 0 16 1]
  by (simp add: test_bitmap_region_bigger_than_log_def with_bitmap_def is_ok_def page_word_def LOG_WORD_SIZE_def del: of_nat_mult)

lemma log_and_region_same_size_holds: "test_bitmap_log_and_region_same_size"
  using test_all_window [of 32] by (simp add: test_bitmap_log_and_region_same_size_def)

lemma region_smaller_than_log_holds: "test_bitmap_region_smaller_than_log"
  using test_all_window [of 16] by (simp add: test_bitmap_region_smaller_than_log_def)

lemma region_smaller_than_one_word_holds: "test_bitmap_region_smaller_than_one_word"
  using test_all_window [of 6] by (simp add: test_bitmap_region_smaller_than_one_word_def)

text \<open>The store of the two tests with two regions.\<close>

definition two_store :: log_store where
  "two_store = (mapped_log 4)\<lparr>inners := (inners (mapped_log 4))(0 \<mapsto> window_of 0 11, 1 \<mapsto> window_of 14 1)\<rparr>"

lemma two_store_simps [simp]:
  "logs two_store l = replicate 4 0" "inners two_store 0 = Some (window_of 0 11)"
  "inners two_store (Suc 0) = Some (window_of 14 1)"
  by (simp_all add: two_store_def)

lemma two_regions_eq:
  "two_regions = Ok (\<lparr>inner = 0, base_address = 0\<rparr>, \<lparr>inner = 1, base_address = 0\<rparr>, two_store)"
  by (simp add: two_regions_def with_bitmap_ok page_word_def LOG_WORD_SIZE_def two_store_def)

lemma two_store_ok [simp]: "store_ok two_store"
  unfolding store_ok_def two_store_def by (auto simp: fits_def LOG_WORD_SIZE_def split: if_splits)

lemma two_store_clean:
  "range_is_clean \<lparr>inner = 0, base_address = 0\<rparr> 0 (LOG_PAGE_SIZE * 11) two_store"
  "range_is_clean \<lparr>inner = 1, base_address = 0\<rparr> 0 LOG_PAGE_SIZE two_store"
  by (rule range_is_cleanI [where b = "window_of 0 11"]; simp add: usize_max_def LOG_PAGE_SIZE_def)
     (rule range_is_cleanI [where b = "window_of 14 1"]; simp add: usize_max_def LOG_PAGE_SIZE_def)

lemma two_regions_first_dirty_holds: "test_bitmap_two_regions_overlapping_word_first_dirty"
proof -
  let ?a = "\<lparr>inner = 0, base_address = 0\<rparr>" and ?b = "\<lparr>inner = 1, base_address = 0\<rparr>"
  let ?s = "snd (region_mark_dirty ?a 0 (LOG_PAGE_SIZE * 11) two_store)"
  have "range_is_dirty ?a 0 (LOG_PAGE_SIZE * 11) ?s"
    by (intro range_is_dirty_mark window_tracked [where f = 0 and n = 11]) simp_all
  moreover have "range_is_clean ?b 0 LOG_PAGE_SIZE ?s"
    by (rule range_is_clean_mark [where a = "window_of 0 11" and b = "window_of 14 1"])
      (simp_all add: usize_max_def LOG_PAGE_SIZE_def)
  ultimately show ?thesis
    using two_store_clean
    by (simp add: test_bitmap_two_regions_overlapping_word_first_dirty_def two_regions_eq)
qed

lemma two_regions_second_dirty_holds: "test_bitmap_two_regions_overlapping_word_second_dirty"
proof -
  let ?a = "\<lparr>inner = 0, base_address = 0\<rparr>" and ?b = "\<lparr>inner = 1, base_address = 0\<rparr>"
  let ?s = "snd (region_mark_dirty ?b 0 LOG_PAGE_SIZE two_store)"
  have "range_is_dirty ?b 0 LOG_PAGE_SIZE ?s"
    by (intro range_is_dirty_mark window_tracked [where f = 14 and n = 1]) simp_all
  moreover have "range_is_clean ?a 0 (LOG_PAGE_SIZE * 11) ?s"
    by (rule range_is_clean_mark [where a = "window_of 14 1" and b = "window_of 0 11"])
      (simp_all add: usize_max_def LOG_PAGE_SIZE_def)
  ultimately show ?thesis
    using two_store_clean
    by (simp add: test_bitmap_two_regions_overlapping_word_second_dirty_def two_regions_eq)
qed

lemma region_slice_holds: "test_bitmap_region_slice"
proof -
  let ?s = "(mapped_log 4)\<lparr>inners := (inners (mapped_log 4))(0 \<mapsto> window_of 0 32)\<rparr>"
  let ?r = "\<lparr>inner = 0, base_address = 0\<rparr>" and ?h = "LOG_PAGE_SIZE * 16"
  let ?sl = "slice_at ?r ?h"
  let ?t = "snd (region_mark_dirty ?sl 0 ?h ?s)"
  have w: "with_bitmap 0 0 32 (mapped_log 4) = Ok (?r, ?s)"
    by (subst with_bitmap_ok) (simp_all add: page_word_def LOG_WORD_SIZE_def)
  have ok: "store_ok ?s" by (intro store_ok_window) (simp_all add: LOG_WORD_SIZE_def)
  have sl: "?sl = \<lparr>inner = 0, base_address = ?h\<rparr>"
    by (simp add: slice_at_def saturating_add_def usize_max_def LOG_PAGE_SIZE_def)
  have 1: "range_is_clean ?r 0 (LOG_PAGE_SIZE * 32) ?s"
    by (rule range_is_cleanI [OF ok, where b = "window_of 0 32"]) (simp_all add: usize_max_def LOG_PAGE_SIZE_def)
  have 2: "range_is_clean ?sl 0 ?h ?s"
    unfolding sl by (rule range_is_cleanI [OF ok, where b = "window_of 0 32"]) (simp_all add: usize_max_def LOG_PAGE_SIZE_def)
  have 3: "range_is_dirty ?sl 0 ?h ?t"
    unfolding sl by (intro range_is_dirty_mark [OF ok] window_tracked [where f = 0 and n = 32]) simp_all
  have 4: "range_is_clean ?r 0 ?h ?t"
    unfolding sl by (rule range_is_clean_mark [OF ok, where a = "window_of 0 32" and b = "window_of 0 32"])
      (simp_all add: usize_max_def LOG_PAGE_SIZE_def page_number_def)
  have 5: "range_is_dirty ?r ?h ?h ?t"
    unfolding range_is_dirty_def
  proof
    fix x assume x: "x \<in> {?h..<?h + ?h}"
    then have "region_dirty_at ?sl (x - ?h) ?t = Ok True"
      using 3 by (simp add: range_is_dirty_def) (simp add: less_diff_conv2)
    then show "region_dirty_at ?r x ?t = Ok True" using x by (simp add: slice_dirty_at)
  qed
  show ?thesis
    using 1 2 3 4 5 by (simp add: test_bitmap_region_slice_def w Let_def LOG_PAGE_SIZE_def)
qed

end
