(* ===== verification/Unit_Tests.thy ===== *)
theory Unit_Tests
  imports Gpu_Worker Gpu_Config Console_Ports Bitmap_Tests
begin

text \<open>
  The other unit tests of the repository over the model, each as a Boolean definition with the calls and the expected
  values of the source and a lemma that it holds: \<^verbatim>\<open>port_queue_mapping.rs\<close>, \<^verbatim>\<open>event_manager\<close>, \<^verbatim>\<open>virtio-gpu/src/lib.rs\<close>,
  \<^verbatim>\<open>vhost-gpu/src/main.rs\<close>, \<^verbatim>\<open>protocol.rs\<close>, \<^verbatim>\<open>virtio_gpu.rs\<close> and \<^verbatim>\<open>worker.rs\<close>. The tests that need the real renderer
  run on one that accepts everything, the closed frontend socket of \<^verbatim>\<open>dummy_gpu_backend\<close> fails every call. Left out are
  the tests of the libraries alone (texts of derived errors, parsing by clap, capability sets of virglrenderer) and those
  whose code is commented out or calls functions that no longer exist (\<^verbatim>\<open>virtio-gpu/src/device.rs\<close>,
  \<^verbatim>\<open>vhost-user/src/vring.rs\<close> and \<^verbatim>\<open>lib.rs\<close>).
\<close>

section \<open>Ports of the console\<close>

definition test_port_id_to_queue_idx :: bool where
  "test_port_id_to_queue_idx \<longleftrightarrow>
     port_id_to_queue_idx Rx 0 = 0 \<and> port_id_to_queue_idx Tx 0 = 1 \<and>
     port_id_to_queue_idx Rx 1 = 4 \<and> port_id_to_queue_idx Tx 1 = 5"

definition port_of :: "nat \<Rightarrow> (queue_direction \<times> nat, unit) rust" where
  "port_of = queue_idx_to_port_id"

definition test_queue_idx_to_port_id_ok :: bool where
  "test_queue_idx_to_port_id_ok \<longleftrightarrow>
     port_of 0 = Ok (Rx, 0) \<and> port_of 1 = Ok (Tx, 0) \<and> port_of 4 = Ok (Rx, 1) \<and> port_of 5 = Ok (Tx, 1) \<and>
     port_of 6 = Ok (Rx, 2) \<and> port_of 7 = Ok (Tx, 2)"

definition test_queue_idx_to_port_id_panic_rx_control :: bool where
  "test_queue_idx_to_port_id_panic_rx_control \<longleftrightarrow> port_of 2 = Panic"

definition test_queue_idx_to_port_id_panic_tx_control :: bool where
  "test_queue_idx_to_port_id_panic_tx_control \<longleftrightarrow> port_of 3 = Panic"

lemma port_tests_hold:
  "test_port_id_to_queue_idx" "test_queue_idx_to_port_id_ok"
  "test_queue_idx_to_port_id_panic_rx_control" "test_queue_idx_to_port_id_panic_tx_control"
  by (simp_all add: test_port_id_to_queue_idx_def test_queue_idx_to_port_id_ok_def port_of_def queue_idx_to_port_id_def
      test_queue_idx_to_port_id_panic_rx_control_def test_queue_idx_to_port_id_panic_tx_control_def)

section \<open>Event tokens\<close>

definition roundtrips :: "token_ty \<Rightarrow> token_val \<Rightarrow> bool" where
  "roundtrips ty t \<longleftrightarrow> from_raw_token ty (as_raw_token ty t) = Ok t"

definition test_token :: token_ty where
  "test_token = EnumTy [None, None, Some (IntTy 32), None]"

definition test_event_token_derive :: bool where
  "test_event_token_derive \<longleftrightarrow>
     roundtrips test_token (VariantV 0 None) \<and> roundtrips test_token (VariantV 1 None) \<and>
     roundtrips test_token (VariantV 2 (Some (IntV 55))) \<and> roundtrips test_token (VariantV 3 None)"

definition tok_l2 :: token_ty where
  "tok_l2 = EnumTy [Some (IntTy 32), Some (IntTy 32)]"

definition tok_l3 :: token_ty where
  "tok_l3 = EnumTy [Some tok_l2, Some tok_l2]"

definition tok_l1 :: token_ty where
  "tok_l1 = EnumTy [None, Some tok_l2, Some tok_l3]"

definition test_event_token_derive_nested :: bool where
  "test_event_token_derive_nested \<longleftrightarrow>
     roundtrips tok_l1 (VariantV 0 None) \<and> roundtrips tok_l2 (VariantV 0 (Some (IntV 0))) \<and>
     roundtrips tok_l2 (VariantV 1 (Some (IntV 21432))) \<and>
     roundtrips tok_l3 (VariantV 0 (Some (VariantV 0 (Some (IntV 0)))))"

definition test_event_token_derive_overflow :: bool where
  "test_event_token_derive_overflow \<longleftrightarrow> roundtrips tok_l2 (VariantV 0 (Some (IntV (mask 32))))"

definition test_one_level :: bool where
  "test_one_level \<longleftrightarrow>
     (let tok = EnumTy [Some (UIntTy 33), Some (UIntTy 63)]
      in as_raw_token tok (VariantV 0 (Some (IntV (mask 33)))) = (push_bit 33 1 OR push_bit 1 (mask 32)) \<and>
         as_raw_token tok (VariantV 1 (Some (IntV (mask 63)))) = mask 64)"

definition test_two_levels :: bool where
  "test_two_levels \<longleftrightarrow>
     (let l1 = EnumTy [Some (UIntTy 33), Some (UIntTy 62)]; l2 = EnumTy [Some l1, Some l1]
      in as_raw_token l2 (VariantV 0 (Some (VariantV 0 (Some (IntV 0))))) = 0 \<and>
         as_raw_token l2 (VariantV 1 (Some (VariantV 1 (Some (IntV (mask 62)))))) = mask 64)"

lemma roundtripsI: "ty_ok ty \<Longrightarrow> used_bits ty = Some n \<Longrightarrow> has_ty ty t \<Longrightarrow> roundtrips ty t"
  unfolding roundtrips_def using token_pack_unpack [of ty n t] by simp

lemma variant_bitsI: "n \<le> 2 ^ k \<Longrightarrow> (\<And>j. j < k \<Longrightarrow> 2 ^ j < n) \<Longrightarrow> variant_bits n = k"
  unfolding variant_bits_least by (rule Least_equality) (auto simp: not_less [symmetric])

lemma small_variant_bits [simp]:
  "variant_bits (Suc (Suc 0)) = 1" "variant_bits (Suc (Suc (Suc 0))) = 2" "variant_bits (Suc (Suc (Suc (Suc 0)))) = 2"
  by (rule variant_bitsI; force simp: less_Suc_eq numeral_2_eq_2)+

lemma test_types_used [simp]:
  "used_bits test_token = Some 34" "used_bits tok_l2 = Some 33" "used_bits tok_l3 = Some 34" "used_bits tok_l1 = Some 36"
  "ty_ok test_token" "ty_ok tok_l2" "ty_ok tok_l3" "ty_ok tok_l1"
  by (simp_all add: test_token_def tok_l1_def tok_l2_def tok_l3_def Let_def)

lemma token_tests_hold:
  "test_event_token_derive" "test_event_token_derive_nested" "test_event_token_derive_overflow"
  unfolding test_event_token_derive_def test_event_token_derive_nested_def test_event_token_derive_overflow_def
  by ((intro conjI)?; rule roundtripsI, simp, simp, simp add: test_token_def tok_l1_def tok_l2_def tok_l3_def mask_eq_exp_minus_1)+

lemma arbitrary_int_tests_hold: "test_one_level" "test_two_levels"
  by (simp_all add: test_one_level_def test_two_levels_def Let_def mask_eq_exp_minus_1 push_bit_eq_mult)

section \<open>Configuration of the gpu\<close>

abbreviation new_config :: "gpu_mode \<Rightarrow> gpu_capset option \<Rightarrow> gpu_flags \<Rightarrow> (gpu_config, gpu_config_error) rust" where
  "new_config \<equiv> gpu_config_new linux_capsets bit_flags"

definition test_gpu_config_create_default_virglrenderer :: bool where
  "test_gpu_config_create_default_virglrenderer \<longleftrightarrow>
     (case new_config VirglRenderer None gpu_flags_default of
        Ok config \<Rightarrow> cfg_gpu_mode config = VirglRenderer \<and> cfg_capset config = ALL_VIRGLRENDERER_CAPSETS linux_capsets
      | _ \<Rightarrow> False)"

definition test_gpu_config_create_default_gfxstream :: bool where
  "test_gpu_config_create_default_gfxstream \<longleftrightarrow>
     (case new_config Gfxstream None gpu_flags_default of
        Ok config \<Rightarrow> cfg_gpu_mode config = Gfxstream \<and> cfg_capset config = ALL_GFXSTREAM_CAPSETS linux_capsets
      | _ \<Rightarrow> False)"

definition assert_invalid_gpu_config :: "gpu_mode \<Rightarrow> gpu_capset \<Rightarrow> gpu_capset \<Rightarrow> bool" where
  "assert_invalid_gpu_config mode capset expected_capset \<longleftrightarrow>
     new_config mode (Some capset) gpu_flags_default = Err (CapsetUnsuportedByMode mode expected_capset)"

definition test_gpu_config_valid_combination :: bool where
  "test_gpu_config_valid_combination \<longleftrightarrow>
     (case new_config VirglRenderer (Some (VIRGL2 linux_capsets)) gpu_flags_default of
        Ok config \<Rightarrow> cfg_gpu_mode config = VirglRenderer | _ \<Rightarrow> False)"

definition test_gpu_config_invalid_combinations :: bool where
  "test_gpu_config_invalid_combinations \<longleftrightarrow>
     assert_invalid_gpu_config VirglRenderer (VIRGL2 linux_capsets OR GFXSTREAM_VULKAN linux_capsets) (GFXSTREAM_VULKAN linux_capsets) \<and>
     assert_invalid_gpu_config Gfxstream (VIRGL2 linux_capsets OR GFXSTREAM_VULKAN linux_capsets) (VIRGL2 linux_capsets)"

definition test_gles_required_by_gfxstream :: bool where
  "test_gles_required_by_gfxstream \<longleftrightarrow>
     new_config Gfxstream (Some (GFXSTREAM_VULKAN linux_capsets OR GFXSTREAM_GLES linux_capsets))
       (gpu_flags_default\<lparr>use_gles := False\<rparr>) = Err GlesRequiredByGfxstream"

definition test_default_num_capsets :: bool where
  "test_default_num_capsets \<longleftrightarrow>
     num_capsets (ALL_VIRGLRENDERER_CAPSETS linux_capsets) = 2 \<and> num_capsets (ALL_GFXSTREAM_CAPSETS linux_capsets) = 2"

definition test_capset_display_multiple :: bool where
  "test_capset_display_multiple \<longleftrightarrow>
     capset_display linux_capsets bit_flags (VIRGL linux_capsets OR VIRGL2 linux_capsets) = Ok ''virgl, virgl2''"

text \<open>\<^verbatim>\<open>main.rs\<close>: the second loop of the first test, whose first one is the parser of clap.\<close>

definition test_capset_enum_in_sync :: bool where
  "test_capset_enum_in_sync \<longleftrightarrow>
     list_all (\<lambda>name. capset_from_name linux_capsets name = (Ok (capset_name_bits linux_capsets name) :: (gpu_capset, unit) rust))
       [Virgl, Virgl2, GfxstreamVulkan, GfxstreamGles]"

definition test_config_from_args :: bool where
  "test_config_from_args \<longleftrightarrow>
     (case config_from_args linux_capsets bit_flags
        \<lparr>arg_socket_path = ''/some/test/path'', arg_gpu_mode = CliVirglRenderer, arg_capset = Some [Virgl, Virgl2],
         arg_flags = \<lparr>arg_use_egl = False, arg_use_glx = True, arg_use_gles = False, arg_use_surfaceless = False\<rparr>\<rparr> of
        Ok (socket_path, config) \<Rightarrow>
          socket_path = ''/some/test/path'' \<and>
          cfg_flags config = \<lparr>use_egl = False, use_glx = True, use_gles = False, use_surfaceless = False\<rparr> \<and>
          cfg_gpu_mode config = VirglRenderer \<and>
          cfg_capset config = VIRGL linux_capsets OR VIRGL2 linux_capsets
      | _ \<Rightarrow> False)"

lemma capset_values [simp]:
  "VIRGL linux_capsets = 2" "VIRGL2 linux_capsets = 4" "GFXSTREAM_VULKAN linux_capsets = 8" "GFXSTREAM_GLES linux_capsets = 256"
  "ALL_VIRGLRENDERER_CAPSETS linux_capsets = 6" "ALL_GFXSTREAM_CAPSETS linux_capsets = 264"
  by (simp_all add: linux_capsets_def VIRGL_def VIRGL2_def GFXSTREAM_VULKAN_def GFXSTREAM_GLES_def
      ALL_VIRGLRENDERER_CAPSETS_def ALL_GFXSTREAM_CAPSETS_def push_bit_eq_mult)

lemma test_bit_flags [simp]:
  "bit_flags 6 = [2, 4]" "bit_flags 264 = [8, 256]" "bit_flags 4 = [4]" "bit_flags 12 = [4, 8]"
  by (simp_all add: bit_flags_def upt_conv_Cons bit_numeral_rec push_bit_eq_mult)

lemma config_tests_hold:
  "test_gpu_config_create_default_virglrenderer" "test_gpu_config_create_default_gfxstream"
  "test_gpu_config_valid_combination" "test_gpu_config_invalid_combinations" "test_gles_required_by_gfxstream"
  "test_capset_display_multiple" "test_capset_enum_in_sync" "test_config_from_args"
  by (simp_all add: test_gpu_config_create_default_virglrenderer_def test_gpu_config_create_default_gfxstream_def
      test_gpu_config_valid_combination_def test_gpu_config_invalid_combinations_def assert_invalid_gpu_config_def
      test_gles_required_by_gfxstream_def test_capset_display_multiple_def test_capset_enum_in_sync_def test_config_from_args_def
      gpu_config_new_def validate_capset_def capset_contains_def gpu_flags_default_def capset_display_def capset_name_display_def
      capset_from_name_ok config_from_args_def capset_names_into_capset_def capset_union_from_ok into_gpu_flags_def)

lemma num_capsets_test_holds: "test_default_num_capsets"
  by (simp add: test_default_num_capsets_def num_capsets_def upt_conv_Cons bit_numeral_rec)

section \<open>Protocol of the gpu\<close>

text \<open>The derived \<^verbatim>\<open>Default\<close> of a wire structure has zeroes in every field.\<close>

definition zeroed :: "'a codec \<Rightarrow> 'a" where
  "zeroed c = get c (replicate (csize c) 0)"

definition test_virtio_gpu_config :: bool where
  "test_virtio_gpu_config \<longleftrightarrow> csize virtio_gpu_config_layout = 16"

text \<open>\<^verbatim>\<open>Debug\<close> of a command prints its name.\<close>

definition test_gpu_command_debug :: bool where
  "test_gpu_command_debug \<longleftrightarrow>
     list_all (\<lambda>(command, expected). command_name command = expected)
       [(GetDisplayInfo, ''GetDisplayInfo''),
        (GetEdid (zeroed virtio_gpu_get_edid_layout), ''GetEdid''),
        (ResourceCreate2d (zeroed virtio_gpu_resource_create_2d_layout), ''ResourceCreate2d''),
        (ResourceUnref (zeroed virtio_gpu_resource_unref_layout), ''ResourceUnref''),
        (SetScanout (zeroed virtio_gpu_set_scanout_layout), ''SetScanout''),
        (SetScanoutBlob (zeroed virtio_gpu_set_scanout_blob_layout), ''SetScanoutBlob''),
        (ResourceFlush (zeroed virtio_gpu_resource_flush_layout), ''ResourceFlush''),
        (TransferToHost2d (zeroed virtio_gpu_transfer_to_host_2d_layout), ''TransferToHost2d''),
        (ResourceDetachBacking (zeroed virtio_gpu_resource_detach_backing_layout), ''ResourceDetachBacking''),
        (GetCapsetInfo (zeroed virtio_gpu_get_capset_info_layout), ''GetCapsetInfo''),
        (GetCapset (zeroed virtio_gpu_get_capset_layout), ''GetCapset''),
        (CtxCreate (zeroed virtio_gpu_ctx_create_layout), ''CtxCreate''),
        (CtxDestroy (), ''CtxDestroy''),
        (CtxAttachResource (zeroed virtio_gpu_ctx_resource_layout), ''CtxAttachResource''),
        (CtxDetachResource (zeroed virtio_gpu_ctx_resource_layout), ''CtxDetachResource''),
        (ResourceCreate3d (zeroed virtio_gpu_resource_create_3d_layout), ''ResourceCreate3d''),
        (TransferToHost3d (zeroed virtio_gpu_transfer_host_3d_layout), ''TransferToHost3d''),
        (TransferFromHost3d (zeroed virtio_gpu_transfer_host_3d_layout), ''TransferFromHost3d''),
        (CmdSubmit3d [] [], ''CmdSubmit3d''),
        (ResourceCreateBlob (zeroed virtio_gpu_resource_create_blob_layout), ''ResourceCreateBlob''),
        (ResourceMapBlob (zeroed virtio_gpu_resource_map_blob_layout), ''ResourceMapBlob''),
        (ResourceUnmapBlob (zeroed virtio_gpu_resource_unmap_blob_layout), ''ResourceUnmapBlob''),
        (UpdateCursor (zeroed virtio_gpu_update_cursor_layout), ''UpdateCursor''),
        (MoveCursor (zeroed virtio_gpu_update_cursor_layout), ''MoveCursor''),
        (ResourceAssignUuid (zeroed virtio_gpu_resource_assign_uuid_layout), ''ResourceAssignUuid'')]"

text \<open>The responses are written one after the other into a chain of 8192 bytes; \<open>ct\<close> are the numbers of the types.\<close>

fun encode_each :: "(ctrl_type \<Rightarrow> u32) \<Rightarrow> gpu_response list \<Rightarrow> u8 list \<times> nat \<Rightarrow> (u32, gpu_response_encode_error) rust list" where
  "encode_each ct [] w = []"
| "encode_each ct (resp # rs) w = (let (r, w') = encode ct list_writer resp 0 0 0 0 w in r # encode_each ct rs w')"

definition test_gpu_response_encode :: "(ctrl_type \<Rightarrow> u32) \<Rightarrow> bool" where
  "test_gpu_response_encode ct \<longleftrightarrow>
     encode_each ct
       [OkNoData, OkDisplayInfo [(0, 0, False)], OkEdid (replicate 1024 0), OkCapset [], OkCapsetInfo 0 0 0,
        OkResourcePlaneInfo 0 [], OkResourceUuid (replicate 16 0), OkMapInfo 0] ([], 8192)
     = [Ok 24, Ok 408, Ok 1056, Ok 24, Ok 40, Ok 72, Ok 40, Ok 32]"

lemma gpu_config_size_holds: "test_virtio_gpu_config"
  by (simp add: test_virtio_gpu_config_def)

lemma command_debug_holds: "test_gpu_command_debug"
  by (simp add: test_gpu_command_debug_def)

text \<open>A response that fits is written whole and takes its length from the room.\<close>

lemma encode_list_writer:
  assumes "response_valid resp" "24 + length (response_body resp) \<le> room"
  shows "\<exists>out'. encode ct list_writer resp 0 0 0 0 (out, room)
      = (Ok (of_nat (24 + length (response_body resp))), out', room - (24 + length (response_body resp)))"
proof -
  have "24 + length (response_body resp) < 2 ^ 32" using length_response_body [OF assms(1)] by simp
  with assms show ?thesis
    by (cases resp)
      (simp_all add: encode_def encode_display_info_def encode_edid_def VIRTIO_GPU_MAX_SCANOUTS_def EDID_BLOB_MAX_SIZE_def
        write_obj_def write_some_def list_writer_def bind_method_def return_method_def put_resps del: length_concat)
qed

definition tested_size :: "gpu_response \<Rightarrow> nat" where
  "tested_size resp = (if resp = OkResourcePlaneInfo 0 [] then 72 else 24 + length (response_body resp))"

lemma encode_each_sizes:
  assumes "list_all (\<lambda>resp. response_valid resp \<or> resp = OkResourcePlaneInfo 0 []) rs" "sum_list (map tested_size rs) \<le> room"
  shows "encode_each ct rs (out, room) = map (\<lambda>resp. Ok (of_nat (tested_size resp))) rs"
  using assms
proof (induction rs arbitrary: out room)
  case (Cons resp rs)
  have "\<exists>out' room'. encode ct list_writer resp 0 0 0 0 (out, room) = (Ok (of_nat (tested_size resp)), out', room') \<and>
      room - tested_size resp \<le> room'"
  proof (cases "resp = OkResourcePlaneInfo 0 []")
    case True
    with Cons.prems(2) show ?thesis
      using encode_plane_info_room [of "[]" list_writer "(out, room)" ct 0 0 0 0 0]
      by (simp add: tested_size_def list_writer_def PLANE_INFO_MAX_COUNT_def)
  next
    case False
    with Cons.prems show ?thesis
      using encode_list_writer [of resp room ct out] by (auto simp: tested_size_def)
  qed
  then obtain out' room' where e: "encode ct list_writer resp 0 0 0 0 (out, room) = (Ok (of_nat (tested_size resp)), out', room')"
    "room - tested_size resp \<le> room'" by blast
  then show ?case using Cons by simp
qed simp

lemma response_encode_holds: "test_gpu_response_encode ct"
  unfolding test_gpu_response_encode_def
  by (subst encode_each_sizes) (simp_all add: tested_size_def EDID_BLOB_MAX_SIZE_def del: length_concat)

section \<open>The gpu and its renderer\<close>

definition test_virtio_gpu_associated_scanouts :: bool where
  "test_virtio_gpu_associated_scanouts \<longleftrightarrow>
     (let ids = map of_nat [0..<unat VIRTIO_GPU_MAX_SCANOUTS];
          one = scanouts_enable 1 0;
          all = fold scanouts_enable ids (scanouts_disable 1 one);
          odd = fold scanouts_disable (filter (\<lambda>i. i mod 2 = 0) ids) all
      in \<not> has_any_enabled 0 \<and> iter_enabled 0 = [] \<and> has_any_enabled one \<and> \<not> has_any_enabled (scanouts_disable 1 one) \<and>
         has_any_enabled all \<and> iter_enabled all = ids \<and>
         iter_enabled odd = filter (\<lambda>i. i mod 2 \<noteq> 0) ids \<and>
         \<not> has_any_enabled (fold scanouts_disable (filter (\<lambda>i. i mod 2 \<noteq> 0) ids) odd))"

definition CREATE_RESOURCE_2D_720P :: resource_create_3d where
  "CREATE_RESOURCE_2D_720P =
     \<lparr>r3_target = 2, r3_format = 67, r3_bind = 2, r3_width = 1280, r3_height = 720, r3_depth = 1, r3_array_size = 1,
      r3_last_level = 0, r3_nr_samples = 0, r3_flags = 0\<rparr>"

definition CREATE_RESOURCE_CURSOR :: resource_create_3d where
  "CREATE_RESOURCE_CURSOR = CREATE_RESOURCE_2D_720P\<lparr>r3_width := 64, r3_height := 64\<rparr>"

definition dummy_gpu_backend :: "unit backend_ops" where
  "dummy_gpu_backend = \<lparr>be_get_display_info = (\<lambda>b. (Err 0, b)), be_get_edid = (\<lambda>_ b. (Err 0, b)),
     be_set_scanout = (\<lambda>_ _ _ b. (Err 0, b)), be_update_scanout = (\<lambda>_ _ b. (Err 0, b)),
     be_cursor_update = (\<lambda>_ _ _ _ b. (Err 0, b)), be_cursor_pos = (\<lambda>_ b. (Err 0, b)), be_cursor_pos_hide = (\<lambda>_ b. (Err 0, b))\<rparr>"

definition new_gpu :: "(unit, unit) rutabaga_virtio_gpu" where
  "new_gpu = rutabaga_virtio_gpu_new () ()"

definition cursor_at :: cursor_pos where
  "cursor_at = \<lparr>pos_scanout_id = 1, pos_x = 123, pos_y = 123\<rparr>"

definition test_update_cursor_fails :: bool where
  "test_update_cursor_fails \<longleftrightarrow>
     (let update = (\<lambda>id hot. update_cursor True easy_renderer dummy_gpu_backend id cursor_at hot hot);
          (r1, g1) = update 1 0 new_gpu;
          (c1, g2) = resource_create_3d_op True easy_renderer 1 CREATE_RESOURCE_2D_720P g1;
          (r2, g3) = update 1 0 g2;
          (c2, g4) = resource_create_3d_op True easy_renderer 2 CREATE_RESOURCE_CURSOR g3;
          (r3, g5) = update 2 5 g4
      in r1 = Err ErrInvalidResourceId \<and> is_ok c1 \<and> r2 = Err ErrInvalidParameter \<and> is_ok c2 \<and> r3 = Err ErrUnspec)"

definition test_move_cursor_fails :: bool where
  "test_move_cursor_fails \<longleftrightarrow>
     (let (r1, g1) = move_cursor dummy_gpu_backend 0 cursor_at new_gpu;
          (r2, g2) = move_cursor dummy_gpu_backend 1 cursor_at g1
      in r1 = Err ErrUnspec \<and> r2 = Err ErrUnspec)"

definition test_process_fence :: bool where
  "test_process_fence \<longleftrightarrow>
     (let (r, g1) = create_fence easy_renderer \<lparr>rgf_flags = 0, rgf_fence_id = 0, rgf_ctx_id = 1, rgf_ring_idx = 0\<rparr> new_gpu;
          (done0, g2) = gpu_process_fence Global 0 0 0 g1;
          (done1, g3) = gpu_process_fence Global 1 0 0 g2
      in r = Ok OkNoData \<and> done0 \<and> \<not> done1)"

definition test_create_and_unref_resources :: bool where
  "test_create_and_unref_resources \<longleftrightarrow>
     (let (r1, g1) = unref_resource easy_renderer 0 new_gpu;
          (r2, g2) = resource_create_3d_op True easy_renderer 1 CREATE_RESOURCE_2D_720P g1;
          (r3, g3) = unref_resource easy_renderer 1 g2
      in dom (resources new_gpu) = {} \<and> \<not> is_ok r1 \<and> is_ok r2 \<and> card (dom (resources g2)) = 1 \<and> is_ok r3 \<and>
         dom (resources g3) = {})"

lemma scanouts_test_holds: "test_virtio_gpu_associated_scanouts"
  by (simp add: test_virtio_gpu_associated_scanouts_def Let_def VIRTIO_GPU_MAX_SCANOUTS_def upt_conv_Cons
      scanouts_enable_def scanouts_disable_def has_any_enabled_def iter_enabled_bits push_bit_eq_mult bit_numeral_rec)

lemmas gpu_method_defs = new_gpu_def rutabaga_virtio_gpu_new_def dummy_gpu_backend_def easy_renderer_def is_ok_def
  on_backend_def on_rutabaga_def no_data_def bind_method_def return_method_def result_from_query_def virtio_gpu_resource_new_def

lemma gpu_tests_hold:
  "test_update_cursor_fails" "test_move_cursor_fails" "test_process_fence" "test_create_and_unref_resources"
  by (simp_all add: test_update_cursor_fails_def test_move_cursor_fails_def test_process_fence_def
      test_create_and_unref_resources_def gpu_method_defs update_cursor_def move_cursor_def resource_create_3d_op_def
      create_fence_def gpu_process_fence_def process_fence_def fence_state_default_def unref_resource_def has_any_enabled_def
      CREATE_RESOURCE_2D_720P_def CREATE_RESOURCE_CURSOR_def CURSOR_WIDTH_def CURSOR_HEIGHT_def read_2d_resource_def
      calculate_size_def checked_mul_def usize_max_def READ_RESOURCE_BYTES_PER_PIXEL_def)

section \<open>Commands on a mock\<close>

text \<open>\<^verbatim>\<open>MockVirtioGpu::new()\<close> panics on every call but the expected \<^verbatim>\<open>force_ctx_0\<close>; a test sets the one method that
  the command must reach. The last command is tested twice in the source.\<close>

definition mock :: "unit virtio_gpu_ops" where
  "mock = \<lparr>
     vg_resource_unmap_blob = (\<lambda>_. panic_method),
     vg_resource_map_blob = (\<lambda>_ _. panic_method),
     vg_resource_create_blob = (\<lambda>_ _ _. panic_method),
     vg_process_fence = (\<lambda>_ _ _ _ g. (False, g)),
     vg_create_fence = (\<lambda>_. panic_method),
     vg_submit_command = (\<lambda>_ _ _. panic_method),
     vg_context_detach_resource = (\<lambda>_ _. panic_method),
     vg_context_attach_resource = (\<lambda>_ _. panic_method),
     vg_destroy_context = (\<lambda>_. panic_method),
     vg_force_ctx_0 = (\<lambda>g. g),
     vg_display_info = panic_method,
     vg_get_edid = (\<lambda>_. panic_method),
     vg_set_scanout = (\<lambda>_ _ _. panic_method),
     vg_resource_create_3d = (\<lambda>_ _. panic_method),
     vg_unref_resource = (\<lambda>_. panic_method),
     vg_flush_resource = (\<lambda>_ _. panic_method),
     vg_transfer_write = (\<lambda>_ _ _. panic_method),
     vg_transfer_read = (\<lambda>_ _ _ _. panic_method),
     vg_attach_backing = (\<lambda>_ _. panic_method),
     vg_detach_backing = (\<lambda>_. panic_method),
     vg_update_cursor = (\<lambda>_ _ _ _. panic_method),
     vg_move_cursor = (\<lambda>_ _. panic_method),
     vg_resource_assign_uuid = (\<lambda>_. panic_method),
     vg_get_capset_info = (\<lambda>_. panic_method),
     vg_get_capset = (\<lambda>_ _. panic_method),
     vg_create_context = (\<lambda>_ _ _. panic_method),
     vg_get_event_poll_fd = (\<lambda>_. None),
     vg_event_poll = (\<lambda>g. g)\<rparr>"

definition test_cmd :: "gpu_env \<Rightarrow> unit virtio_gpu_ops \<Rightarrow> gpu_command \<Rightarrow> (gpu_response, gpu_response) rust" where
  "test_cmd env vg cmd = fst (process_gpu_command env vg (zeroed virtio_gpu_ctrl_hdr_layout) cmd ())"

definition test_process_gpu_command :: "gpu_env \<Rightarrow> bool" where
  "test_process_gpu_command env \<longleftrightarrow>
     test_cmd env (mock\<lparr>vg_display_info := return_method (OkDisplayInfo [(1280, 720, True)])\<rparr>) GetDisplayInfo = Ok (OkDisplayInfo [(1280, 720, True)]) \<and>
     test_cmd env (mock\<lparr>vg_get_edid := \<lambda>_. return_method (OkEdid (replicate 512 0xFF))\<rparr>) (GetEdid (zeroed virtio_gpu_get_edid_layout)) = Ok (OkEdid (replicate 512 0xFF)) \<and>
     test_cmd env (mock\<lparr>vg_resource_create_3d := \<lambda>_ _. return_method OkNoData\<rparr>) (ResourceCreate2d (zeroed virtio_gpu_resource_create_2d_layout)) = Ok OkNoData \<and>
     test_cmd env (mock\<lparr>vg_unref_resource := \<lambda>_. return_method OkNoData\<rparr>) (ResourceUnref (zeroed virtio_gpu_resource_unref_layout)) = Ok OkNoData \<and>
     test_cmd env (mock\<lparr>vg_set_scanout := \<lambda>_ _ _. return_method OkNoData\<rparr>) (SetScanout (zeroed virtio_gpu_set_scanout_layout)) = Ok OkNoData \<and>
     test_cmd env (mock\<lparr>vg_flush_resource := \<lambda>_ _. return_method OkNoData\<rparr>) (ResourceFlush (zeroed virtio_gpu_resource_flush_layout)) = Ok OkNoData \<and>
     test_cmd env (mock\<lparr>vg_transfer_write := \<lambda>_ _ _. return_method OkNoData\<rparr>) (TransferToHost2d (zeroed virtio_gpu_transfer_to_host_2d_layout)) = Ok OkNoData \<and>
     test_cmd env (mock\<lparr>vg_attach_backing := \<lambda>_ _. return_method OkNoData\<rparr>) (ResourceAttachBacking (zeroed virtio_gpu_resource_attach_backing_layout) []) = Ok OkNoData \<and>
     test_cmd env (mock\<lparr>vg_detach_backing := \<lambda>_. return_method OkNoData\<rparr>) (ResourceDetachBacking (zeroed virtio_gpu_resource_detach_backing_layout)) = Ok OkNoData \<and>
     test_cmd env (mock\<lparr>vg_get_capset_info := \<lambda>_. return_method (OkCapsetInfo 1 2 32)\<rparr>) (GetCapsetInfo (zeroed virtio_gpu_get_capset_info_layout)) = Ok (OkCapsetInfo 1 2 32) \<and>
     test_cmd env (mock\<lparr>vg_create_context := \<lambda>_ _ _. return_method OkNoData\<rparr>) (CtxCreate (zeroed virtio_gpu_ctx_create_layout)) = Ok OkNoData \<and>
     test_cmd env (mock\<lparr>vg_destroy_context := \<lambda>_. return_method OkNoData\<rparr>) (CtxDestroy ()) = Ok OkNoData \<and>
     test_cmd env (mock\<lparr>vg_context_attach_resource := \<lambda>_ _. return_method OkNoData\<rparr>) (CtxAttachResource (zeroed virtio_gpu_ctx_resource_layout)) = Ok OkNoData \<and>
     test_cmd env (mock\<lparr>vg_context_detach_resource := \<lambda>_ _. return_method OkNoData\<rparr>) (CtxDetachResource (zeroed virtio_gpu_ctx_resource_layout)) = Ok OkNoData \<and>
     test_cmd env (mock\<lparr>vg_resource_create_3d := \<lambda>_ _. return_method OkNoData\<rparr>) (ResourceCreate3d (zeroed virtio_gpu_resource_create_3d_layout)) = Ok OkNoData \<and>
     test_cmd env (mock\<lparr>vg_transfer_write := \<lambda>_ _ _. return_method OkNoData\<rparr>) (TransferToHost3d (zeroed virtio_gpu_transfer_host_3d_layout)) = Ok OkNoData \<and>
     test_cmd env (mock\<lparr>vg_transfer_read := \<lambda>_ _ _ _. return_method OkNoData\<rparr>) (TransferFromHost3d (zeroed virtio_gpu_transfer_host_3d_layout)) = Ok OkNoData \<and>
     test_cmd env (mock\<lparr>vg_submit_command := \<lambda>_ _ _. return_method OkNoData\<rparr>) (CmdSubmit3d (replicate 512 0xFF) []) = Ok OkNoData \<and>
     test_cmd env (mock\<lparr>vg_update_cursor := \<lambda>_ _ _ _. return_method OkNoData\<rparr>) (UpdateCursor (zeroed virtio_gpu_update_cursor_layout)) = Ok OkNoData \<and>
     test_cmd env (mock\<lparr>vg_move_cursor := \<lambda>_ _. return_method OkNoData\<rparr>) (MoveCursor (zeroed virtio_gpu_update_cursor_layout)) = Ok OkNoData"

lemmas handler_defs = handle_get_edid_def handle_resource_create_2d_def handle_transfer_to_host_2d_def handle_update_cursor_def
  handle_move_cursor_def handle_ctx_create_def handle_resource_create_3d_def handle_transfer_to_host_3d_def
  handle_transfer_from_host_3d_def rutabaga_iovecs_from_guest_mem_def

lemma process_gpu_command_holds: "test_process_gpu_command env"
  unfolding test_process_gpu_command_def
  by (intro conjI; simp add: test_cmd_def mock_def process_gpu_command_def handler_defs return_method_def)

end
