(* ===== verification/Spec2Isabelle.thy ===== *)
theory Spec2Isabelle
  imports Vhost_Programs Vhost_Postcopy Vhost_Migration Gpu_Service Console_Data Unit_Tests
begin

text \<open>
  A model of the virtio devices of this repository and of the vhost-user backend that serves them, with the properties
  that make them correct. The sources are Rust, under \<^verbatim>\<open>src/\<close>; the paths below are relative to it.

  \<^bold>\<open>The program.\<close> A frontend (the virtual machine monitor) connects to a socket. The daemon (\<^verbatim>\<open>vhost-user/src/lib.rs\<close>) accepts
  the connection and hands the requests to the handler (\<^verbatim>\<open>handler.rs\<close>), which keeps the rings (\<^verbatim>\<open>vring.rs\<close>), the memory
  map and the dirty-page logs (\<^verbatim>\<open>bitmap.rs\<close>), and, once the first ring is kicked, activates a device through the delegation of
  \<^verbatim>\<open>backend.rs\<close>. A device spawns threads that wait on an event manager (\<^verbatim>\<open>event_manager/\<close>, with tokens derived by
  \<^verbatim>\<open>event_token_derive/\<close>) for kicks of its rings. The gpu (\<^verbatim>\<open>device/virtio-gpu\<close>, program \<^verbatim>\<open>device/vhost-gpu\<close>) decodes commands,
  runs them on a renderer and parks chains until fences complete; the console (\<^verbatim>\<open>device/virtio-console\<close>, program
  \<^verbatim>\<open>device/vhost-console\<close>) moves bytes between ports and streams, and exchanges control messages with the guest.

  \<^bold>\<open>Theories.\<close>
  \<^item> \<open>Prelude\<close>: outcomes of Rust functions (\<open>Ok\<close>, \<open>Err\<close>, \<open>Panic\<close>), methods on a state, checked arithmetic, little-endian
    bytes; \<open>Byte_Valued\<close>: layouts of structures and the locale \<open>byte_valued\<close>.
  \<^item> \<open>Event_Token\<close>, \<open>Event_Manager\<close>: the token types of the derive macro, packing and unpacking; the waits over a parameter
    \<open>epoll_wait\<close>. The locale \<open>event_token\<close> is interpreted on the token type of each thread.
  \<^item> \<open>Bitmap\<close>: \<open>AtomicBitmapMmap\<close>, \<open>BitmapMmapRegion\<close> and slices over a store of shared logs (locale \<open>dirty_bitmap\<close>).
  \<^item> \<open>Vring\<close>: the record \<open>vring\<close> with the epoll instances that watch its kick. A world maps instances to their state,
    \<open>None\<close> once they are closed.
  \<^item> \<open>Vhost_Device\<close>: the traits \<^verbatim>\<open>VirtioDevice\<close> and \<^verbatim>\<open>VhostUserDevice\<close> as records of operations, and the delegation \<open>implementer\<close>
    between them (locale \<open>virtio_features\<close>).
  \<^item> \<open>Vhost_User_Handler\<close>: the record \<open>handler\<close>, every request as a function, and \<open>handle\<close> over the datatype \<open>request\<close>;
    \<open>Vhost_User_Rings\<close>: which requests can start or enable a ring (locale \<open>controlled_ring\<close>); \<open>Vhost_User_Session\<close>:
    \<open>conforming\<close> frontends, \<open>session\<close>, and the locale \<open>vhost_backend\<close>, what a backend must guarantee so that no request panics;
    \<open>Vhost_Postcopy\<close>: the three requests and the local addresses that the cargo feature \<^verbatim>\<open>postcopy\<close> adds to the handler;
    \<open>Vhost_Migration\<close>: the handler and the bitmaps together, from \<^verbatim>\<open>SET_LOG_BASE\<close> to the pages the frontend finds dirty.
  \<^item> \<open>Vhost_Daemon\<close>: \<^verbatim>\<open>VhostUserDaemon\<close>; \<open>Vhost_Programs\<close>: \<^verbatim>\<open>start_backend\<close> and both \<^verbatim>\<open>main\<close> functions.
  \<^item> \<open>Device_Queue\<close>, \<open>Device_Activation\<close>: the interfaces shared by the devices (readers, writers, chains, queues) and the
    set-up of an event manager over rings when a device is activated.
  \<^item> \<open>Gpu_Layout\<close>, \<open>Gpu_Protocol\<close>: the structures of \<^verbatim>\<open>protocol.rs\<close>, \<open>decode\<close> and \<open>encode\<close>; \<open>Virtio_Gpu\<close>, \<open>Rutabaga_Gpu\<close>:
    \<^verbatim>\<open>virtio_gpu.rs\<close>, fences, scanouts, resources and all operations; \<open>Gpu_Worker\<close>: \<^verbatim>\<open>worker.rs\<close> (locale \<open>gpu_client\<close>);
    \<open>Gpu_Config\<close>: \<^verbatim>\<open>lib.rs\<close> and the command line; \<open>Gpu_Device\<close>: \<^verbatim>\<open>device.rs\<close> and its backend.
  \<^item> \<open>Gpu_Fence_Locks\<close>: the worker and the fence handler as two threads that interleave between their operations on the two
    mutexes; \<open>Gpu_Service\<close>: runs of the device, in which the driver offers chains on both queues, the worker handles kicks and the
    renderer signals fences in any order.
  \<^item> \<open>Console_Ports\<close>: ports, ring numbers and the queue of control messages; \<open>Console_Control\<close>: the main worker; \<open>Console_Io\<close>:
    \<^verbatim>\<open>process_rx.rs\<close>, \<^verbatim>\<open>process_tx.rs\<close> and \<^verbatim>\<open>port_io.rs\<close>; \<open>Console_Data\<close>: the bytes they move, with the guest memory as a map from
    addresses to bytes; \<open>Console_Streams\<close>: the standard streams; \<open>Console_Device\<close>: \<^verbatim>\<open>device.rs\<close>.
  \<^item> \<open>Bitmap_Tests\<close>, \<open>Unit_Tests\<close>: the repository's own unit tests run on the model, which check its definitions against the values
    that the authors expect.

  \<^bold>\<open>Conventions.\<close> A method is a function from a state to an outcome and a state, so what was changed before an error or a panic
  stays changed. Fixed-width integers are words; \<^verbatim>\<open>usize\<close> is a natural number with its checked operations written out. The
  overflow checks of debug builds are the flag \<open>he_debug\<close> or the argument \<open>dbg\<close>. Loops over chains, events and requests
  are structural where the source iterates over a list, and \<^theory_text>\<open>partial_function (option)\<close> where the source loops on a queue
  or a connection; for the latter it is proved that they end for every finite amount of work (\<open>process_queue_accounts\<close>,
  \<open>control_tx_ends\<close>, \<open>port_input_accounts\<close>, \<open>port_output_accounts\<close>, \<open>serve_ends\<close>). The event loops of threads run over a list
  of the answers of \<^verbatim>\<open>wait\<close>. There is no fuel.

  \<^bold>\<open>Parameters.\<close> The crates \<^verbatim>\<open>virtio_queue\<close>, \<^verbatim>\<open>vm_memory\<close>, \<^verbatim>\<open>vhost\<close>, \<^verbatim>\<open>rutabaga_gfx\<close>, \<^verbatim>\<open>bitflags\<close> and \<^verbatim>\<open>vmm_sys_util\<close> and the system calls are
  arguments of the definitions, mostly records of operations; what is relied on is a named predicate
  (\<open>queue_contract\<close>, \<open>epoll_contract\<close>, \<open>worker_queue_contract\<close>, \<open>reader_contract\<close>, \<open>writer_contract\<close>, \<open>access_contract\<close>,
  \<open>connection_contract\<close>, \<open>unix_contract\<close> and their kin), each shown to hold of a concrete instance. A thread is modelled where it
  is spawned (its set-up) and where it is joined (its outcome); its body is a function of its own.

  \<^bold>\<open>What is shown.\<close> No request of a conforming frontend panics a backend, for both devices, and the watched kick descriptors
  follow the rings; the daemon and both programs end as described; dirty pages are exact; gpu commands and responses
  round-trip, every chain is answered or parked once, fences complete exactly the chains that wait for them, and resources and
  scanouts agree; in every run of the gpu each chain is in exactly one place and comes back once its fence is signalled,
  and in every interleaving of the worker with the fence handler the handler is atomic for the fence state, although the two
  can block each other; the rings of the console ports carry every byte to its place in the buffers and out of them in order, and
  control messages are delivered in order.
  Several properties state errors the code has, on the branches where it has them.

  \<^bold>\<open>Not modelled.\<close> The \<^verbatim>\<open>xen\<close> variant of the memory mapping, which is off by default; the expansion of
  the derive macro itself; interleavings of threads within one operation, except for
  the two locks of the gpu fences (elsewhere an operation under a lock is one step); the parsing of vhost-user
  messages and of the command line, which are libraries; logging, most of \<^verbatim>\<open>Debug\<close> and \<^verbatim>\<open>Display\<close>, the mock queue, and
  the unit tests that \<open>Unit_Tests\<close> names as left out.
\<close>

end
